(* ===== verification/Prelude.thy ===== *)
theory Prelude
  imports Main "HOL-Library.Word" "HOL-Library.AList"
begin

text \<open>
  Shared vocabulary of the development: the machine types of the target
  (aarch64, so \<open>usize\<close> has 64 bits; the crate is built with \<open>--release\<close>, so integer
  arithmetic wraps), the outcomes of a Rust function (a value, an error carried by
  \<open>Result\<close>, or a panic), the standard-library types the sources use (\<open>io::Error\<close>,
  \<open>HashMap\<close>, \<open>str\<close>), and the word and list lemmas used by more than one component.
\<close>

unbundle bit_operations_syntax

named_theorems outcome_simps \<open>equations of the combinators that run fallible operations\<close>

section \<open>Machine types\<close>

type_synonym u8 = "8 word"
type_synonym u16 = "16 word"
type_synonym u32 = "32 word"
type_synonym u64 = "64 word"
type_synonym usize = "64 word"
type_synonym i32 = "32 word"
type_synonym i64 = "64 word"
type_synonym bytes = "u8 list"

text \<open>A \<open>str\<close> is the list of its UTF-8 bytes; \<open>len()\<close> counts bytes.\<close>

type_synonym rstr = "u8 list"

section \<open>Outcomes\<close>

text \<open>
  A call that may panic has type \<open>'a exec\<close>; a Rust \<open>Result<T, E>\<close> is the sum \<open>'e + 'a\<close>.
  A stateful operation returns its outcome together with the state it leaves, also on
  the error paths, where Rust keeps every mutation made through \<open>&mut self\<close>.
\<close>

datatype 'a exec = Ret 'a | Panic

abbreviation Ok :: "'a \<Rightarrow> ('e + 'a) exec" where "Ok a \<equiv> Ret (Inr a)"
abbreviation Err :: "'e \<Rightarrow> ('e + 'a) exec" where "Err e \<equiv> Ret (Inl e)"

text \<open>The \<open>?\<close> operator on a stateful call.\<close>

fun try_op :: "('e + 'a) exec \<times> 's \<Rightarrow> ('a \<Rightarrow> 's \<Rightarrow> ('e + 'b) exec \<times> 's) \<Rightarrow> ('e + 'b) exec \<times> 's" where
  "try_op (Ret (Inr a), s) k = k a s"
| "try_op (Ret (Inl e), s) k = (Ret (Inl e), s)"
| "try_op (Panic, s) k = (Panic, s)"

text \<open>Using the value of a call that may panic but returns no \<open>Result\<close>.\<close>

fun exec_op :: "'a exec \<Rightarrow> 's \<Rightarrow> ('a \<Rightarrow> 'b exec \<times> 's) \<Rightarrow> 'b exec \<times> 's" where
  "exec_op (Ret a) s k = k a"
| "exec_op Panic s k = (Panic, s)"

fun map_exec :: "('a \<Rightarrow> 'b) \<Rightarrow> 'a exec \<Rightarrow> 'b exec" where
  "map_exec f (Ret a) = Ret (f a)"
| "map_exec f Panic = Panic"

text \<open>\<open>Result::map_err\<close>.\<close>

definition map_err :: "('e \<Rightarrow> 'f) \<Rightarrow> 'e + 'a \<Rightarrow> 'f + 'a" where
  "map_err f = map_sum f id"

lemma map_err_simps [simp, outcome_simps]:
  "map_err f (Inl e) = Inl (f e)" "map_err f (Inr a) = Inr a"
  by (simp_all add: map_err_def)

lemma try_op_Ok_iff:
  "try_op m k = (Ok b, s') \<longleftrightarrow> (\<exists>a s. m = (Ok a, s) \<and> k a s = (Ok b, s'))"
  by (induction m k rule: try_op.induct) auto

section \<open>Standard-library types\<close>

datatype io_error_kind =
    NotFound | PermissionDenied | ConnectionRefused | ConnectionReset | ConnectionAborted
  | NotConnected | AddrInUse | AddrNotAvailable | BrokenPipe | AlreadyExists | WouldBlock
  | InvalidInput | InvalidData | TimedOut | WriteZero | Interrupted | Other | UnexpectedEof
  | OtherKind

text \<open>
  An \<open>io::Error\<close>: its kind and the OS code it may wrap. The message text carries no
  control flow and is left out. \<open>OtherKind\<close> stands for any kind outside the eighteen the
  sources name (\<open>ErrorKind\<close> is non-exhaustive).
\<close>

record io_error =
  io_kind :: io_error_kind
  raw_os_error :: "i32 option"

definition io_error_from :: "io_error_kind \<Rightarrow> io_error" where
  "io_error_from k = \<lparr>io_kind = k, raw_os_error = None\<rparr>"

lemma io_kind_from [simp]: "io_kind (io_error_from k) = k"
  by (simp add: io_error_from_def)

datatype seek_from = Start u64 | End i64 | Current i64

text \<open>\<open>i64::abs\<close>: in a release build the absolute value of the minimum is the minimum itself.\<close>

definition i64_abs :: "i64 \<Rightarrow> i64" where
  "i64_abs x = (if sint x < 0 then - x else x)"

subsection \<open>HashMap\<close>

text \<open>
  A \<open>HashMap\<close> is the association list of its entries, in the order an iteration would
  visit them. The order is unspecified in Rust, so nothing a property says may depend on it.
\<close>

type_synonym ('k, 'v) hashmap = "('k \<times> 'v) list"

definition hm_get :: "'k \<Rightarrow> ('k, 'v) hashmap \<Rightarrow> 'v option" where
  "hm_get k m = map_of m k"

definition hm_insert :: "'k \<Rightarrow> 'v \<Rightarrow> ('k, 'v) hashmap \<Rightarrow> ('k, 'v) hashmap" where
  "hm_insert k v m = AList.update k v m"

definition hm_remove :: "'k \<Rightarrow> ('k, 'v) hashmap \<Rightarrow> ('k, 'v) hashmap" where
  "hm_remove k m = AList.delete k m"

definition hm_wf :: "('k, 'v) hashmap \<Rightarrow> bool" where
  "hm_wf m \<longleftrightarrow> distinct (map fst m)"

text \<open>\<open>iter().find_map\<close> for the searches by value: the first entry whose value is \<open>v\<close>.\<close>

fun hm_find_value :: "'v \<Rightarrow> ('k, 'v) hashmap \<Rightarrow> 'k option" where
  "hm_find_value v [] = None"
| "hm_find_value v ((k, w) # m) = (if w = v then Some k else hm_find_value v m)"

text \<open>What the sources rely on of a hash map, as an interface.\<close>

locale hash_map =
  fixes get :: "'k \<Rightarrow> 'm \<Rightarrow> 'v option"
    and ins :: "'k \<Rightarrow> 'v \<Rightarrow> 'm \<Rightarrow> 'm"
    and rem :: "'k \<Rightarrow> 'm \<Rightarrow> 'm"
    and find_value :: "'v \<Rightarrow> 'm \<Rightarrow> 'k option"
    and wf :: "'m \<Rightarrow> bool"
  assumes get_ins: "get k (ins k' v m) = (if k = k' then Some v else get k m)"
    and get_rem: "get k (rem k' m) = (if k = k' then None else get k m)"
    and wf_ins: "wf m \<Longrightarrow> wf (ins k v m)"
    and wf_rem: "wf m \<Longrightarrow> wf (rem k m)"
    and find_value_Some: "wf m \<Longrightarrow> find_value v m = Some k \<Longrightarrow> get k m = Some v"
    and find_value_None: "wf m \<Longrightarrow> find_value v m = None \<longleftrightarrow> (\<forall>k. get k m \<noteq> Some v)"
begin

definition injective_values :: "'m \<Rightarrow> bool" where
  "injective_values m \<longleftrightarrow> (\<forall>j k v. get j m = Some v \<longrightarrow> get k m = Some v \<longrightarrow> j = k)"

lemma injective_valuesD:
  "injective_values m \<Longrightarrow> get j m = Some v \<Longrightarrow> get k m = Some v \<Longrightarrow> j = k"
  by (auto simp: injective_values_def)

lemma find_value_iff:
  assumes "wf m" "injective_values m"
  shows "find_value v m = Some k \<longleftrightarrow> get k m = Some v"
proof
  assume "get k m = Some v"
  then obtain j where j: "find_value v m = Some j"
    using find_value_None [OF assms(1), of v] by fastforce
  then show "find_value v m = Some k"
    using find_value_Some [OF assms(1) j] injective_valuesD [OF assms(2)] \<open>get k m = Some v\<close>
    by fastforce
qed (rule find_value_Some [OF assms(1)])

text \<open>Two maps with the same entries answer a search by value alike, whatever their order.\<close>

lemma find_value_order_independent:
  assumes "wf m" "wf m'" "injective_values m" "\<And>k. get k m' = get k m"
  shows "find_value v m' = find_value v m"
proof -
  have "injective_values m'"
    using assms(3) by (simp add: injective_values_def assms(4))
  then have "find_value v m' = Some k \<longleftrightarrow> find_value v m = Some k" for k
    using assms by (simp add: find_value_iff)
  then show ?thesis by (metis option.exhaust)
qed

lemma injective_values_ins:
  assumes "injective_values m" "\<And>k. get k m \<noteq> Some v"
  shows "injective_values (ins i v m)"
  using assms by (auto simp: injective_values_def get_ins split: if_splits)

lemma injective_values_rem: "injective_values m \<Longrightarrow> injective_values (rem k m)"
  unfolding injective_values_def get_rem by (metis option.distinct(1))

end

lemma hm_find_value_Some: "hm_wf m \<Longrightarrow> hm_find_value v m = Some k \<Longrightarrow> hm_get k m = Some v"
  by (induction v m rule: hm_find_value.induct)
    (auto simp: hm_wf_def hm_get_def split: if_splits dest: map_of_SomeD intro: rev_image_eqI)

lemma hm_find_value_None: "hm_wf m \<Longrightarrow> hm_find_value v m = None \<longleftrightarrow> (\<forall>k. hm_get k m \<noteq> Some v)"
proof (induction v m rule: hm_find_value.induct)
  case (2 v k w m)
  then have k: "map_of m k = None" and wf: "hm_wf m"
    by (auto simp: hm_wf_def map_of_eq_None_iff)
  show ?case
  proof (cases "w = v")
    case False
    with 2(1) [OF _ wf] k show ?thesis
      by (simp add: hm_get_def) (metis option.distinct(1) option.inject)
  qed (auto simp: hm_get_def)
qed (simp add: hm_get_def)

interpretation hm: hash_map hm_get hm_insert hm_remove hm_find_value hm_wf
proof
  show "hm_get k (hm_insert k' v m) = (if k = k' then Some v else hm_get k m)"
    for k k' :: 'a and v :: 'b and m
    by (simp add: hm_get_def hm_insert_def update_conv')
  show "hm_get k (hm_remove k' m) = (if k = k' then None else hm_get k m)"
    for k k' :: 'a and m :: "('a, 'b) hashmap"
    by (simp add: hm_get_def hm_remove_def delete_conv')
qed (simp_all add: hm_find_value_None hm_find_value_Some,
  simp_all add: hm_wf_def hm_insert_def hm_remove_def distinct_update distinct_delete)

section \<open>UTF-8\<close>

text \<open>\<open>CStr::from_ptr(p).to_str()\<close>: the bytes before the first NUL, if they are UTF-8.\<close>

definition cont :: "u8 \<Rightarrow> u8 \<Rightarrow> u8 \<Rightarrow> bool" where
  "cont lo hi b \<longleftrightarrow> lo \<le> b \<and> b \<le> hi"

fun utf8_valid :: "bytes \<Rightarrow> bool" where
  "utf8_valid [] = True"
| "utf8_valid (a # bs) =
    (if a < 0x80 then utf8_valid bs
     else (case bs of
       [] \<Rightarrow> False
     | b # cs \<Rightarrow>
        if cont 0xC2 0xDF a then cont 0x80 0xBF b \<and> utf8_valid cs
        else (case cs of
          [] \<Rightarrow> False
        | c # ds \<Rightarrow>
           if cont 0xE0 0xEF a then
             cont (if a = 0xE0 then 0xA0 else 0x80) (if a = 0xED then 0x9F else 0xBF) b
               \<and> cont 0x80 0xBF c \<and> utf8_valid ds
           else (case ds of
             [] \<Rightarrow> False
           | d # es \<Rightarrow> cont 0xF0 0xF4 a
               \<and> cont (if a = 0xF0 then 0x90 else 0x80) (if a = 0xF4 then 0x8F else 0xBF) b
               \<and> cont 0x80 0xBF c \<and> cont 0x80 0xBF d \<and> utf8_valid es))))"

definition cstr_to_str :: "bytes \<Rightarrow> rstr option" where
  "cstr_to_str mem = (let b = takeWhile (\<lambda>x. x \<noteq> 0) mem in if utf8_valid b then Some b else None)"

text \<open>
  \<open>String::from_utf8_lossy\<close>: every maximal ill-formed prefix of a sequence becomes U+FFFD.
\<close>

definition replacement :: bytes where
  "replacement = [0xEF, 0xBF, 0xBD]"

fun utf8_lossy :: "bytes \<Rightarrow> rstr" where
  "utf8_lossy [] = []"
| "utf8_lossy (a # bs) =
    (if a < 0x80 then a # utf8_lossy bs
     else (case bs of
       [] \<Rightarrow> replacement
     | b # cs \<Rightarrow>
        if cont 0xC2 0xDF a \<and> cont 0x80 0xBF b then a # b # utf8_lossy cs
        else if cont 0xE0 0xEF a
            \<and> cont (if a = 0xE0 then 0xA0 else 0x80) (if a = 0xED then 0x9F else 0xBF) b then
          (case cs of
             [] \<Rightarrow> replacement
           | c # ds \<Rightarrow> if cont 0x80 0xBF c then a # b # c # utf8_lossy ds
               else replacement @ utf8_lossy cs)
        else if cont 0xF0 0xF4 a
            \<and> cont (if a = 0xF0 then 0x90 else 0x80) (if a = 0xF4 then 0x8F else 0xBF) b then
          (case cs of
             [] \<Rightarrow> replacement
           | c # ds \<Rightarrow> if \<not> cont 0x80 0xBF c then replacement @ utf8_lossy cs
               else (case ds of
                 [] \<Rightarrow> replacement
               | d # es \<Rightarrow> if cont 0x80 0xBF d then a # b # c # d # utf8_lossy es
                   else replacement @ utf8_lossy ds))
        else replacement @ utf8_lossy bs))"

lemma cont_exclusive:
  "cont 0xE0 0xEF a \<Longrightarrow> \<not> cont 0xC2 0xDF a"
  "cont 0xF0 0xF4 a \<Longrightarrow> \<not> cont 0xC2 0xDF a" "cont 0xF0 0xF4 a \<Longrightarrow> \<not> cont 0xE0 0xEF a"
  unfolding cont_def by unat_arith+

text \<open>Valid UTF-8 is left alone.\<close>

lemma utf8_lossy_valid: "utf8_valid bs \<Longrightarrow> utf8_lossy bs = bs"
proof (induction bs rule: measure_induct_rule [of length])
  case (less bs)
  show ?case
  proof (cases bs)
    case (Cons a as)
    show ?thesis
    proof (cases "a < 0x80")
      case True
      with less Cons show ?thesis by simp
    next
      case False
      with less.prems Cons obtain b cs where as: "as = b # cs"
        by (cases as) auto
      consider "cont 0xC2 0xDF a" | "cont 0xE0 0xEF a" "\<not> cont 0xC2 0xDF a"
        | "cont 0xF0 0xF4 a" "\<not> cont 0xC2 0xDF a" "\<not> cont 0xE0 0xEF a"
        using less.prems False Cons as by (auto split: list.splits if_splits)
      then show ?thesis
      proof cases
        case 1
        then show ?thesis using less False Cons as by simp
      next
        case 2
        with less.prems False Cons as obtain c ds where "cs = c # ds" by (cases cs) auto
        with 2 show ?thesis using less False Cons as by simp
      next
        case 3
        with less.prems False Cons as obtain c ds where cs: "cs = c # ds" by (cases cs) auto
        with 3 less.prems False Cons as obtain d es where "ds = d # es" by (cases ds) auto
        with 3 show ?thesis using less False Cons as cs by simp
      qed
    qed
  qed simp
qed

lemma utf8_replacement: "utf8_valid (replacement @ bs) \<longleftrightarrow> utf8_valid bs" "0 \<notin> set replacement" "replacement \<noteq> []"
  by (simp_all add: replacement_def cont_def)

text \<open>One character of the output, valid in front of anything.\<close>

definition utf8_char :: "bytes \<Rightarrow> bytes \<Rightarrow> bool" where
  "utf8_char pre src \<longleftrightarrow> pre \<noteq> [] \<and> (\<forall>x. utf8_valid (pre @ x) = utf8_valid x) \<and> (0 \<in> set pre \<longrightarrow> 0 \<in> set src)"

lemma utf8_char_intros:
  "a < 0x80 \<Longrightarrow> utf8_char [a] (a # bs)"
  "utf8_char replacement src"
  "cont 0xC2 0xDF a \<Longrightarrow> cont 0x80 0xBF b \<Longrightarrow> \<not> a < 0x80 \<Longrightarrow> utf8_char [a, b] (a # b # cs)"
  "cont 0xE0 0xEF a \<Longrightarrow> cont (if a = 0xE0 then 0xA0 else 0x80) (if a = 0xED then 0x9F else 0xBF) b
    \<Longrightarrow> cont 0x80 0xBF c \<Longrightarrow> \<not> a < 0x80 \<Longrightarrow> utf8_char [a, b, c] (a # b # c # ds)"
  "cont 0xF0 0xF4 a \<Longrightarrow> cont (if a = 0xF0 then 0x90 else 0x80) (if a = 0xF4 then 0x8F else 0xBF) b
    \<Longrightarrow> cont 0x80 0xBF c \<Longrightarrow> cont 0x80 0xBF d \<Longrightarrow> \<not> a < 0x80 \<Longrightarrow> utf8_char [a, b, c, d] (a # b # c # d # es)"
  by (auto simp: utf8_char_def utf8_replacement cont_exclusive)

text \<open>The conversion puts out one character and goes on with what is left.\<close>

definition lossy_goes_on :: "bytes \<Rightarrow> bool" where
  "lossy_goes_on src \<longleftrightarrow> (\<exists>pre rest. utf8_lossy src = pre @ utf8_lossy rest \<and> utf8_char pre src
     \<and> length rest < length src \<and> set rest \<subseteq> set src)"

lemma goes_on: "utf8_lossy src = pre @ utf8_lossy rest \<Longrightarrow> utf8_char pre src \<Longrightarrow> length rest < length src
    \<Longrightarrow> set rest \<subseteq> set src \<Longrightarrow> lossy_goes_on src"
  by (auto simp: lossy_goes_on_def)

lemmas goes_on_replaced = goes_on [OF _ utf8_char_intros(2)]

lemma lossy_three:
  assumes "\<not> a < 0x80" "cont 0xE0 0xEF a"
    and "cont (if a = 0xE0 then 0xA0 else 0x80) (if a = 0xED then 0x9F else 0xBF) b"
  shows "lossy_goes_on (a # b # cs)"
proof -
  have "\<not> cont 0xC2 0xDF a" using assms(2) cont_exclusive by blast
  then have u: "utf8_lossy (a # b # cs) = (case cs of [] \<Rightarrow> replacement
      | c # ds \<Rightarrow> if cont 0x80 0xBF c then a # b # c # utf8_lossy ds else replacement @ utf8_lossy cs)"
    using assms utf8_lossy.simps(2) [of a "b # cs"] by (simp del: utf8_lossy.simps)
  show ?thesis
  proof (cases cs)
    case Nil
    with u show ?thesis by (intro goes_on_replaced [of _ "[]"]) (simp_all del: utf8_lossy.simps(2))
  next
    case (Cons c ds)
    show ?thesis
    proof (cases "cont 0x80 0xBF c")
      case True
      then have char: "utf8_char [a, b, c] (a # b # cs)" using utf8_char_intros(4) [OF assms(2,3) True assms(1)] Cons by simp
      show ?thesis by (rule goes_on [OF _ char, of ds]) (use u True Cons in \<open>auto simp del: utf8_lossy.simps(2)\<close>)
    next
      case False
      with u Cons show ?thesis by (intro goes_on_replaced [of _ cs]) (simp_all del: utf8_lossy.simps, auto)
    qed
  qed
qed

lemma lossy_four:
  assumes "\<not> a < 0x80" "cont 0xF0 0xF4 a"
    and "cont (if a = 0xF0 then 0x90 else 0x80) (if a = 0xF4 then 0x8F else 0xBF) b"
  shows "lossy_goes_on (a # b # cs)"
proof -
  have "\<not> cont 0xC2 0xDF a" "\<not> cont 0xE0 0xEF a" using assms(2) cont_exclusive by blast+
  then have u: "utf8_lossy (a # b # cs) = (case cs of [] \<Rightarrow> replacement
      | c # ds \<Rightarrow> if \<not> cont 0x80 0xBF c then replacement @ utf8_lossy cs
          else (case ds of [] \<Rightarrow> replacement
            | d # es \<Rightarrow> if cont 0x80 0xBF d then a # b # c # d # utf8_lossy es else replacement @ utf8_lossy ds))"
    using assms utf8_lossy.simps(2) [of a "b # cs"] by (simp del: utf8_lossy.simps)
  consider "cs = []" | c ds where "cs = c # ds" "\<not> cont 0x80 0xBF c" | c where "cs = [c]" "cont 0x80 0xBF c"
    | c d es where "cs = c # d # es" "cont 0x80 0xBF c"
    by (metis list.exhaust)
  then show ?thesis
  proof cases
    case (4 c d es)
    show ?thesis
    proof (cases "cont 0x80 0xBF d")
      case True
      have char: "utf8_char [a, b, c, d] (a # b # cs)"
        using utf8_char_intros(5) [OF assms(2,3) 4(2) True assms(1)] 4(1) by simp
      show ?thesis by (rule goes_on [OF _ char, of es]) (use u True 4 in \<open>auto simp del: utf8_lossy.simps(2)\<close>)
    next
      case False
      with u 4 show ?thesis by (intro goes_on_replaced [of _ "d # es"]) (simp_all del: utf8_lossy.simps, auto)
    qed
  qed (use u in \<open>intro goes_on_replaced [of _ "[]"]; simp del: utf8_lossy.simps(2)\<close>,
    use u in \<open>intro goes_on_replaced [of _ cs]; simp del: utf8_lossy.simps(2); auto\<close>,
    use u in \<open>intro goes_on_replaced [of _ "[]"]; simp del: utf8_lossy.simps(2)\<close>)
qed

lemma utf8_lossy_step: "lossy_goes_on (a # bs)"
proof (cases "a < 0x80")
  case True
  then show ?thesis by (intro goes_on [OF _ utf8_char_intros(1), of _ _ bs]) auto
next
  case a: False
  show ?thesis
  proof (cases bs)
    case Nil
    with a show ?thesis by (intro goes_on_replaced [of _ "[]"]) simp_all
  next
    case (Cons b cs)
    note u = utf8_lossy.simps(2) [of a bs]
    consider (two) "cont 0xC2 0xDF a \<and> cont 0x80 0xBF b"
      | (three) "cont 0xE0 0xEF a \<and> cont (if a = 0xE0 then 0xA0 else 0x80) (if a = 0xED then 0x9F else 0xBF) b"
      | (four) "cont 0xF0 0xF4 a \<and> cont (if a = 0xF0 then 0x90 else 0x80) (if a = 0xF4 then 0x8F else 0xBF) b"
      | (none) "\<not> (cont 0xC2 0xDF a \<and> cont 0x80 0xBF b)"
          "\<not> (cont 0xE0 0xEF a \<and> cont (if a = 0xE0 then 0xA0 else 0x80) (if a = 0xED then 0x9F else 0xBF) b)"
          "\<not> (cont 0xF0 0xF4 a \<and> cont (if a = 0xF0 then 0x90 else 0x80) (if a = 0xF4 then 0x8F else 0xBF) b)"
      by blast
    then show ?thesis
    proof cases
      case two
      then have char: "utf8_char [a, b] (a # bs)" using utf8_char_intros(3) a Cons by simp
      show ?thesis by (rule goes_on [OF _ char, of cs]) (use u two a Cons in \<open>auto simp del: utf8_lossy.simps(2)\<close>)
    next
      case none
      then have "utf8_lossy (a # bs) = replacement @ utf8_lossy bs"
        by (subst u) (simp only: Cons a list.case if_False)
      then show ?thesis by (rule goes_on_replaced) auto
    qed (use lossy_three lossy_four a Cons in auto)
  qed
qed

text \<open>The lossy conversion always gives a string, and adds no NUL.\<close>

lemma utf8_lossy_str: "utf8_valid (utf8_lossy bs) \<and> (0 \<notin> set bs \<longrightarrow> 0 \<notin> set (utf8_lossy bs)) \<and> (utf8_lossy bs = [] \<longrightarrow> bs = [])"
proof (induction bs rule: measure_induct_rule [of length])
  case (less bs)
  show ?case
  proof (cases bs)
    case (Cons a as)
    obtain pre rest where s: "utf8_lossy bs = pre @ utf8_lossy rest" "utf8_char pre bs" "length rest < length bs"
      "set rest \<subseteq> set bs" using utf8_lossy_step [of a as] Cons by (auto simp: lossy_goes_on_def simp del: utf8_lossy.simps)
    from less [OF s(3)] s show ?thesis by (auto simp: utf8_char_def simp del: utf8_lossy.simps)
  qed simp
qed

lemma cstr_to_str_no_nul: "cstr_to_str mem = Some p \<Longrightarrow> 0 \<notin> set p"
  by (auto simp: cstr_to_str_def Let_def dest: set_takeWhileD split: if_splits)

section \<open>Words and lists\<close>

lemma unat64_less: "unat (w :: 64 word) < 2 ^ 64"
  using unsigned_less [of w] by simp

lemma unat32_less: "unat (w :: 32 word) < 2 ^ 32"
  using unsigned_less [of w] by simp

lemma unat8_less: "unat (b :: u8) < 256"
  using unsigned_less [of b] by simp

lemma unat_plus_small:
  fixes a b :: "'l::len word"
  shows "unat a + unat b < 2 ^ LENGTH('l) \<Longrightarrow> unat (a + b) = unat a + unat b"
  using unat_add_lem by blast

lemma unat_mult_small:
  fixes a b :: "'l::len word"
  shows "unat a * unat b < 2 ^ LENGTH('l) \<Longrightarrow> unat (a * b) = unat a * unat b"
  using unat_mult_lem by blast

lemma unat_ucast_up [simp]: "unat (ucast (w :: u32) :: 64 word) = unat w"
  by (simp add: unsigned_ucast_eq take_bit_nat_eq_self_iff order_less_le_trans[OF unsigned_less])

lemma unat_ucast_u8_64 [simp]: "unat (ucast (b :: u8) :: 64 word) = unat b"
  using unat8_less [of b] by (simp add: unsigned_ucast_eq take_bit_nat_eq_self_iff)

lemma unat_ucast_down: "unat (w :: 64 word) < 2 ^ 32 \<Longrightarrow> unat (ucast w :: u32) = unat w"
  by (simp add: unsigned_ucast_eq take_bit_nat_eq_self_iff)

lemma unat_ucast_mod: "unat (ucast (w :: 64 word) :: u32) = unat w mod 2 ^ 32"
  unfolding unsigned_ucast_eq by (simp add: take_bit_eq_mod)

text \<open>The low half of a word does not see multiples of \<open>2 ^ 32\<close>.\<close>

lemma ucast_add_multiple: "(ucast (w + 2 ^ 32 * k :: 64 word) :: u32) = ucast w"
proof -
  have "unat (w + 2 ^ 32 * k) = (unat w + 2 ^ 32 * unat k) mod 2 ^ 64"
    by (simp add: unat_word_ariths mod_simps)
  then have "unat (w + 2 ^ 32 * k) mod 2 ^ 32 = (unat w + 2 ^ 32 * unat k) mod 2 ^ 64 mod 2 ^ 32"
    by (rule arg_cong)
  also have "\<dots> = unat w mod 2 ^ 32"
    by (subst mod_mod_cancel) (simp_all add: le_imp_power_dvd)
  finally show ?thesis unfolding word_unat_eq_iff unat_ucast_mod .
qed

lemma sint64_unat:
  "sint (w :: 64 word) = (if unat w < 2 ^ 63 then int (unat w) else int (unat w) - 2 ^ 64)"
proof -
  obtain n where n: "n = unat w" "uint w = int n" by simp
  have s: "sint w = (int n + 2 ^ 63) mod 2 ^ 64 - 2 ^ 63"
    using int_word_sint [of "uint w", where 'a = 64, unfolded word_of_int_uint] unfolding n(2) by simp
  have u: "n < 2 ^ 64" using unat64_less [of w] n(1) by simp
  have "(int n + 2 ^ 63) mod 2 ^ 64 = (if n < 2 ^ 63 then int n + 2 ^ 63 else int n + 2 ^ 63 - 2 ^ 64)"
  proof (cases "n < 2 ^ 63")
    case False
    then have "(int n + 2 ^ 63) mod 2 ^ 64 = (int n + 2 ^ 63 - 2 ^ 64) mod 2 ^ 64"
      by (intro mod_pos_geq) simp_all
    also have "\<dots> = int n + 2 ^ 63 - 2 ^ 64"
      using False u by (intro mod_pos_pos_trivial) simp_all
    finally show ?thesis using False by simp
  qed simp
  with s n(1) show ?thesis by simp
qed

text \<open>A word below a power of two has no bit at or above the exponent.\<close>

lemma bit_below_exp:
  fixes w :: "'l::len word"
  assumes "unat w < 2 ^ k" "bit w n"
  shows "n < k"
proof -
  have "take_bit k w = w"
    using assms(1) by (simp add: word_unat_eq_iff unsigned_take_bit_eq take_bit_nat_eq_self_iff)
  then have "bit (take_bit k w) n" using assms(2) by simp
  then show ?thesis by (simp add: bit_take_bit_iff)
qed

lemma block_start: "(x :: nat) - x mod b = x div b * b"
  by (simp add: minus_mod_eq_div_mult)

lemma in_block_iff:
  assumes "0 < (b :: nat)"
  shows "n * b \<le> a \<and> a < n * b + b \<longleftrightarrow> a div b = n"
proof
  show "a div b = n" if "n * b \<le> a \<and> a < n * b + b"
    using that by (intro div_nat_eqI) (simp_all add: mult.commute)
  show "n * b \<le> a \<and> a < n * b + b" if "a div b = n"
    using div_mult_mod_eq [of a b] mod_less_divisor [OF assms, of a] that by auto
qed

lemma offset_in_block: "a div b = n \<Longrightarrow> a - n * b = a mod (b :: nat)"
  by (simp add: minus_div_mult_eq_mod flip: minus_div_mult_eq_mod)

lemma map_upt_shift: "map f [a + i ..< a + j] = map (\<lambda>k. f (a + k)) [i ..< j]"
  by (induction j) (auto simp: less_eq_Suc_le)

end
