(* ===== verification/ErrCodes.thy ===== *)
theory ErrCodes
  imports Prelude
begin

text \<open>
  \<open>src/capi_helpers/err.rs\<close>: the 32-bit codes the C interface returns and the trait
  \<open>LibnxErrMapper\<close> with its six implementations. The locale \<open>err_mapper\<close> is the
  contract the C functions rely on (an error is never reported as success).
\<close>

section \<open>Constants\<close>

definition SUCCESS :: u32 where "SUCCESS = 0"
definition NX_FATDRIVE_ERR_MODULE :: u32 where "NX_FATDRIVE_ERR_MODULE = 0xFA"
definition NX_FATDRIVE_ERR_NOT_IMPLEMENTED :: u32 where "NX_FATDRIVE_ERR_NOT_IMPLEMENTED = 0x1FA"
definition NX_FATDRIVE_ERR_NOT_INITIALIZED :: u32 where "NX_FATDRIVE_ERR_NOT_INITIALIZED = 0x2FA"
definition NX_FATDRIVE_ERR_DRIVE_NOT_FOUND :: u32 where "NX_FATDRIVE_ERR_DRIVE_NOT_FOUND = 0x3FA"
definition NX_FATDRIVE_ERR_POISSENED_MUTEX :: u32 where "NX_FATDRIVE_ERR_POISSENED_MUTEX = 0x4FA"
definition NX_FATDRIVE_ERR_DRIVE_DISCONNECTED :: u32 where
  "NX_FATDRIVE_ERR_DRIVE_DISCONNECTED = 0x6FA"
definition NX_FATDRIVE_ERR_STDIO_PREFIX :: u32 where "NX_FATDRIVE_ERR_STDIO_PREFIX = 0x20000"
definition NX_FATDRIVE_ERR_FS_PREFIX :: u32 where "NX_FATDRIVE_ERR_FS_PREFIX = 0x40000"
definition NX_FATDRIVE_ERR_FILE_NOT_FOUND :: u32 where
  "NX_FATDRIVE_ERR_FILE_NOT_FOUND = push_bit 8 (NX_FATDRIVE_ERR_FS_PREFIX + 1) + NX_FATDRIVE_ERR_MODULE"
definition NX_FATDRIVE_ERR_SCSI_PREFIX :: u32 where "NX_FATDRIVE_ERR_SCSI_PREFIX = 0x50000"
definition NX_FATDRIVE_ERR_MBR_PREFIX :: u32 where "NX_FATDRIVE_ERR_MBR_PREFIX = 0x60000"
definition NX_FATDRIVE_ERR_UNKNOWN :: u32 where
  "NX_FATDRIVE_ERR_UNKNOWN = 0xFFFFFE00 + NX_FATDRIVE_ERR_MODULE"

lemmas err_consts = SUCCESS_def NX_FATDRIVE_ERR_MODULE_def NX_FATDRIVE_ERR_NOT_IMPLEMENTED_def
  NX_FATDRIVE_ERR_NOT_INITIALIZED_def NX_FATDRIVE_ERR_DRIVE_NOT_FOUND_def
  NX_FATDRIVE_ERR_POISSENED_MUTEX_def NX_FATDRIVE_ERR_DRIVE_DISCONNECTED_def
  NX_FATDRIVE_ERR_STDIO_PREFIX_def NX_FATDRIVE_ERR_FS_PREFIX_def
  NX_FATDRIVE_ERR_FILE_NOT_FOUND_def NX_FATDRIVE_ERR_SCSI_PREFIX_def
  NX_FATDRIVE_ERR_MBR_PREFIX_def NX_FATDRIVE_ERR_UNKNOWN_def

section \<open>The error types of the libraries, as far as the sources look at them\<close>

text \<open>\<open>OtherDirection\<close> is what the wildcard arm of the direction match catches.\<close>

datatype transfer_direction = DirIn | DirOut | OtherDirection

text \<open>The cause of a \<open>ScsiError\<close>; the payloads the sources never read are left out.\<close>

datatype scsi_error =
    ParseError
  | NonBlocksizeMultipleLengthError
  | UsbTransferError transfer_direction
  | FlagError u32
  | BufferTooSmallError usize usize
  | UnsupportedOperationError
  | InvalidDeviceError

datatype mbr_error =
    UnsupportedPartitionError u8
  | InvalidMBRSuffix u8 u8
  | BufferWrongSizeError

text \<open>A \<open>LibnxError\<close>: the sources read the field \<open>error_code\<close> only.\<close>

record libnx_error =
  error_code :: "u32 option"

section \<open>The mappers\<close>

fun io_kind_offset :: "io_error_kind \<Rightarrow> u32" where
  "io_kind_offset NotFound = 1"
| "io_kind_offset PermissionDenied = 2"
| "io_kind_offset ConnectionRefused = 3"
| "io_kind_offset ConnectionReset = 4"
| "io_kind_offset NotConnected = 5"
| "io_kind_offset AddrInUse = 6"
| "io_kind_offset AddrNotAvailable = 7"
| "io_kind_offset BrokenPipe = 8"
| "io_kind_offset AlreadyExists = 9"
| "io_kind_offset WouldBlock = 10"
| "io_kind_offset InvalidInput = 11"
| "io_kind_offset InvalidData = 12"
| "io_kind_offset TimedOut = 13"
| "io_kind_offset WriteZero = 14"
| "io_kind_offset Interrupted = 15"
| "io_kind_offset Other = 16"
| "io_kind_offset UnexpectedEof = 17"
| "io_kind_offset ConnectionAborted = 18"
| "io_kind_offset OtherKind = 0xFFFF"

definition io_error_map :: "io_error \<Rightarrow> u32" where
  "io_error_map err =
     push_bit 8 (NX_FATDRIVE_ERR_STDIO_PREFIX + io_kind_offset (io_kind err)) + NX_FATDRIVE_ERR_MODULE"

definition u32_map :: "u32 \<Rightarrow> u32" where
  "u32_map raw = raw"

definition poison_error_map :: "unit \<Rightarrow> u32" where
  "poison_error_map _ = NX_FATDRIVE_ERR_POISSENED_MUTEX"

definition libnx_error_map :: "libnx_error \<Rightarrow> u32" where
  "libnx_error_map err = (case error_code err of Some c \<Rightarrow> c | None \<Rightarrow> NX_FATDRIVE_ERR_UNKNOWN)"

fun scsi_error_desc :: "scsi_error \<Rightarrow> u32" where
  "scsi_error_desc ParseError = 0x1000"
| "scsi_error_desc NonBlocksizeMultipleLengthError = 0x2000"
| "scsi_error_desc (UsbTransferError DirIn) = 0x3001"
| "scsi_error_desc (UsbTransferError DirOut) = 0x3002"
| "scsi_error_desc (UsbTransferError OtherDirection) = 0x3003"
| "scsi_error_desc (FlagError _) = 0x4000"
| "scsi_error_desc (BufferTooSmallError _ _) = 0x5000"
| "scsi_error_desc UnsupportedOperationError = 0x6000"
| "scsi_error_desc InvalidDeviceError = 0x7000"

definition scsi_error_map :: "scsi_error \<Rightarrow> u32" where
  "scsi_error_map err =
     push_bit 8 (scsi_error_desc err + NX_FATDRIVE_ERR_SCSI_PREFIX) + NX_FATDRIVE_ERR_MODULE"

fun mbr_error_desc :: "mbr_error \<Rightarrow> u32" where
  "mbr_error_desc (UnsupportedPartitionError tag) = 0x1000 + push_bit 8 (ucast tag)"
| "mbr_error_desc (InvalidMBRSuffix a0 a1) =
     0x2000 + push_bit 8 (ucast a0) + push_bit 4 (ucast a1)"
| "mbr_error_desc BufferWrongSizeError = 0x3000"

definition mbr_error_map :: "mbr_error \<Rightarrow> u32" where
  "mbr_error_map err =
     push_bit 8 (mbr_error_desc err + NX_FATDRIVE_ERR_MBR_PREFIX) + NX_FATDRIVE_ERR_MODULE"

section \<open>The contract of a mapper\<close>

text \<open>
  The low byte of a code is the module number. A mapper that keeps it never produces
  \<open>SUCCESS\<close>, which is what \<open>err_wrap!\<close> needs of it.
\<close>

locale err_mapper =
  fixes to_code :: "'e \<Rightarrow> u32"
  assumes module_byte: "to_code e AND 0xFF = NX_FATDRIVE_ERR_MODULE"
begin

lemma not_success: "to_code e \<noteq> SUCCESS"
proof
  assume "to_code e = SUCCESS"
  with module_byte [of e] show False by (simp add: err_consts)
qed

end

text \<open>A code built as \<open>(d << 8) + MODULE\<close> keeps the module byte, whatever \<open>d\<close> is.\<close>

lemma module_byte_push: "(push_bit 8 d + (0xFA :: u32)) AND 0xFF = 0xFA"
proof -
  have "unat (push_bit 8 d + (0xFA :: u32)) = (256 * unat d + 0xFA) mod 2 ^ 32"
    by (simp add: push_bit_eq_mult unat_word_ariths mod_simps mult.commute)
  then have "unat (take_bit 8 (push_bit 8 d + (0xFA :: u32))) = (256 * unat d + 0xFA) mod 2 ^ 32 mod 2 ^ 8"
    unfolding unsigned_take_bit_eq by (simp only: take_bit_eq_mod)
  also have "\<dots> = 0xFA"
    by (subst mod_mod_cancel) (simp_all add: le_imp_power_dvd)
  finally have "take_bit 8 (push_bit 8 d + (0xFA :: u32)) = 0xFA"
    by (simp add: word_unat_eq_iff)
  then show ?thesis
    by (simp add: take_bit_eq_mask mask_eq_exp_minus_1)
qed

interpretation io_mapper: err_mapper io_error_map
  by unfold_locales (simp add: io_error_map_def NX_FATDRIVE_ERR_MODULE_def module_byte_push)

interpretation scsi_mapper: err_mapper scsi_error_map
  by unfold_locales (simp add: scsi_error_map_def NX_FATDRIVE_ERR_MODULE_def module_byte_push)

interpretation mbr_mapper: err_mapper mbr_error_map
  by unfold_locales (simp add: mbr_error_map_def NX_FATDRIVE_ERR_MODULE_def module_byte_push)

interpretation poison_mapper: err_mapper poison_error_map
  by unfold_locales (simp add: poison_error_map_def err_consts)

text \<open>
  The mappers of \<open>LibnxError\<close> and \<open>u32\<close> pass a code through and give no such guarantee:
  they yield \<open>SUCCESS\<close> exactly when the code they carry is 0.
\<close>

lemma libnx_error_map_success_iff: "libnx_error_map e = SUCCESS \<longleftrightarrow> error_code e = Some 0"
  by (auto simp: libnx_error_map_def err_consts split: option.splits)

section \<open>Properties of the codes\<close>

text \<open>The number a code carries above the module byte.\<close>

lemma unat_code:
  fixes d :: u32
  assumes "unat d < 0x1000000"
  shows "unat (push_bit 8 d + NX_FATDRIVE_ERR_MODULE) = 256 * unat d + 0xFA"
  using assms by (simp add: push_bit_eq_mult unat_word_ariths NX_FATDRIVE_ERR_MODULE_def mult.commute)

lemma code_eq_iff:
  fixes d d' :: u32
  assumes "unat d < 0x1000000" "unat d' < 0x1000000"
  shows "push_bit 8 d + NX_FATDRIVE_ERR_MODULE = push_bit 8 d' + NX_FATDRIVE_ERR_MODULE \<longleftrightarrow> d = d'"
  using unat_code [OF assms(1)] unat_code [OF assms(2)] by (auto simp: word_unat_eq_iff)

lemma unat_u8_u32: "unat (ucast (b :: u8) :: u32) = unat b"
  using unat8_less [of b] by (simp add: unsigned_ucast_eq take_bit_nat_eq_self_iff)

lemma unat_io_desc:
  "unat (NX_FATDRIVE_ERR_STDIO_PREFIX + io_kind_offset k) \<in> {0x20001 .. 0x2FFFF}"
  by (cases k) (simp_all add: NX_FATDRIVE_ERR_STDIO_PREFIX_def)

lemma unat_scsi_desc:
  "unat (scsi_error_desc e + NX_FATDRIVE_ERR_SCSI_PREFIX) \<in> {0x51000 .. 0x57000}"
  by (cases e rule: scsi_error_desc.cases) (simp_all add: NX_FATDRIVE_ERR_SCSI_PREFIX_def)

lemma unat_push_byte:
  "unat (push_bit 8 (ucast (b :: u8)) :: u32) = 256 * unat b"
  "unat (push_bit 4 (ucast (b :: u8)) :: u32) = 16 * unat b"
  using unat8_less [of b] by (simp_all add: push_bit_eq_mult unat_word_ariths unat_u8_u32)

lemma unat_mbr_desc_value:
  "unat (mbr_error_desc (UnsupportedPartitionError t)) = 0x1000 + 256 * unat t"
  "unat (mbr_error_desc (InvalidMBRSuffix a b)) = 0x2000 + 256 * unat a + 16 * unat b"
  "unat (mbr_error_desc BufferWrongSizeError) = 0x3000"
  using unat8_less [of t] unat8_less [of a] unat8_less [of b]
  by (simp_all add: unat_word_ariths unat_push_byte)

lemma unat_mbr_desc:
  "unat (mbr_error_desc e + NX_FATDRIVE_ERR_MBR_PREFIX) \<in> {0x61000 .. 0x72EF0}"
proof -
  have "unat (mbr_error_desc e) \<in> {0x1000 .. 0x12EF0}"
  proof (cases e)
    case (UnsupportedPartitionError t)
    then show ?thesis using unat8_less [of t] by (simp add: unat_mbr_desc_value del: mbr_error_desc.simps)
  next
    case (InvalidMBRSuffix a b)
    then show ?thesis using unat8_less [of a] unat8_less [of b]
      by (simp add: unat_mbr_desc_value del: mbr_error_desc.simps)
  qed simp
  then show ?thesis by (simp add: unat_word_ariths NX_FATDRIVE_ERR_MBR_PREFIX_def)
qed

text \<open>
  Every code made from an \<open>io::Error\<close>, a \<open>ScsiError\<close>, an \<open>MbrError\<close> or a poisoned mutex
  carries the module number 0xFA in its low byte and is never \<open>SUCCESS\<close>; the codes of the
  first three families differ from each other and from the file-not-found code.
\<close>

theorem error_families_disjoint:
  "io_error_map e AND 0xFF = NX_FATDRIVE_ERR_MODULE \<and> scsi_error_map s AND 0xFF = NX_FATDRIVE_ERR_MODULE
    \<and> mbr_error_map m AND 0xFF = NX_FATDRIVE_ERR_MODULE \<and> poison_error_map u AND 0xFF = NX_FATDRIVE_ERR_MODULE
    \<and> SUCCESS \<notin> {io_error_map e, scsi_error_map s, mbr_error_map m, poison_error_map u}
    \<and> distinct [io_error_map e, scsi_error_map s, mbr_error_map m, NX_FATDRIVE_ERR_FILE_NOT_FOUND]"
proof -
  have b: "unat (NX_FATDRIVE_ERR_STDIO_PREFIX + io_kind_offset (io_kind e)) < 0x1000000"
    "unat (scsi_error_desc s + NX_FATDRIVE_ERR_SCSI_PREFIX) < 0x1000000"
    "unat (mbr_error_desc m + NX_FATDRIVE_ERR_MBR_PREFIX) < 0x1000000"
    using unat_io_desc [of "io_kind e"] unat_scsi_desc [of s] unat_mbr_desc [of m] by auto
  have "unat NX_FATDRIVE_ERR_FILE_NOT_FOUND = 256 * 0x40001 + 0xFA"
    by (simp add: err_consts)
  then have "distinct (List.map unat
      [io_error_map e, scsi_error_map s, mbr_error_map m, NX_FATDRIVE_ERR_FILE_NOT_FOUND])"
    unfolding io_error_map_def scsi_error_map_def mbr_error_map_def
    using b unat_io_desc [of "io_kind e"] unat_scsi_desc [of s] unat_mbr_desc [of m]
    by (simp add: unat_code)
  then have "distinct [io_error_map e, scsi_error_map s, mbr_error_map m, NX_FATDRIVE_ERR_FILE_NOT_FOUND]"
    unfolding distinct_map by blast
  then show ?thesis
    using io_mapper.not_success [of e] scsi_mapper.not_success [of s] mbr_mapper.not_success [of m]
      poison_mapper.not_success [of u]
    by (auto simp: io_mapper.module_byte scsi_mapper.module_byte mbr_mapper.module_byte
        poison_mapper.module_byte)
qed

text \<open>
  The code of an \<open>io::Error\<close> determines its kind: two errors get the same code exactly when
  their kinds agree (all kinds outside the listed eighteen share one code).
\<close>

theorem io_error_map_determines_kind: "io_error_map e = io_error_map e' \<longleftrightarrow> io_kind e = io_kind e'"
proof -
  have "io_error_map e = io_error_map e' \<longleftrightarrow> NX_FATDRIVE_ERR_STDIO_PREFIX + io_kind_offset (io_kind e)
      = NX_FATDRIVE_ERR_STDIO_PREFIX + io_kind_offset (io_kind e')"
    unfolding io_error_map_def
    using unat_io_desc [of "io_kind e"] unat_io_desc [of "io_kind e'"] by (intro code_eq_iff) auto
  also have "\<dots> \<longleftrightarrow> io_kind_offset (io_kind e) = io_kind_offset (io_kind e')" by simp
  also have "\<dots> \<longleftrightarrow> io_kind e = io_kind e'"
    by (cases "io_kind e"; cases "io_kind e'") simp_all
  finally show ?thesis .
qed

text \<open>
  The codes of an \<open>MbrError\<close> do not determine the error: an unsupported partition with tag
  \<open>16 + a\<close> and a boot-sector suffix that starts with the byte \<open>a\<close> (and ends in 0) share a code,
  and so do a buffer of the wrong size and the tag 32.
\<close>

theorem mbr_error_codes_collide:
  "(mbr_error_map (UnsupportedPartitionError (16 + a)) = mbr_error_map (InvalidMBRSuffix a 0)
      \<longleftrightarrow> unat a < 240)
    \<and> mbr_error_map (UnsupportedPartitionError 32) = mbr_error_map BufferWrongSizeError"
proof -
  have "mbr_error_map (UnsupportedPartitionError (16 + a)) = mbr_error_map (InvalidMBRSuffix a 0)
      \<longleftrightarrow> mbr_error_desc (UnsupportedPartitionError (16 + a)) = mbr_error_desc (InvalidMBRSuffix a 0)"
    unfolding mbr_error_map_def
    using unat_mbr_desc [of "UnsupportedPartitionError (16 + a)"] unat_mbr_desc [of "InvalidMBRSuffix a 0"]
    by (subst code_eq_iff) auto
  also have "\<dots> \<longleftrightarrow> 0x1000 + 256 * unat (16 + a) = 0x2000 + 256 * unat a"
    by (simp add: word_unat_eq_iff unat_mbr_desc_value del: mbr_error_desc.simps)
  also have "\<dots> \<longleftrightarrow> unat a < 240"
  proof -
    have "unat (16 + a) = (16 + unat a) mod 256" by (simp add: unat_word_ariths)
    then show ?thesis using unat8_less [of a] by (cases "unat a < 240") (auto simp: mod_if)
  qed
  finally show ?thesis by (simp add: mbr_error_map_def err_consts)
qed

end
