(* ===== verification/VecBuffer.thy ===== *)
theory VecBuffer
  imports ErrCodes
begin

text \<open>
  The trait \<open>scsi::Buffer\<close> as the code uses it, and its implementation \<open>VecNewtype\<close>
  (\<open>src/vecwrapper.rs\<close>): a byte vector with a declared capacity, pushed at the end and
  pulled from the front. The locale \<open>scsi_buffer\<close> is the contract of the trait; the
  transfers of \<open>UsbComm\<close> are proved against it for any buffer.
\<close>

section \<open>The trait\<close>

record 'b buffer_ops =
  b_size :: "'b \<Rightarrow> usize"
  b_capacity :: "'b \<Rightarrow> usize"
  b_push_byte :: "'b \<Rightarrow> u8 \<Rightarrow> (scsi_error + usize) \<times> 'b"
  b_pull_byte :: "'b \<Rightarrow> (scsi_error + u8) \<times> 'b"

locale scsi_buffer =
  fixes ops :: "'b buffer_ops"
    and contents :: "'b \<Rightarrow> bytes"
    and invar :: "'b \<Rightarrow> bool"
  assumes size_contents: "invar b \<Longrightarrow> unat (b_size ops b) = length (contents b)"
    and push_room: "invar b \<Longrightarrow> b_size ops b < b_capacity ops b \<Longrightarrow>
      b_push_byte ops b x = (r, b') \<Longrightarrow> r = Inr 1 \<and> contents b' = contents b @ [x]"
    and push_full: "invar b \<Longrightarrow> \<not> b_size ops b < b_capacity ops b \<Longrightarrow>
      b_push_byte ops b x = (r, b') \<Longrightarrow> (\<exists>e. r = Inl e) \<and> contents b' = contents b"
    and pull_front: "invar b \<Longrightarrow> contents b = x # xs \<Longrightarrow>
      b_pull_byte ops b = (q, b') \<Longrightarrow> q = Inr x \<and> contents b' = xs"
    and pull_empty: "invar b \<Longrightarrow> contents b = [] \<Longrightarrow>
      b_pull_byte ops b = (q, b') \<Longrightarrow> (\<exists>e. q = Inl e) \<and> contents b' = []"
    and capacity_push: "b_capacity ops (snd (b_push_byte ops b x)) = b_capacity ops b"
    and capacity_pull: "b_capacity ops (snd (b_pull_byte ops b)) = b_capacity ops b"
    and invar_push: "invar b \<Longrightarrow> invar (snd (b_push_byte ops b x))"
    and invar_pull: "invar b \<Longrightarrow> invar (snd (b_pull_byte ops b))"
begin

text \<open>The room left, as the code computes it.\<close>

lemma room_eq:
  assumes "invar b" "b_size ops b \<le> b_capacity ops b"
  shows "unat (b_capacity ops b - b_size ops b) = unat (b_capacity ops b) - length (contents b)"
  using assms by (simp add: unat_sub size_contents)

lemma size_less_iff: "invar b \<Longrightarrow>
    b_size ops b < b_capacity ops b \<longleftrightarrow> length (contents b) < unat (b_capacity ops b)"
  by (simp add: word_less_nat_alt size_contents)

lemma size_pos_iff: "invar b \<Longrightarrow> 0 < b_size ops b \<longleftrightarrow> contents b \<noteq> []"
  using size_contents [of b] by (simp add: word_less_nat_alt)

end

section \<open>VecNewtype\<close>

record vec_newtype =
  inner :: bytes
  fake_size :: usize

text \<open>
  \<open>Vec::with_capacity\<close> panics when the request exceeds \<open>isize::MAX\<close> bytes.
\<close>

definition with_fake_capacity :: "usize \<Rightarrow> vec_newtype exec" where
  "with_fake_capacity sz =
     (if unat sz < 2 ^ 63 then Ret \<lparr>inner = [], fake_size = sz\<rparr> else Panic)"

definition vec_new :: "vec_newtype exec" where
  "vec_new = with_fake_capacity 512"

definition vec_from :: "bytes \<Rightarrow> vec_newtype" where
  "vec_from v = \<lparr>inner = v, fake_size = 2 * max (of_nat (length v)) 256\<rparr>"

definition vec_size :: "vec_newtype \<Rightarrow> usize" where
  "vec_size v = of_nat (length (inner v))"

definition vec_capacity :: "vec_newtype \<Rightarrow> usize" where
  "vec_capacity v = fake_size v"

definition vec_push_byte :: "vec_newtype \<Rightarrow> u8 \<Rightarrow> (scsi_error + usize) \<times> vec_newtype" where
  "vec_push_byte v byte =
     (if fake_size v \<le> of_nat (length (inner v))
      then (Inl (BufferTooSmallError (fake_size v + 1) (fake_size v)), v)
      else (Inr 1, v\<lparr>inner := inner v @ [byte]\<rparr>))"

definition vec_pull_byte :: "vec_newtype \<Rightarrow> (scsi_error + u8) \<times> vec_newtype" where
  "vec_pull_byte v =
     (case inner v of
        x # xs \<Rightarrow> (Inr x, v\<lparr>inner := xs\<rparr>)
      | [] \<Rightarrow> (Inl (BufferTooSmallError 1 0), v))"

definition vec_ops :: "vec_newtype buffer_ops" where
  "vec_ops = \<lparr>b_size = vec_size, b_capacity = vec_capacity,
              b_push_byte = vec_push_byte, b_pull_byte = vec_pull_byte\<rparr>"

text \<open>A vector never holds more bytes than \<open>usize\<close> can count.\<close>

definition vec_inv :: "vec_newtype \<Rightarrow> bool" where
  "vec_inv v \<longleftrightarrow> length (inner v) < 2 ^ 64"

lemmas vec_defs = vec_size_def vec_capacity_def vec_push_byte_def vec_pull_byte_def vec_ops_def

lemma unat_length: "length xs < 2 ^ 64 \<Longrightarrow> unat (of_nat (length xs) :: usize) = length xs"
  by (simp add: unsigned_of_nat take_bit_nat_eq_self_iff)

lemma vec_inv_push: "vec_inv v \<Longrightarrow> vec_inv (snd (vec_push_byte v x))"
  using unat64_less [of "fake_size v"]
  by (auto simp: vec_inv_def vec_push_byte_def word_le_nat_alt unat_length)

lemma vec_inv_pull: "vec_inv v \<Longrightarrow> vec_inv (snd (vec_pull_byte v))"
  by (auto simp: vec_inv_def vec_pull_byte_def split: list.splits)

interpretation vec: scsi_buffer vec_ops inner vec_inv
proof
  show "vec_inv b \<Longrightarrow> unat (b_size vec_ops b) = length (inner b)" for b
    unfolding vec_inv_def by (simp add: vec_defs unat_length)
  show "vec_inv b \<Longrightarrow> vec_inv (snd (b_push_byte vec_ops b x))" for b x
    using vec_inv_push by (simp add: vec_ops_def)
  show "vec_inv b \<Longrightarrow> vec_inv (snd (b_pull_byte vec_ops b))" for b
    using vec_inv_pull by (simp add: vec_ops_def)
qed (auto simp: vec_defs split: list.splits if_splits)

lemma vec_new_eq: "vec_new = Ret \<lparr>inner = [], fake_size = 512\<rparr>"
  by (simp add: vec_new_def with_fake_capacity_def)

end
