(* ===== verification/BufScsi.thy ===== *)
theory BufScsi
  imports VecBuffer
begin

text \<open>
  \<open>src/buf_scsi.rs\<close>: \<open>OffsetScsiDevice\<close>, a byte-addressed reader and writer over the SCSI
  block device, with one block of write-back cache and a partition offset. The block device
  and the two provided methods of \<open>scsi::Buffer\<close> (\<open>clear\<close>, \<open>is_empty\<close>) live in the crate
  \<open>scsi\<close> and are parameters, collected in \<open>scsi_ops\<close>.
\<close>

record 'dev scsi_ops =
  op_block_size :: "'dev \<Rightarrow> u32"
  op_read :: "'dev \<Rightarrow> u32 \<Rightarrow> vec_newtype \<Rightarrow> (scsi_error + usize) \<times> 'dev \<times> vec_newtype"
  op_write :: "'dev \<Rightarrow> u32 \<Rightarrow> vec_newtype \<Rightarrow> (scsi_error + usize) \<times> 'dev \<times> vec_newtype"
  op_clear :: "vec_newtype \<Rightarrow> (scsi_error + unit) \<times> vec_newtype"
  op_is_empty :: "vec_newtype \<Rightarrow> bool"
  op_is_connected :: "'dev \<Rightarrow> bool"

record 'dev offset_scsi =
  device :: 'dev
  block_buffer :: vec_newtype
  partition_start :: usize
  partition_idx :: usize
  loaded_block_number :: usize
  needs_flush :: bool

definition offset_scsi_new :: "'dev scsi_ops \<Rightarrow> 'dev \<Rightarrow> usize \<Rightarrow> 'dev offset_scsi exec" where
  "offset_scsi_new ops dev start =
     map_exec (\<lambda>buf. \<lparr>device = dev, block_buffer = buf, partition_start = start,
                      partition_idx = 0, loaded_block_number = 0, needs_flush = False\<rparr>)
       (with_fake_capacity (ucast (op_block_size ops dev)))"

section \<open>Index arithmetic\<close>

definition block_size_usize :: "'dev scsi_ops \<Rightarrow> 'dev offset_scsi \<Rightarrow> usize" where
  "block_size_usize ops s = ucast (op_block_size ops (device s))"

definition raw_idx :: "'dev offset_scsi \<Rightarrow> usize" where
  "raw_idx s = partition_start s + partition_idx s"

definition buffered_block_raw_idx :: "'dev scsi_ops \<Rightarrow> 'dev offset_scsi \<Rightarrow> usize" where
  "buffered_block_raw_idx ops s = block_size_usize ops s * loaded_block_number s"

text \<open>A remainder or quotient by a zero block size panics.\<close>

definition cur_block_raw_idx :: "'dev scsi_ops \<Rightarrow> 'dev offset_scsi \<Rightarrow> usize exec" where
  "cur_block_raw_idx ops s =
     (if block_size_usize ops s = 0 then Panic
      else let rel_offset = raw_idx s mod block_size_usize ops s in Ret (raw_idx s - rel_offset))"

definition cur_block_number :: "'dev scsi_ops \<Rightarrow> 'dev offset_scsi \<Rightarrow> usize exec" where
  "cur_block_number ops s = map_exec (\<lambda>r. r div block_size_usize ops s) (cur_block_raw_idx ops s)"

definition offset_from_cur_block :: "'dev scsi_ops \<Rightarrow> 'dev offset_scsi \<Rightarrow> usize exec" where
  "offset_from_cur_block ops s = map_exec (\<lambda>r. raw_idx s - r) (cur_block_raw_idx ops s)"

section \<open>Operations\<close>

definition flush :: "'dev scsi_ops \<Rightarrow> 'dev offset_scsi \<Rightarrow> (io_error + unit) exec \<times> 'dev offset_scsi" where
  "flush ops s =
     (if \<not> needs_flush s then (Ok (), s)
      else case op_write ops (device s) (ucast (buffered_block_raw_idx ops s)) (block_buffer s) of
        (r, d, b) \<Rightarrow>
          (let s1 = s\<lparr>device := d, block_buffer := b\<rparr> in
           case r of
             Inl _ \<Rightarrow> (Err (io_error_from Other), s1)
           | Inr _ \<Rightarrow> (Ok (), s1\<lparr>needs_flush := False\<rparr>)))"

definition drop_osd :: "'dev scsi_ops \<Rightarrow> 'dev offset_scsi \<Rightarrow> 'dev offset_scsi" where
  "drop_osd ops s = snd (flush ops s)"

fun read_error :: "scsi_error \<Rightarrow> io_error" where
  "read_error (BufferTooSmallError expected actual) = io_error_from UnexpectedEof"
| "read_error e = io_error_from Other"

text \<open>The three steps of \<open>fill_buf\<close>: evict a block that is not the current one, load, slice.\<close>

definition evict :: "'dev scsi_ops \<Rightarrow> 'dev offset_scsi \<Rightarrow> (io_error + unit) exec \<times> 'dev offset_scsi" where
  "evict ops s =
     exec_op (cur_block_number ops s) s (\<lambda>cur.
       if cur \<noteq> loaded_block_number s
       then try_op (flush ops s) (\<lambda>_ s1.
         case op_clear ops (block_buffer s1) of
           (r, b) \<Rightarrow> (Ret (map_err (\<lambda>_. io_error_from Other) r), s1\<lparr>block_buffer := b\<rparr>))
       else (Ok (), s))"

definition load :: "'dev scsi_ops \<Rightarrow> u32 \<Rightarrow> 'dev offset_scsi \<Rightarrow> (io_error + unit) exec \<times> 'dev offset_scsi" where
  "load ops block_idx s =
     (if op_is_empty ops (block_buffer s)
      then case op_read ops (device s) block_idx (block_buffer s) of
        (r, d, b) \<Rightarrow>
          (let s1 = s\<lparr>device := d, block_buffer := b\<rparr> in
           case r of
             Inl e \<Rightarrow> (Err (read_error e), s1)
           | Inr _ \<Rightarrow> exec_op (cur_block_number ops s1) s1 (\<lambda>n.
               (Ok (), s1\<lparr>loaded_block_number := n\<rparr>)))
      else (Ok (), s))"

definition fill_buf :: "'dev scsi_ops \<Rightarrow> 'dev offset_scsi \<Rightarrow> (io_error + bytes) exec \<times> 'dev offset_scsi" where
  "fill_buf ops s =
     try_op (evict ops s) (\<lambda>_ s1.
       exec_op (cur_block_raw_idx ops s1) s1 (\<lambda>raw.
         try_op (load ops (ucast raw) s1) (\<lambda>_ s2.
           exec_op (offset_from_cur_block ops s2) s2 (\<lambda>off.
             if unat off \<le> length (inner (block_buffer s2))
             then (Ok (drop (unat off) (inner (block_buffer s2))), s2)
             else (Panic, s2)))))"

definition consume :: "usize \<Rightarrow> 'dev offset_scsi \<Rightarrow> 'dev offset_scsi" where
  "consume amt s = s\<lparr>partition_idx := partition_idx s + amt\<rparr>"

text \<open>\<open>Read::read\<close>: the output slice is returned with the bytes stored in it.\<close>

function read_loop ::
  "'dev scsi_ops \<Rightarrow> bytes \<Rightarrow> nat \<Rightarrow> 'dev offset_scsi \<Rightarrow> (io_error + usize) exec \<times> bytes \<times> 'dev offset_scsi" where
  "read_loop ops out i s =
     (if i < length out
      then case fill_buf ops s of
        (Panic, s1) \<Rightarrow> (Panic, out, s1)
      | (Err e, s1) \<Rightarrow> (Err e, out, s1)
      | (Ok buff, s1) \<Rightarrow>
          (case buff of
             [] \<Rightarrow> (Ok (of_nat i), out, s1)
           | byte # _ \<Rightarrow> read_loop ops (out[i := byte]) (Suc i) (consume 1 s1))
      else (Ok (of_nat i), out, s))"
  by pat_completeness auto
termination
  by (relation "measure (\<lambda>(ops, out, i, s). length out - i)") auto

definition osd_read ::
  "'dev scsi_ops \<Rightarrow> bytes \<Rightarrow> 'dev offset_scsi \<Rightarrow> (io_error + usize) exec \<times> bytes \<times> 'dev offset_scsi" where
  "osd_read ops output_buf s = read_loop ops output_buf 0 s"

text \<open>\<open>Write::write\<close>: a byte equal to the one in the buffer does not make it dirty.\<close>

definition store_byte :: "'dev scsi_ops \<Rightarrow> u8 \<Rightarrow> 'dev offset_scsi \<Rightarrow> unit exec \<times> 'dev offset_scsi" where
  "store_byte ops byte s =
     exec_op (offset_from_cur_block ops s) s (\<lambda>off.
       let buf = inner (block_buffer s); i = unat off in
       if i < length buf
       then (Ret (),
             if buf ! i \<noteq> byte
             then s\<lparr>block_buffer := (block_buffer s)\<lparr>inner := buf[i := byte]\<rparr>, needs_flush := True\<rparr>
             else s)
       else (Panic, s))"

function write_loop ::
  "'dev scsi_ops \<Rightarrow> bytes \<Rightarrow> nat \<Rightarrow> 'dev offset_scsi \<Rightarrow> (io_error + usize) exec \<times> 'dev offset_scsi" where
  "write_loop ops to_write i s =
     (if i < length to_write
      then case fill_buf ops s of
        (Panic, s1) \<Rightarrow> (Panic, s1)
      | (Err e, s1) \<Rightarrow> (Err e, s1)
      | (Ok _, s1) \<Rightarrow>
          if op_is_empty ops (block_buffer s1) then (Ok (of_nat i), s1)
          else (case store_byte ops (to_write ! i) s1 of
             (Panic, s2) \<Rightarrow> (Panic, s2)
           | (Ret _, s2) \<Rightarrow> write_loop ops to_write (Suc i) (consume 1 s2))
      else (Ok (of_nat i), s))"
  by pat_completeness auto
termination
  by (relation "measure (\<lambda>(ops, w, i, s). length w - i)") auto

declare read_loop.simps [simp del] write_loop.simps [simp del]

definition osd_write ::
  "'dev scsi_ops \<Rightarrow> bytes \<Rightarrow> 'dev offset_scsi \<Rightarrow> (io_error + usize) exec \<times> 'dev offset_scsi" where
  "osd_write ops to_write s = write_loop ops to_write 0 s"

text \<open>\<open>SeekFrom::End\<close> is \<open>unimplemented!\<close>.\<close>

fun osd_seek :: "seek_from \<Rightarrow> 'dev offset_scsi \<Rightarrow> (io_error + u64) exec \<times> 'dev offset_scsi" where
  "osd_seek (Start absr) s = (Ok absr, s\<lparr>partition_idx := absr\<rparr>)"
| "osd_seek (Current off) s =
     (let absr = (if sint off < 0 then partition_idx s - i64_abs off
                  else partition_idx s + i64_abs off)
      in (Ok absr, s\<lparr>partition_idx := absr\<rparr>))"
| "osd_seek (End off) s = (Panic, s)"

text \<open>
  \<open>flush\<close> never panics, and a state that is not dirty is flushed already.
\<close>

lemma flush_clean: "\<not> needs_flush s \<Longrightarrow> flush ops s = (Ok (), s)"
  by (simp add: flush_def)

lemma flush_cases:
  "(\<exists>s'. flush ops s = (Ok (), s') \<and> \<not> needs_flush s')
   \<or> (\<exists>s'. flush ops s = (Err (io_error_from Other), s') \<and> needs_flush s')"
proof (cases "needs_flush s")
  case True
  obtain r d b where
    "op_write ops (device s) (ucast (buffered_block_raw_idx ops s)) (block_buffer s) = (r, d, b)"
    by (metis prod_cases3)
  with True show ?thesis by (cases r) (simp_all add: flush_def Let_def)
qed (simp add: flush_clean)

end
