(* ===== verification/ByteStream.thy ===== *)
theory ByteStream
  imports Prelude
begin

text \<open>
  The interface between the sector-level disk handler and the byte device under it
  (\<open>Read + Write + Seek\<close>): a cursor over an array of bytes. The client's seek-then-transfer
  sequences are proved once, for every device that keeps the laws.
\<close>

text \<open>The array \<open>m\<close> after writing \<open>w\<close> at \<open>p\<close>.\<close>

definition overwrite :: "(nat \<Rightarrow> u8) \<Rightarrow> nat \<Rightarrow> bytes \<Rightarrow> nat \<Rightarrow> u8" where
  "overwrite m p w a = (if p \<le> a \<and> a < p + length w then w ! (a - p) else m a)"

lemma overwrite_Nil [simp]: "overwrite m p [] = m"
  by (auto simp: overwrite_def fun_eq_iff)

lemma overwrite_Cons: "overwrite (m(p := x)) (Suc p) w = overwrite m p (x # w)"
  by (auto simp: overwrite_def fun_eq_iff nth_Cons' Suc_diff_Suc)

lemma read_overwrite: "map (overwrite m p w) [p ..< p + length w] = w"
  by (rule nth_equalityI) (auto simp: overwrite_def)

lemma read_overwrite_disjoint:
  "p + length w \<le> q \<or> q + n \<le> p \<Longrightarrow> map (overwrite m p w) [q ..< q + n] = map m [q ..< q + n]"
  by (auto simp: overwrite_def)

text \<open>
  Sequences of operations on a device, given by its four functions, and the same sequences on
  the flat array: contents, start of the partition and cursor. \<open>fits\<close>: no transfer of the
  sequence leaves the array.
\<close>

datatype stream_op = SeekTo u64 | ReadBuf bytes | WriteBytes bytes | Sync

datatype stream_out = At u64 | Got usize bytes | Wrote usize | Synced

fun stream_do ::
  "(u64 \<Rightarrow> 's \<Rightarrow> ('e + u64) exec \<times> 's) \<Rightarrow> (bytes \<Rightarrow> 's \<Rightarrow> ('e + usize) exec \<times> bytes \<times> 's)
     \<Rightarrow> (bytes \<Rightarrow> 's \<Rightarrow> ('e + usize) exec \<times> 's) \<Rightarrow> ('s \<Rightarrow> ('e + unit) exec \<times> 's)
     \<Rightarrow> stream_op \<Rightarrow> 's \<Rightarrow> ('e + stream_out) exec \<times> 's" where
  "stream_do sk rd wr fl (SeekTo p) s = (case sk p s of (r, s1) \<Rightarrow> (map_exec (map_sum id At) r, s1))"
| "stream_do sk rd wr fl (ReadBuf out) s =
     (case rd out s of (r, out1, s1) \<Rightarrow> (map_exec (map_sum id (\<lambda>n. Got n out1)) r, s1))"
| "stream_do sk rd wr fl (WriteBytes w) s = (case wr w s of (r, s1) \<Rightarrow> (map_exec (map_sum id Wrote) r, s1))"
| "stream_do sk rd wr fl Sync s = (case fl s of (r, s1) \<Rightarrow> (map_exec (map_sum id (\<lambda>_. Synced)) r, s1))"

fun stream_run ::
  "(stream_op \<Rightarrow> 's \<Rightarrow> ('e + stream_out) exec \<times> 's) \<Rightarrow> stream_op list \<Rightarrow> 's
     \<Rightarrow> ('e + stream_out) exec list \<times> 's" where
  "stream_run f [] s = ([], s)"
| "stream_run f (x # xs) s =
     (case f x s of (r, s1) \<Rightarrow> (case stream_run f xs s1 of (rs, s2) \<Rightarrow> (r # rs, s2)))"

fun array_do :: "nat \<Rightarrow> stream_op \<Rightarrow> (nat \<Rightarrow> u8) \<times> nat \<Rightarrow> stream_out \<times> (nat \<Rightarrow> u8) \<times> nat" where
  "array_do b (SeekTo p) (m, q) = (At p, m, b + unat p)"
| "array_do b (ReadBuf out) (m, q) =
     (Got (of_nat (length out)) (map m [q ..< q + length out]), m, q + length out)"
| "array_do b (WriteBytes w) (m, q) = (Wrote (of_nat (length w)), overwrite m q w, q + length w)"
| "array_do b Sync (m, q) = (Synced, m, q)"

fun array_run :: "nat \<Rightarrow> stream_op list \<Rightarrow> (nat \<Rightarrow> u8) \<times> nat \<Rightarrow> stream_out list \<times> (nat \<Rightarrow> u8) \<times> nat" where
  "array_run b [] a = ([], a)"
| "array_run b (x # xs) a =
     (case array_do b x a of (r, a1) \<Rightarrow> (case array_run b xs a1 of (rs, a2) \<Rightarrow> (r # rs, a2)))"

fun fits :: "nat \<Rightarrow> nat \<Rightarrow> stream_op list \<Rightarrow> nat \<Rightarrow> bool" where
  "fits lim b [] q \<longleftrightarrow> True"
| "fits lim b (SeekTo p # xs) q \<longleftrightarrow> fits lim b xs (b + unat p)"
| "fits lim b (ReadBuf out # xs) q \<longleftrightarrow> q + length out \<le> lim \<and> fits lim b xs (q + length out)"
| "fits lim b (WriteBytes w # xs) q \<longleftrightarrow> q + length w \<le> lim \<and> fits lim b xs (q + length w)"
| "fits lim b (Sync # xs) q \<longleftrightarrow> fits lim b xs q"

locale byte_stream =
  fixes seek_start :: "u64 \<Rightarrow> 's \<Rightarrow> ('e + u64) exec \<times> 's"
    and read_bytes :: "bytes \<Rightarrow> 's \<Rightarrow> ('e + usize) exec \<times> bytes \<times> 's"
    and write_bytes :: "bytes \<Rightarrow> 's \<Rightarrow> ('e + usize) exec \<times> 's"
    and flush_bytes :: "'s \<Rightarrow> ('e + unit) exec \<times> 's"
    and invar :: "'s \<Rightarrow> bool"
    and view :: "'s \<Rightarrow> nat \<Rightarrow> u8"
    and base :: "'s \<Rightarrow> nat"
    and pos :: "'s \<Rightarrow> nat"
    and limit :: nat
  assumes seek_ok: "invar s \<Longrightarrow> \<exists>s'. seek_start p s = (Ok p, s') \<and> invar s' \<and> view s' = view s
      \<and> base s' = base s \<and> pos s' = base s + unat p"
    and read_ok: "invar s \<Longrightarrow> pos s + length out \<le> limit \<Longrightarrow>
      \<exists>s'. read_bytes out s = (Ok (of_nat (length out)), map (view s) [pos s ..< pos s + length out], s')
        \<and> invar s' \<and> view s' = view s \<and> base s' = base s \<and> pos s' = pos s + length out"
    and write_ok: "invar s \<Longrightarrow> pos s + length w \<le> limit \<Longrightarrow>
      \<exists>s'. write_bytes w s = (Ok (of_nat (length w)), s')
        \<and> invar s' \<and> view s' = overwrite (view s) (pos s) w \<and> base s' = base s
        \<and> pos s' = pos s + length w"
    and sync_ok: "invar s \<Longrightarrow> \<exists>s'. flush_bytes s = (Ok (), s') \<and> invar s' \<and> view s' = view s
      \<and> base s' = base s \<and> pos s' = pos s"
begin

lemma read_at:
  assumes "invar s" "base s + unat p + length out \<le> limit"
  obtains s1 s2 where "seek_start p s = (Ok p, s1)"
    "read_bytes out s1 = (Ok (of_nat (length out)),
       map (view s) [base s + unat p ..< base s + unat p + length out], s2)"
    "invar s2" "view s2 = view s" "base s2 = base s"
proof -
  obtain s1 where s1: "seek_start p s = (Ok p, s1)" "invar s1" "view s1 = view s"
      "base s1 = base s" "pos s1 = base s + unat p"
    using seek_ok [OF assms(1)] by blast
  then show ?thesis
    using read_ok [OF s1(2), of out] assms(2) that by auto
qed

lemma write_at:
  assumes "invar s" "base s + unat p + length w \<le> limit"
  obtains s1 s2 where "seek_start p s = (Ok p, s1)"
    "write_bytes w s1 = (Ok (of_nat (length w)), s2)"
    "invar s2" "view s2 = overwrite (view s) (base s + unat p) w" "base s2 = base s"
proof -
  obtain s1 where s1: "seek_start p s = (Ok p, s1)" "invar s1" "view s1 = view s"
      "base s1 = base s" "pos s1 = base s + unat p"
    using seek_ok [OF assms(1)] by blast
  then show ?thesis
    using write_ok [OF s1(2), of w] assms(2) that by auto
qed

text \<open>The simulation, for one operation and for a sequence.\<close>

lemma do_refines:
  assumes "invar s" "fits limit (base s) [x] (pos s)"
  shows "\<exists>s' r. stream_do seek_start read_bytes write_bytes flush_bytes x s = (Ok r, s')
    \<and> invar s' \<and> base s' = base s \<and> array_do (base s) x (view s, pos s) = (r, view s', pos s')"
proof (cases x)
  case (SeekTo p)
  with seek_ok [OF assms(1), of p] show ?thesis by auto
next
  case (ReadBuf out)
  with read_ok [OF assms(1), of out] assms(2) show ?thesis by auto
next
  case (WriteBytes w)
  with write_ok [OF assms(1), of w] assms(2) show ?thesis by auto
next
  case Sync
  with sync_ok [OF assms(1)] show ?thesis by auto
qed

lemma fits_Cons:
  "fits lim b (x # xs) q \<longleftrightarrow> fits lim b [x] q \<and> fits lim b xs (snd (snd (array_do b x (m, q))))"
  by (cases x) auto

lemma run_refines:
  assumes "invar s" "fits limit (base s) xs (pos s)"
  shows "\<exists>s' rs. stream_run (stream_do seek_start read_bytes write_bytes flush_bytes) xs s = (map Ok rs, s')
    \<and> invar s' \<and> base s' = base s \<and> array_run (base s) xs (view s, pos s) = (rs, view s', pos s')"
  using assms
proof (induction xs arbitrary: s)
  case (Cons x xs)
  note f = Cons.prems(2) [unfolded fits_Cons [of limit "base s" x xs "pos s" "view s"]]
  obtain s1 r where s1: "stream_do seek_start read_bytes write_bytes flush_bytes x s = (Ok r, s1)"
    "invar s1" "base s1 = base s" "array_do (base s) x (view s, pos s) = (r, view s1, pos s1)"
    using do_refines [OF Cons.prems(1)] f by blast
  then have "fits limit (base s1) xs (pos s1)" using f by simp
  from Cons.IH [OF s1(2) this] s1 show ?case by fastforce
qed simp

end

end
