(* ===== verification/BufScsiRefine.thy ===== *)
theory BufScsiRefine
  imports BufScsi ByteStream
begin

text \<open>
  The block cache refines a flat byte array. \<open>disk_laws\<close> states what the code relies on of a
  working block device; \<open>osd_inv\<close> is the invariant of the cache, \<open>osd_view\<close> the array it
  presents (the device's bytes, with the cached block in front where it is dirty). Every
  operation keeps the invariant, reads and flushes keep the array, writes update it.
\<close>

section \<open>The device\<close>

record 'dev disk_spec =
  spec_bs :: nat
  spec_size :: nat
  spec_content :: "'dev \<Rightarrow> nat \<Rightarrow> u8"
  spec_ok :: "'dev \<Rightarrow> bool"

text \<open>An empty buffer of one block's capacity receives the block at an aligned offset.\<close>

definition read_law :: "'dev scsi_ops \<Rightarrow> 'dev disk_spec \<Rightarrow> bool" where
  "read_law ops D \<longleftrightarrow> (\<forall>d raw v. spec_ok D d \<longrightarrow> inner v = [] \<longrightarrow> unat (fake_size v) = spec_bs D \<longrightarrow>
     spec_bs D dvd unat raw \<longrightarrow> unat raw + spec_bs D \<le> spec_size D \<longrightarrow>
     (\<exists>n d' v'. op_read ops d raw v = (Inr n, d', v') \<and> spec_ok D d'
        \<and> spec_content D d' = spec_content D d \<and> fake_size v' = fake_size v
        \<and> inner v' = map (spec_content D d) [unat raw ..< unat raw + spec_bs D]))"

text \<open>
  A full buffer is stored at an aligned offset; the buffer is left as it was or drained (the
  USB transfer of \<open>UsbComm\<close> drains the buffer it sends).
\<close>

definition write_law :: "'dev scsi_ops \<Rightarrow> 'dev disk_spec \<Rightarrow> bool" where
  "write_law ops D \<longleftrightarrow> (\<forall>d raw v. spec_ok D d \<longrightarrow> length (inner v) = spec_bs D \<longrightarrow>
     spec_bs D dvd unat raw \<longrightarrow> unat raw + spec_bs D \<le> spec_size D \<longrightarrow>
     (\<exists>n d' v'. op_write ops d raw v = (Inr n, d', v') \<and> spec_ok D d'
        \<and> spec_content D d' = (\<lambda>a. if unat raw \<le> a \<and> a < unat raw + spec_bs D
             then inner v ! (a - unat raw) else spec_content D d a)
        \<and> fake_size v' = fake_size v \<and> (inner v' = inner v \<or> inner v' = [])))"

definition buffer_law :: "'dev scsi_ops \<Rightarrow> bool" where
  "buffer_law ops \<longleftrightarrow>
     (\<forall>v. \<exists>v'. op_clear ops v = (Inr (), v') \<and> inner v' = [] \<and> fake_size v' = fake_size v)
     \<and> (\<forall>v. op_is_empty ops v \<longleftrightarrow> inner v = [])"

text \<open>Byte offsets travel as \<open>u32\<close>, so the laws are about disks of at most 4 GiB.\<close>

definition disk_laws :: "'dev scsi_ops \<Rightarrow> 'dev disk_spec \<Rightarrow> bool" where
  "disk_laws ops D \<longleftrightarrow>
     0 < spec_bs D \<and> spec_bs D dvd spec_size D \<and> spec_size D \<le> 2 ^ 32
     \<and> (\<forall>d. spec_ok D d \<longrightarrow> unat (op_block_size ops d) = spec_bs D)
     \<and> read_law ops D \<and> write_law ops D \<and> buffer_law ops"

lemma read_lawD:
  "read_law ops D \<Longrightarrow> spec_ok D d \<Longrightarrow> inner v = [] \<Longrightarrow> unat (fake_size v) = spec_bs D \<Longrightarrow>
     spec_bs D dvd unat raw \<Longrightarrow> unat raw + spec_bs D \<le> spec_size D \<Longrightarrow>
     \<exists>n d' v'. op_read ops d raw v = (Inr n, d', v') \<and> spec_ok D d'
        \<and> spec_content D d' = spec_content D d \<and> fake_size v' = fake_size v
        \<and> inner v' = map (spec_content D d) [unat raw ..< unat raw + spec_bs D]"
  by (simp only: read_law_def)

lemma write_lawD:
  "write_law ops D \<Longrightarrow> spec_ok D d \<Longrightarrow> length (inner v) = spec_bs D \<Longrightarrow>
     spec_bs D dvd unat raw \<Longrightarrow> unat raw + spec_bs D \<le> spec_size D \<Longrightarrow>
     \<exists>n d' v'. op_write ops d raw v = (Inr n, d', v') \<and> spec_ok D d'
        \<and> spec_content D d' = (\<lambda>a. if unat raw \<le> a \<and> a < unat raw + spec_bs D
             then inner v ! (a - unat raw) else spec_content D d a)
        \<and> fake_size v' = fake_size v \<and> (inner v' = inner v \<or> inner v' = [])"
  by (simp only: write_law_def)

section \<open>Invariant and view of the cache\<close>

definition osd_inv :: "'dev scsi_ops \<Rightarrow> 'dev disk_spec \<Rightarrow> 'dev offset_scsi \<Rightarrow> bool" where
  "osd_inv ops D s \<longleftrightarrow>
     disk_laws ops D \<and> spec_ok D (device s) \<and> unat (fake_size (block_buffer s)) = spec_bs D \<and>
     (let buf = inner (block_buffer s); base = unat (loaded_block_number s) * spec_bs D in
        buf = [] \<and> \<not> needs_flush s
      \<or> length buf = spec_bs D \<and> base + spec_bs D \<le> spec_size D
        \<and> (needs_flush s \<or> buf = map (spec_content D (device s)) [base ..< base + spec_bs D]))"

definition osd_view :: "'dev disk_spec \<Rightarrow> 'dev offset_scsi \<Rightarrow> nat \<Rightarrow> u8" where
  "osd_view D s a =
     (if needs_flush s \<and> a div spec_bs D = unat (loaded_block_number s)
      then inner (block_buffer s) ! (a mod spec_bs D)
      else spec_content D (device s) a)"

definition osd_pos :: "'dev offset_scsi \<Rightarrow> nat" where
  "osd_pos s = unat (partition_start s) + unat (partition_idx s)"

text \<open>The cache holds the block of the current position.\<close>

definition osd_loaded :: "'dev disk_spec \<Rightarrow> 'dev offset_scsi \<Rightarrow> bool" where
  "osd_loaded D s \<longleftrightarrow> length (inner (block_buffer s)) = spec_bs D
     \<and> unat (loaded_block_number s) = osd_pos s div spec_bs D"

text \<open>Two states at the same position that present the same array.\<close>

definition osd_same :: "'dev disk_spec \<Rightarrow> 'dev offset_scsi \<Rightarrow> 'dev offset_scsi \<Rightarrow> bool" where
  "osd_same D s t \<longleftrightarrow> partition_start t = partition_start s \<and> partition_idx t = partition_idx s
     \<and> osd_view D t = osd_view D s"

lemma osd_same_refl [simp]: "osd_same D s s"
  by (simp add: osd_same_def)

lemma osd_same_trans: "osd_same D s t \<Longrightarrow> osd_same D t u \<Longrightarrow> osd_same D s u"
  by (simp add: osd_same_def)

lemma osd_same_pos: "osd_same D s t \<Longrightarrow> osd_pos t = osd_pos s"
  by (simp add: osd_same_def osd_pos_def)

lemma osd_inv_laws:
  assumes "osd_inv ops D s"
  shows "0 < spec_bs D" "spec_bs D dvd spec_size D" "spec_size D \<le> 2 ^ 32"
    "read_law ops D" "write_law ops D" "buffer_law ops" "spec_ok D (device s)"
    "unat (block_size_usize ops s) = spec_bs D"
  using assms by (auto simp: osd_inv_def disk_laws_def block_size_usize_def)

lemma block_in_range:
  assumes "(b :: nat) dvd sz" "p < sz"
  shows "p div b * b + b \<le> sz"
proof -
  obtain k where k: "sz = b * k" using assms(1) by blast
  with assms(2) have "p div b < k"
    by (simp add: less_mult_imp_div_less mult.commute)
  then have "(p div b + 1) * b \<le> k * b" by (intro mult_le_mono1) simp
  with k show ?thesis by (simp add: mult.commute)
qed

section \<open>Index arithmetic\<close>

lemma raw_idx_nat: "osd_pos s < 2 ^ 64 \<Longrightarrow> unat (raw_idx s) = osd_pos s"
  by (simp add: raw_idx_def osd_pos_def unat_plus_small)

lemma cur_block_arith:
  assumes "osd_inv ops D s" "osd_pos s < spec_size D"
  shows "\<exists>r. cur_block_raw_idx ops s = Ret r \<and> unat r = osd_pos s div spec_bs D * spec_bs D"
    "\<exists>n. cur_block_number ops s = Ret n \<and> unat n = osd_pos s div spec_bs D"
    "\<exists>f. offset_from_cur_block ops s = Ret f \<and> unat f = osd_pos s mod spec_bs D"
proof -
  note laws = osd_inv_laws [OF assms(1)]
  have pos: "unat (raw_idx s) = osd_pos s"
    using assms(2) laws(3) by (intro raw_idx_nat) simp
  have nz: "block_size_usize ops s \<noteq> 0"
    using laws(1,8) by (metis less_irrefl unat_0)
  have le: "raw_idx s mod block_size_usize ops s \<le> raw_idx s"
    by (simp add: word_le_nat_alt unat_mod)
  let ?r = "raw_idx s - raw_idx s mod block_size_usize ops s"
  have r: "cur_block_raw_idx ops s = Ret ?r"
    using nz by (simp add: cur_block_raw_idx_def)
  have ur: "unat ?r = osd_pos s div spec_bs D * spec_bs D"
    unfolding unat_sub [OF le] unat_mod pos laws(8) by (rule minus_mod_eq_div_mult)
  from r ur show "\<exists>r. cur_block_raw_idx ops s = Ret r \<and> unat r = osd_pos s div spec_bs D * spec_bs D"
    by blast
  show "\<exists>n. cur_block_number ops s = Ret n \<and> unat n = osd_pos s div spec_bs D"
    using laws(1) by (simp add: cur_block_number_def r unat_div ur laws(8))
  have "?r \<le> raw_idx s" using ur pos by (simp add: word_le_nat_alt)
  then show "\<exists>f. offset_from_cur_block ops s = Ret f \<and> unat f = osd_pos s mod spec_bs D"
    by (simp add: offset_from_cur_block_def r unat_mod pos laws(8))
qed

section \<open>flush\<close>

lemma flush_correct:
  assumes inv: "osd_inv ops D s"
  shows "\<exists>s'. flush ops s = (Ok (), s') \<and> osd_inv ops D s' \<and> osd_same D s s'
    \<and> \<not> needs_flush s' \<and> spec_content D (device s') = osd_view D s
    \<and> loaded_block_number s' = loaded_block_number s"
proof (cases "needs_flush s")
  case False
  with inv show ?thesis
    by (simp add: flush_clean osd_view_def fun_eq_iff)
next
  case True
  note laws = osd_inv_laws [OF inv]
  let ?buf = "inner (block_buffer s)" and ?base = "unat (loaded_block_number s) * spec_bs D"
  let ?raw = "ucast (buffered_block_raw_idx ops s) :: u32"
  from inv True have len: "length ?buf = spec_bs D" and range: "?base + spec_bs D \<le> spec_size D"
    by (auto simp: osd_inv_def Let_def)
  have "unat (buffered_block_raw_idx ops s) = ?base"
    using range laws(3,8) by (simp add: buffered_block_raw_idx_def unat_mult_small mult.commute)
  then have raw: "unat ?raw = ?base"
    using range laws(1,3) by (simp add: unat_ucast_down)
  obtain n d v where w: "op_write ops (device s) ?raw (block_buffer s) = (Inr n, d, v)"
      and d: "spec_ok D d" "spec_content D d = (\<lambda>a. if ?base \<le> a \<and> a < ?base + spec_bs D
             then ?buf ! (a - ?base) else spec_content D (device s) a)"
      and v: "fake_size v = fake_size (block_buffer s)" "inner v = ?buf \<or> inner v = []"
    using write_lawD [OF laws(5,7) len, of ?raw] range unfolding raw by auto
  let ?s = "s\<lparr>device := d, block_buffer := v, needs_flush := False\<rparr>"
  have content: "spec_content D d = osd_view D s"
  proof
    fix a
    have "?base \<le> a \<and> a < ?base + spec_bs D \<longleftrightarrow> a div spec_bs D = unat (loaded_block_number s)"
      by (rule in_block_iff [OF laws(1)])
    moreover have "a - ?base = a mod spec_bs D" if "a div spec_bs D = unat (loaded_block_number s)"
      using that by (rule offset_in_block)
    ultimately show "spec_content D d a = osd_view D s a"
      using True by (simp add: d(2) osd_view_def)
  qed
  have f: "flush ops s = (Ok (), ?s)"
    using True w by (simp add: flush_def)
  have "?buf = map (spec_content D d) [?base ..< ?base + spec_bs D]"
    by (rule nth_equalityI) (simp_all add: len d(2))
  with inv d(1) v len range have "osd_inv ops D ?s"
    by (auto simp: osd_inv_def Let_def)
  with f content show ?thesis
    by (simp add: osd_same_def osd_view_def fun_eq_iff)
qed

section \<open>fill_buf\<close>

lemma evict_correct:
  assumes inv: "osd_inv ops D s" and pos: "osd_pos s < spec_size D"
  shows "\<exists>s'. evict ops s = (Ok (), s') \<and> osd_inv ops D s' \<and> osd_same D s s'
    \<and> (inner (block_buffer s') = [] \<or> unat (loaded_block_number s') = osd_pos s div spec_bs D)"
proof -
  obtain n where n: "cur_block_number ops s = Ret n" "unat n = osd_pos s div spec_bs D"
    using cur_block_arith(2) [OF assms] by blast
  show ?thesis
  proof (cases "n = loaded_block_number s")
    case True
    with n inv show ?thesis by (auto simp: evict_def)
  next
    case False
    obtain s1 where s1: "flush ops s = (Ok (), s1)" "osd_inv ops D s1" "osd_same D s s1"
        "\<not> needs_flush s1"
      using flush_correct [OF inv] by blast
    obtain v where v: "op_clear ops (block_buffer s1) = (Inr (), v)" "inner v = []"
        "fake_size v = fake_size (block_buffer s1)"
      using osd_inv_laws(6) [OF inv] unfolding buffer_law_def by blast
    have "evict ops s = (Ok (), s1\<lparr>block_buffer := v\<rparr>)"
      using False n s1(1) v(1) by (simp add: evict_def)
    moreover have "osd_inv ops D (s1\<lparr>block_buffer := v\<rparr>)"
      using s1(2,4) v(2,3) by (simp add: osd_inv_def)
    moreover have "osd_same D s (s1\<lparr>block_buffer := v\<rparr>)"
      using s1(3,4) by (simp add: osd_same_def osd_view_def fun_eq_iff)
    ultimately show ?thesis using v(2) by auto
  qed
qed

lemma load_correct:
  assumes inv: "osd_inv ops D s" and pos: "osd_pos s < spec_size D"
    and cur: "inner (block_buffer s) = [] \<or> unat (loaded_block_number s) = osd_pos s div spec_bs D"
    and raw: "unat raw = osd_pos s div spec_bs D * spec_bs D"
  shows "\<exists>s'. load ops raw s = (Ok (), s') \<and> osd_inv ops D s' \<and> osd_same D s s' \<and> osd_loaded D s'"
proof (cases "inner (block_buffer s) = []")
  case False
  with inv cur have "osd_loaded D s"
    by (auto simp: osd_inv_def osd_loaded_def Let_def)
  with False osd_inv_laws(6) [OF inv] inv show ?thesis
    by (auto simp: load_def buffer_law_def)
next
  case True
  note laws = osd_inv_laws [OF inv]
  have clean: "\<not> needs_flush s" and cap: "unat (fake_size (block_buffer s)) = spec_bs D"
    using inv True laws(1) by (auto simp: osd_inv_def Let_def)
  have range: "unat raw + spec_bs D \<le> spec_size D"
    unfolding raw by (rule block_in_range [OF laws(2) pos])
  obtain k d v where r: "op_read ops (device s) raw (block_buffer s) = (Inr k, d, v)"
      and d: "spec_ok D d" "spec_content D d = spec_content D (device s)"
      and v: "fake_size v = fake_size (block_buffer s)"
        "inner v = map (spec_content D (device s)) [unat raw ..< unat raw + spec_bs D]"
    using read_lawD [OF laws(4,7) True cap _ range] raw by auto
  let ?s = "s\<lparr>device := d, block_buffer := v\<rparr>"
  have bs: "block_size_usize ops ?s = block_size_usize ops s"
    using inv d(1) laws(8) by (simp add: word_unat_eq_iff osd_inv_def disk_laws_def block_size_usize_def)
  have "cur_block_number ops ?s = cur_block_number ops s"
    unfolding cur_block_number_def cur_block_raw_idx_def bs by (simp add: raw_idx_def)
  then obtain n where n: "cur_block_number ops ?s = Ret n" "unat n = osd_pos s div spec_bs D"
    using cur_block_arith(2) [OF inv pos] by auto
  let ?t = "?s\<lparr>loaded_block_number := n\<rparr>"
  have "load ops raw s = (Ok (), ?t)"
    using True laws(6) r n(1) by (simp add: load_def buffer_law_def)
  moreover have "osd_inv ops D ?t"
    using inv d v n(2) range raw clean by (auto simp: osd_inv_def Let_def)
  moreover have "osd_same D s ?t"
    using clean d(2) by (simp add: osd_same_def osd_view_def fun_eq_iff)
  moreover have "osd_loaded D ?t"
    using v(2) n(2) by (simp add: osd_loaded_def osd_pos_def)
  ultimately show ?thesis by blast
qed

lemma fill_buf_correct:
  assumes inv: "osd_inv ops D s" and pos: "osd_pos s < spec_size D"
  shows "\<exists>s'. fill_buf ops s = (Ok (drop (osd_pos s mod spec_bs D) (inner (block_buffer s'))), s')
    \<and> osd_inv ops D s' \<and> osd_same D s s' \<and> osd_loaded D s'"
proof -
  obtain s1 where s1: "evict ops s = (Ok (), s1)" "osd_inv ops D s1" "osd_same D s s1"
      "inner (block_buffer s1) = [] \<or> unat (loaded_block_number s1) = osd_pos s div spec_bs D"
    using evict_correct [OF assms] by blast
  have p1: "osd_pos s1 = osd_pos s" by (rule osd_same_pos [OF s1(3)])
  obtain r where r: "cur_block_raw_idx ops s1 = Ret r" "unat r = osd_pos s div spec_bs D * spec_bs D"
    using cur_block_arith(1) [OF s1(2)] pos p1 by auto
  have "unat (ucast r :: u32) = unat r"
    using pos r(2) osd_inv_laws(3) [OF inv] div_times_less_eq_dividend [of "osd_pos s" "spec_bs D"]
    by (intro unat_ucast_down) linarith
  then obtain s2 where s2: "load ops (ucast r) s1 = (Ok (), s2)" "osd_inv ops D s2"
      "osd_same D s1 s2" "osd_loaded D s2"
    using load_correct [OF s1(2), of "ucast r"] pos p1 r(2) s1(4) by auto
  have same: "osd_same D s s2" by (rule osd_same_trans [OF s1(3) s2(3)])
  then have p2: "osd_pos s2 = osd_pos s" by (rule osd_same_pos)
  obtain f where f: "offset_from_cur_block ops s2 = Ret f" "unat f = osd_pos s mod spec_bs D"
    using cur_block_arith(3) [OF s2(2)] pos p2 by auto
  have "unat f \<le> length (inner (block_buffer s2))"
    using s2(4) f(2) osd_inv_laws(1) [OF inv] by (simp add: osd_loaded_def less_imp_le)
  then have "fill_buf ops s = (Ok (drop (unat f) (inner (block_buffer s2))), s2)"
    by (simp add: fill_buf_def s1(1) r(1) s2(1) f(1))
  with f(2) s2(2,4) same show ?thesis by auto
qed

text \<open>The cached block is the current block of the view.\<close>

lemma loaded_nth:
  assumes "osd_inv ops D s" "osd_loaded D s" "i < spec_bs D"
  shows "inner (block_buffer s) ! i = osd_view D s (osd_pos s div spec_bs D * spec_bs D + i)"
proof -
  have "(osd_pos s div spec_bs D * spec_bs D + i) div spec_bs D = osd_pos s div spec_bs D"
    using assms(3) by simp
  then show ?thesis
    using assms by (auto simp: osd_inv_def osd_loaded_def osd_view_def Let_def)
qed

lemma loaded_slice:
  assumes inv: "osd_inv ops D s" and l: "osd_loaded D s"
  shows "drop (osd_pos s mod spec_bs D) (inner (block_buffer s))
    = map (osd_view D s) [osd_pos s ..< osd_pos s div spec_bs D * spec_bs D + spec_bs D]"
    (is "?l = ?r")
proof (rule nth_equalityI)
  let ?base = "osd_pos s div spec_bs D * spec_bs D"
  have eq: "osd_pos s = ?base + osd_pos s mod spec_bs D"
    by simp
  have "spec_bs D - osd_pos s mod spec_bs D = ?base + spec_bs D - osd_pos s"
    using eq by linarith
  then show len: "length ?l = length ?r"
    using l by (simp add: osd_loaded_def)
  fix i assume "i < length ?l"
  then have i: "osd_pos s mod spec_bs D + i < spec_bs D"
    using l by (simp add: osd_loaded_def)
  then have "?l ! i = osd_view D s (?base + (osd_pos s mod spec_bs D + i))"
    using l loaded_nth [OF inv l i] by (simp add: osd_loaded_def)
  also have "?base + (osd_pos s mod spec_bs D + i) = osd_pos s + i"
    using eq by simp
  finally show "?l ! i = ?r ! i"
    using \<open>i < length ?l\<close> len by simp
qed

section \<open>read, write and seek\<close>

lemma osd_pos_consume: "osd_pos s < 2 ^ 64 - 1 \<Longrightarrow> osd_pos (consume 1 s) = osd_pos s + 1"
  by (simp add: osd_pos_def consume_def unat_plus_small)

lemma consume_view [simp]: "osd_view D (consume n s) = osd_view D s"
  by (simp add: osd_view_def fun_eq_iff consume_def)

lemma consume_start [simp]: "partition_start (consume n s) = partition_start s"
  by (simp add: consume_def)

lemma consume_needs_flush [simp]: "needs_flush (consume n s) = needs_flush s"
  by (simp add: consume_def)

lemma osd_inv_idx [simp]: "osd_inv ops D (s\<lparr>partition_idx := p\<rparr>) = osd_inv ops D s"
  by (simp add: osd_inv_def)

lemma osd_inv_consume [simp]: "osd_inv ops D (consume n s) = osd_inv ops D s"
  by (simp add: consume_def)

lemma read_loop_correct:
  assumes "osd_inv ops D s" "i \<le> length out" "osd_pos s + (length out - i) \<le> spec_size D"
  shows "\<exists>s'. read_loop ops out i s = (Ok (of_nat (length out)),
      take i out @ map (osd_view D s) [osd_pos s ..< osd_pos s + (length out - i)], s')
    \<and> osd_inv ops D s' \<and> osd_view D s' = osd_view D s
    \<and> partition_start s' = partition_start s \<and> osd_pos s' = osd_pos s + (length out - i)"
  using assms
proof (induction "length out - i" arbitrary: i out s)
  case 0
  then show ?case by (subst read_loop.simps) simp
next
  case (Suc n)
  from Suc.hyps(2) have i: "i < length out" by simp
  with Suc.prems(3) have pos: "osd_pos s < spec_size D" by simp
  obtain s1 where f: "fill_buf ops s = (Ok (drop (osd_pos s mod spec_bs D) (inner (block_buffer s1))), s1)"
      and s1: "osd_inv ops D s1" "osd_same D s s1" "osd_loaded D s1"
    using fill_buf_correct [OF Suc.prems(1) pos] by blast
  note p1 = osd_same_pos [OF s1(2)]
  let ?x = "osd_view D s (osd_pos s)"
  have "osd_pos s < osd_pos s div spec_bs D * spec_bs D + spec_bs D"
    using in_block_iff [OF osd_inv_laws(1) [OF s1(1)], of _ "osd_pos s"] by blast
  then obtain rest where slice: "drop (osd_pos s mod spec_bs D) (inner (block_buffer s1)) = ?x # rest"
    using loaded_slice [OF s1(1,3)] s1(2) p1 by (simp add: upt_conv_Cons osd_same_def)
  have lim: "osd_pos s1 < 2 ^ 64 - 1"
    using pos p1 osd_inv_laws(3) [OF s1(1)] by simp
  note c = osd_pos_consume [OF lim]
  have "\<exists>s'. read_loop ops (out[i := ?x]) (Suc i) (consume 1 s1) = (Ok (of_nat (length (out[i := ?x]))),
      take (Suc i) (out[i := ?x]) @ map (osd_view D (consume 1 s1))
        [osd_pos (consume 1 s1) ..< osd_pos (consume 1 s1) + (length (out[i := ?x]) - Suc i)], s')
    \<and> osd_inv ops D s' \<and> osd_view D s' = osd_view D (consume 1 s1)
    \<and> partition_start s' = partition_start (consume 1 s1)
    \<and> osd_pos s' = osd_pos (consume 1 s1) + (length (out[i := ?x]) - Suc i)"
    by (rule Suc.hyps(1)) (use Suc.hyps(2) Suc.prems i s1(1) p1 c in auto)
  moreover have "[osd_pos s ..< osd_pos s + (length out - i)]
      = osd_pos s # [osd_pos s + 1 ..< osd_pos s + 1 + (length out - Suc i)]"
    using i by (simp add: upt_conv_Cons Suc_diff_Suc)
  ultimately show ?case
    using i f slice s1(2) p1 c
    by (subst read_loop.simps) (auto simp: osd_same_def take_Suc_conv_app_nth Suc_diff_Suc)
qed

lemma osd_read_correct:
  assumes "osd_inv ops D s" "osd_pos s + length out \<le> spec_size D"
  shows "\<exists>s'. osd_read ops out s = (Ok (of_nat (length out)),
      map (osd_view D s) [osd_pos s ..< osd_pos s + length out], s')
    \<and> osd_inv ops D s' \<and> osd_view D s' = osd_view D s
    \<and> partition_start s' = partition_start s \<and> osd_pos s' = osd_pos s + length out"
  using read_loop_correct [OF assms(1), of 0 out] assms(2) by (simp add: osd_read_def)

lemma store_byte_correct:
  assumes inv: "osd_inv ops D s" and l: "osd_loaded D s" and pos: "osd_pos s < spec_size D"
  shows "\<exists>s'. store_byte ops x s = (Ret (), s') \<and> osd_inv ops D s'
    \<and> partition_start s' = partition_start s \<and> partition_idx s' = partition_idx s
    \<and> osd_view D s' = (osd_view D s)(osd_pos s := x)"
proof -
  let ?buf = "inner (block_buffer s)" and ?i = "osd_pos s mod spec_bs D"
  let ?n = "osd_pos s div spec_bs D"
  obtain f where f: "offset_from_cur_block ops s = Ret f" "unat f = ?i"
    using cur_block_arith(3) [OF inv pos] by blast
  have len: "length ?buf = spec_bs D" and n: "unat (loaded_block_number s) = ?n"
    using l by (simp_all add: osd_loaded_def)
  have i: "?i < spec_bs D" using osd_inv_laws(1) [OF inv] by simp
  have old: "?buf ! ?i = osd_view D s (osd_pos s)"
    using loaded_nth [OF inv l i] by simp
  show ?thesis
  proof (cases "?buf ! ?i = x")
    case True
    have "store_byte ops x s = (Ret (), s)"
      using f len i True by (simp add: store_byte_def)
    with inv old True show ?thesis by (auto simp: fun_upd_idem)
  next
    case False
    let ?s = "s\<lparr>block_buffer := (block_buffer s)\<lparr>inner := ?buf[?i := x]\<rparr>, needs_flush := True\<rparr>"
    have "store_byte ops x s = (Ret (), ?s)"
      using f len i False by (simp add: store_byte_def)
    moreover have "osd_inv ops D ?s"
      using inv len n by (auto simp: osd_inv_def Let_def)
    moreover have "osd_view D ?s a = ((osd_view D s)(osd_pos s := x)) a" for a
    proof (cases "a div spec_bs D = ?n")
      case True
      then have a: "?n * spec_bs D + a mod spec_bs D = a"
        using div_mult_mod_eq [of a "spec_bs D"] by simp
      have same: "?i = a mod spec_bs D \<longleftrightarrow> a = osd_pos s"
        using a div_mult_mod_eq [of "osd_pos s" "spec_bs D"] by metis
      have "a mod spec_bs D < spec_bs D"
        by (rule mod_less_divisor [OF osd_inv_laws(1) [OF inv]])
      with loaded_nth [OF inv l this] True n len i a same show ?thesis
        by (simp add: osd_view_def [of D ?s] nth_list_update)
    next
      case False
      then have "a \<noteq> osd_pos s" by blast
      with False n show ?thesis by (simp add: osd_view_def)
    qed
    ultimately show ?thesis by (auto simp: fun_eq_iff)
  qed
qed

lemma write_loop_correct:
  assumes "osd_inv ops D s" "i \<le> length w" "osd_pos s + (length w - i) \<le> spec_size D"
  shows "\<exists>s'. write_loop ops w i s = (Ok (of_nat (length w)), s')
    \<and> osd_inv ops D s' \<and> osd_view D s' = overwrite (osd_view D s) (osd_pos s) (drop i w)
    \<and> partition_start s' = partition_start s \<and> osd_pos s' = osd_pos s + (length w - i)"
  using assms
proof (induction "length w - i" arbitrary: i s)
  case 0
  then show ?case by (subst write_loop.simps) simp
next
  case (Suc n)
  from Suc.hyps(2) have i: "i < length w" by simp
  with Suc.prems(3) have pos: "osd_pos s < spec_size D" by simp
  obtain s1 b where f: "fill_buf ops s = (Ok b, s1)"
      and s1: "osd_inv ops D s1" "osd_same D s s1" "osd_loaded D s1"
    using fill_buf_correct [OF Suc.prems(1) pos] by blast
  note p1 = osd_same_pos [OF s1(2)]
  have ne: "\<not> op_is_empty ops (block_buffer s1)"
    using s1(3) osd_inv_laws(1,6) [OF s1(1)] by (auto simp: osd_loaded_def buffer_law_def)
  obtain s2 where s2: "store_byte ops (w ! i) s1 = (Ret (), s2)" "osd_inv ops D s2"
      "partition_start s2 = partition_start s1" "partition_idx s2 = partition_idx s1"
      "osd_view D s2 = (osd_view D s1)(osd_pos s1 := w ! i)"
    using store_byte_correct [OF s1(1,3)] pos p1 by metis
  have p2: "osd_pos s2 = osd_pos s" using s2(3,4) p1 by (simp add: osd_pos_def)
  have c: "osd_pos (consume 1 s2) = osd_pos s + 1"
    using pos p2 osd_inv_laws(3) [OF s1(1)] by (subst osd_pos_consume) auto
  have "\<exists>s'. write_loop ops w (Suc i) (consume 1 s2) = (Ok (of_nat (length w)), s')
    \<and> osd_inv ops D s'
    \<and> osd_view D s' = overwrite (osd_view D (consume 1 s2)) (osd_pos (consume 1 s2)) (drop (Suc i) w)
    \<and> partition_start s' = partition_start (consume 1 s2)
    \<and> osd_pos s' = osd_pos (consume 1 s2) + (length w - Suc i)"
    by (rule Suc.hyps(1)) (use Suc.hyps(2) Suc.prems i s2(2) c in auto)
  moreover have "overwrite (osd_view D s2) (Suc (osd_pos s)) (drop (Suc i) w)
      = overwrite (osd_view D s) (osd_pos s) (drop i w)"
    using i s1(2) s2(5) p1 by (simp add: osd_same_def overwrite_Cons Cons_nth_drop_Suc)
  ultimately show ?case
    using i f ne s2(1,3) s1(2) c
    by (subst write_loop.simps) (auto simp: osd_same_def)
qed

lemma osd_write_correct:
  assumes "osd_inv ops D s" "osd_pos s + length w \<le> spec_size D"
  shows "\<exists>s'. osd_write ops w s = (Ok (of_nat (length w)), s')
    \<and> osd_inv ops D s' \<and> osd_view D s' = overwrite (osd_view D s) (osd_pos s) w
    \<and> partition_start s' = partition_start s \<and> osd_pos s' = osd_pos s + length w"
  using write_loop_correct [OF assms(1), of 0 w] assms(2) by (simp add: osd_write_def)

lemma osd_seek_Start_correct:
  assumes "osd_inv ops D s"
  shows "\<exists>s'. osd_seek (Start p) s = (Ok p, s') \<and> osd_inv ops D s' \<and> osd_view D s' = osd_view D s
    \<and> partition_start s' = partition_start s \<and> osd_pos s' = unat (partition_start s) + unat p"
  using assms by (simp add: osd_pos_def osd_view_def fun_eq_iff)

lemma offset_scsi_new_inv:
  assumes "disk_laws ops D" "spec_ok D d"
  shows "\<exists>s. offset_scsi_new ops d start = Ret s \<and> osd_inv ops D s
    \<and> osd_view D s = spec_content D d \<and> osd_pos s = unat start \<and> partition_start s = start"
proof -
  have "unat (ucast (op_block_size ops d) :: usize) < 2 ^ 63"
    using unat32_less [of "op_block_size ops d"] by simp
  with assms show ?thesis
    by (auto simp: offset_scsi_new_def with_fake_capacity_def osd_inv_def Let_def disk_laws_def
        osd_view_def fun_eq_iff osd_pos_def)
qed

section \<open>A clean cache stays clean until a byte changes\<close>

lemma evict_clean: "\<not> needs_flush s \<Longrightarrow> \<not> needs_flush (snd (evict ops s))"
  by (cases "cur_block_number ops s") (auto simp: evict_def flush_clean split: prod.splits)

lemma load_clean:
  assumes "\<not> needs_flush s"
  shows "\<not> needs_flush (snd (load ops i s))"
proof -
  obtain r d b where r: "op_read ops (device s) i (block_buffer s) = (r, d, b)"
    by (metis prod_cases3)
  show ?thesis
    using assms r
    by (cases r; cases "cur_block_number ops (s\<lparr>device := d, block_buffer := b\<rparr>)")
      (auto simp: load_def Let_def)
qed

lemma fill_buf_clean:
  assumes "\<not> needs_flush s" "fill_buf ops s = (Ok b, s')"
  shows "\<not> needs_flush s'"
proof -
  obtain s1 where s1: "evict ops s = (Ok (), s1)"
      "exec_op (cur_block_raw_idx ops s1) s1 (\<lambda>raw. try_op (load ops (ucast raw) s1) (\<lambda>_ s2.
         exec_op (offset_from_cur_block ops s2) s2 (\<lambda>off.
             if unat off \<le> length (inner (block_buffer s2))
             then (Ok (drop (unat off) (inner (block_buffer s2))), s2) else (Panic, s2)))) = (Ok b, s')"
    using assms(2) unfolding fill_buf_def try_op_Ok_iff by auto
  then obtain raw where "cur_block_raw_idx ops s1 = Ret raw"
    by (cases "cur_block_raw_idx ops s1") auto
  with s1(2) have "try_op (load ops (ucast raw) s1) (\<lambda>_ s2.
         exec_op (offset_from_cur_block ops s2) s2 (\<lambda>off.
             if unat off \<le> length (inner (block_buffer s2))
             then (Ok (drop (unat off) (inner (block_buffer s2))), s2) else (Panic, s2))) = (Ok b, s')"
    by simp
  then obtain s2 where s2: "load ops (ucast raw) s1 = (Ok (), s2)"
      "exec_op (offset_from_cur_block ops s2) s2 (\<lambda>off.
             if unat off \<le> length (inner (block_buffer s2))
             then (Ok (drop (unat off) (inner (block_buffer s2))), s2) else (Panic, s2))
       = (Ok b :: (io_error + bytes) exec, s')"
    unfolding try_op_Ok_iff by auto
  then have "s' = s2"
    by (cases "offset_from_cur_block ops s2") (auto split: if_splits)
  then show ?thesis
    using evict_clean [OF assms(1), of ops] load_clean [of s1 ops "ucast raw"] s1(1) s2(1) by simp
qed

lemma write_loop_same_clean:
  assumes "osd_inv ops D s" "\<not> needs_flush s" "osd_pos s + (length w - i) \<le> spec_size D"
    and "drop i w = map (osd_view D s) [osd_pos s ..< osd_pos s + (length w - i)]"
  shows "\<not> needs_flush (snd (write_loop ops w i s))"
  using assms
proof (induction "length w - i" arbitrary: i s)
  case 0
  then show ?case by (subst write_loop.simps) simp
next
  case (Suc n)
  from Suc.hyps(2) have i: "i < length w" by simp
  with Suc.prems(3) have pos: "osd_pos s < spec_size D" by simp
  obtain s1 b where f: "fill_buf ops s = (Ok b, s1)"
      and s1: "osd_inv ops D s1" "osd_same D s s1" "osd_loaded D s1"
    using fill_buf_correct [OF Suc.prems(1) pos] by blast
  have clean: "\<not> needs_flush s1" by (rule fill_buf_clean [OF Suc.prems(2) f])
  note p1 = osd_same_pos [OF s1(2)]
  have hd: "w ! i = osd_view D s (osd_pos s)" and tl: "drop (Suc i) w
      = map (osd_view D s) [osd_pos s + 1 ..< osd_pos s + 1 + (length w - Suc i)]"
    using Suc.prems(4) i Suc.hyps(2)
    by (simp_all add: upt_conv_Cons Suc_diff_Suc flip: Cons_nth_drop_Suc)
  obtain f where off: "offset_from_cur_block ops s1 = Ret f" "unat f = osd_pos s1 mod spec_bs D"
    using cur_block_arith(3) [OF s1(1)] pos p1 by auto
  have m: "osd_pos s1 mod spec_bs D < spec_bs D"
    by (rule mod_less_divisor [OF osd_inv_laws(1) [OF s1(1)]])
  have "inner (block_buffer s1) ! (osd_pos s1 mod spec_bs D) = w ! i"
    using loaded_nth [OF s1(1,3) m] hd s1(2) p1 by (simp add: osd_same_def)
  then have st: "store_byte ops (w ! i) s1 = (Ret (), s1)"
    using off m s1(3) by (simp add: store_byte_def osd_loaded_def)
  have c: "osd_pos (consume 1 s1) = osd_pos s + 1"
    using pos p1 osd_inv_laws(3) [OF s1(1)] by (subst osd_pos_consume) auto
  have "\<not> needs_flush (snd (write_loop ops w (Suc i) (consume 1 s1)))"
    by (rule Suc.hyps(1)) (use Suc.hyps(2) Suc.prems i s1(1,2) c tl clean in
      \<open>auto simp: osd_same_def\<close>)
  then show ?case
    using i f st clean by (subst write_loop.simps) auto
qed

section \<open>The cache is a byte stream\<close>

interpretation osd: byte_stream "\<lambda>p. osd_seek (Start p)" "osd_read ops" "osd_write ops" "flush ops"
    "osd_inv ops D" "osd_view D" "\<lambda>s. unat (partition_start s)" osd_pos "spec_size D"
  for ops :: "'dev scsi_ops" and D :: "'dev disk_spec"
proof
  fix s :: "'dev offset_scsi" and p :: u64 and out w :: bytes
  assume inv: "osd_inv ops D s"
  show "\<exists>s'. osd_seek (Start p) s = (Ok p, s') \<and> osd_inv ops D s' \<and> osd_view D s' = osd_view D s
      \<and> unat (partition_start s') = unat (partition_start s)
      \<and> osd_pos s' = unat (partition_start s) + unat p"
    using osd_seek_Start_correct [OF inv, of p] by auto
  show "\<exists>s'. flush ops s = (Ok (), s') \<and> osd_inv ops D s' \<and> osd_view D s' = osd_view D s
      \<and> unat (partition_start s') = unat (partition_start s) \<and> osd_pos s' = osd_pos s"
    using flush_correct [OF inv] by (auto simp: osd_same_def osd_pos_def)
  show "osd_pos s + length out \<le> spec_size D \<Longrightarrow>
    \<exists>s'. osd_read ops out s = (Ok (of_nat (length out)),
        map (osd_view D s) [osd_pos s ..< osd_pos s + length out], s')
      \<and> osd_inv ops D s' \<and> osd_view D s' = osd_view D s
      \<and> unat (partition_start s') = unat (partition_start s) \<and> osd_pos s' = osd_pos s + length out"
    using osd_read_correct [OF inv, of out] by auto
  show "osd_pos s + length w \<le> spec_size D \<Longrightarrow>
    \<exists>s'. osd_write ops w s = (Ok (of_nat (length w)), s')
      \<and> osd_inv ops D s' \<and> osd_view D s' = overwrite (osd_view D s) (osd_pos s) w
      \<and> unat (partition_start s') = unat (partition_start s) \<and> osd_pos s' = osd_pos s + length w"
    using osd_write_correct [OF inv, of w] by auto
qed

end
