(* ===== verification/RamDisk.thy ===== *)
theory RamDisk
  imports BufScsiRefine
begin

text \<open>
  A concrete block device, sixteen bytes in blocks of four, that satisfies \<open>disk_laws\<close>: the
  instance at which the hypotheses of the device properties are discharged. Its writes drain
  the buffer, as the USB transfer does.
\<close>

definition ram_ops :: "bytes scsi_ops" where
  "ram_ops = \<lparr>
     op_block_size = (\<lambda>_. 4),
     op_read = (\<lambda>d raw v. (Inr 4, d, v\<lparr>inner := take 4 (drop (unat raw) d)\<rparr>)),
     op_write = (\<lambda>d raw v. (Inr 4, take (unat raw) d @ inner v @ drop (unat raw + 4) d, v\<lparr>inner := []\<rparr>)),
     op_clear = (\<lambda>v. (Inr (), v\<lparr>inner := []\<rparr>)),
     op_is_empty = (\<lambda>v. inner v = []),
     op_is_connected = (\<lambda>_. True)\<rparr>"

definition ram_spec :: "bytes disk_spec" where
  "ram_spec = \<lparr>spec_bs = 4, spec_size = 16, spec_content = (\<lambda>d a. if a < 16 then d ! a else 0),
     spec_ok = (\<lambda>d. length d = 16)\<rparr>"

lemma ram_spec_simps [simp]:
  "spec_bs ram_spec = 4" "spec_size ram_spec = 16"
  "spec_content ram_spec d a = (if a < 16 then d ! a else 0)"
  "spec_ok ram_spec d = (length d = 16)"
  by (simp_all add: ram_spec_def)

lemma ram_read_law: "read_law ram_ops ram_spec"
  unfolding read_law_def ram_ops_def by (auto intro!: nth_equalityI)

lemma ram_write_law: "write_law ram_ops ram_spec"
  unfolding write_law_def ram_ops_def
  by (auto simp: fun_eq_iff nth_append nth_take nth_drop min_def)

lemma ram_disk_laws: "disk_laws ram_ops ram_spec"
  using ram_read_law ram_write_law
  by (auto simp: disk_laws_def buffer_law_def) (simp_all add: ram_ops_def)

text \<open>An opened partition on it, starting at byte 4, with a clean and empty cache.\<close>

definition ram_osd :: "bytes offset_scsi" where
  "ram_osd = \<lparr>device = replicate 16 7, block_buffer = \<lparr>inner = [], fake_size = 4\<rparr>,
     partition_start = 4, partition_idx = 0, loaded_block_number = 0, needs_flush = False\<rparr>"

lemma ram_osd_inv: "osd_inv ram_ops ram_spec ram_osd"
  by (simp add: osd_inv_def ram_osd_def ram_disk_laws)

lemma ram_osd_pos [simp]: "osd_pos ram_osd = 4" "partition_start ram_osd = 4"
    "\<not> needs_flush ram_osd"
  by (simp_all add: osd_pos_def ram_osd_def)

lemma ram_osd_view: "osd_view ram_spec ram_osd = (\<lambda>a. if a < 16 then 7 else 0)"
  by (auto simp: osd_view_def ram_osd_def)

end
