(* ===== verification/BufScsiThms.thy ===== *)
theory BufScsiThms
  imports RamDisk
begin

text \<open>
  The properties of \<open>OffsetScsiDevice\<close>: what a caller sees of the partition through
  \<open>seek\<close>, \<open>read\<close>, \<open>write\<close> and \<open>flush\<close>, what the 32-bit block index does past 4 GiB, and
  what happens when the device fails.
\<close>

section \<open>Against a working device\<close>

text \<open>
  C6: On a fresh partition that starts at byte \<open>start\<close> of a working disk, writing \<open>w\<close> at
  position \<open>p\<close> and flushing reports success and the full length, and leaves on the device
  exactly the old bytes with \<open>w\<close> at \<open>start + p\<close>, for every block alignment of \<open>p\<close> and \<open>w\<close>.
\<close>

theorem write_flush_durable:
  assumes "disk_laws ops D" "spec_ok D d"
    and "unat start + unat p + length w \<le> spec_size D"
  shows "\<exists>s s1 s2 s3. offset_scsi_new ops d start = Ret s
    \<and> osd_seek (Start p) s = (Ok p, s1)
    \<and> osd_write ops w s1 = (Ok (of_nat (length w)), s2)
    \<and> flush ops s2 = (Ok (), s3)
    \<and> spec_content D (device s3) = overwrite (spec_content D d) (unat start + unat p) w"
proof -
  obtain s where s: "offset_scsi_new ops d start = Ret s" "osd_inv ops D s"
      "osd_view D s = spec_content D d" "partition_start s = start"
    using offset_scsi_new_inv [OF assms(1,2)] by blast
  obtain s1 s2 where s2: "osd_seek (Start p) s = (Ok p, s1)"
      "osd_write ops w s1 = (Ok (of_nat (length w)), s2)" "osd_inv ops D s2"
      "osd_view D s2 = overwrite (osd_view D s) (unat start + unat p) w"
    using osd.write_at [OF s(2), of p w] assms(3) unfolding s(4) by metis
  obtain s3 where "flush ops s2 = (Ok (), s3)" "spec_content D (device s3) = osd_view D s2"
    using flush_correct [OF s2(3)] by blast
  with s s2 show ?thesis by auto
qed

theorem write_flush_durable_witness:
  "\<exists>s s1 s2 s3. offset_scsi_new ram_ops (replicate 16 0) 4 = Ret s
    \<and> osd_seek (Start 3) s = (Ok 3, s1)
    \<and> osd_write ram_ops [1, 2, 3] s1 = (Ok 3, s2)
    \<and> flush ram_ops s2 = (Ok (), s3)
    \<and> spec_content ram_spec (device s3) = overwrite (spec_content ram_spec (replicate 16 0)) 7 [1, 2, 3]"
  using write_flush_durable [of ram_ops ram_spec "replicate 16 0" 4 3 "[1, 2, 3]"] ram_disk_laws
  by simp

text \<open>
  C7: Reads see earlier writes through the cache, flushed or not: after a write at \<open>p\<close>, a read
  of any range of the partition returns the bytes written where the ranges overlap and the
  earlier bytes elsewhere, in full, and moves the position to the end of the range read.
\<close>

theorem read_after_write:
  assumes "osd_inv ops D s"
    and "unat (partition_start s) + unat p + length w \<le> spec_size D"
    and "unat (partition_start s) + unat q + length out \<le> spec_size D"
  shows "\<exists>s1 s2 s3 s4. osd_seek (Start p) s = (Ok p, s1)
    \<and> osd_write ops w s1 = (Ok (of_nat (length w)), s2)
    \<and> osd_seek (Start q) s2 = (Ok q, s3)
    \<and> osd_read ops out s3 = (Ok (of_nat (length out)),
        map (overwrite (osd_view D s) (unat (partition_start s) + unat p) w)
          [unat (partition_start s) + unat q ..< unat (partition_start s) + unat q + length out], s4)
    \<and> osd_pos s4 = unat (partition_start s) + unat q + length out"
proof -
  obtain s1 s2 where s2: "osd_seek (Start p) s = (Ok p, s1)"
      "osd_write ops w s1 = (Ok (of_nat (length w)), s2)" "osd_inv ops D s2"
      "osd_view D s2 = overwrite (osd_view D s) (unat (partition_start s) + unat p) w"
      "unat (partition_start s2) = unat (partition_start s)"
    using osd.write_at [OF assms(1,2)] by metis
  obtain s3 where s3: "osd_seek (Start q) s2 = (Ok q, s3)" "osd_inv ops D s3"
      "osd_view D s3 = osd_view D s2" "osd_pos s3 = unat (partition_start s) + unat q"
    using osd_seek_Start_correct [OF s2(3), of q] s2(5) by auto
  show ?thesis
    using osd_read_correct [OF s3(2), of out] s2 s3 assms(3) by auto
qed

theorem read_after_write_witness:
  "\<exists>s1 s2 s3 s4. osd_seek (Start 2) ram_osd = (Ok 2, s1)
    \<and> osd_write ram_ops [9, 8] s1 = (Ok 2, s2)
    \<and> osd_seek (Start 1) s2 = (Ok 1, s3)
    \<and> osd_read ram_ops [0, 0, 0, 0] s3 = (Ok 4, [7, 9, 8, 7], s4)"
proof -
  have "map (overwrite (osd_view ram_spec ram_osd) 6 [9, 8]) [5..<9] = [7, 9, 8, 7]"
    by (simp add: ram_osd_view overwrite_def upt_rec_numeral)
  then show ?thesis
    using read_after_write [OF ram_osd_inv, of 2 "[9, 8]" 1 "[0, 0, 0, 0]"] by auto
qed

text \<open>
  \<open>fill_buf\<close> on a working device returns the non-empty rest of the current block of the
  partition, without moving the position and without changing what later reads see.
\<close>

theorem fill_buf_rest_of_block:
  assumes "osd_inv ops D s" "osd_pos s < spec_size D"
  shows "\<exists>s'. fill_buf ops s = (Ok (map (osd_view D s)
        [osd_pos s ..< (osd_pos s div spec_bs D + 1) * spec_bs D]), s')
    \<and> osd_pos s < (osd_pos s div spec_bs D + 1) * spec_bs D
    \<and> osd_inv ops D s' \<and> osd_same D s s'"
proof -
  obtain s' where s': "fill_buf ops s = (Ok (drop (osd_pos s mod spec_bs D) (inner (block_buffer s'))), s')"
      "osd_inv ops D s'" "osd_same D s s'" "osd_loaded D s'"
    using fill_buf_correct [OF assms] by blast
  have "osd_pos s < (osd_pos s div spec_bs D + 1) * spec_bs D"
    using in_block_iff [OF osd_inv_laws(1) [OF assms(1)], of "osd_pos s div spec_bs D" "osd_pos s"]
    by simp
  moreover have "drop (osd_pos s mod spec_bs D) (inner (block_buffer s'))
      = map (osd_view D s) [osd_pos s ..< (osd_pos s div spec_bs D + 1) * spec_bs D]"
    using loaded_slice [OF s'(2,4)] s'(3) osd_same_pos [OF s'(3)]
    by (simp add: osd_same_def algebra_simps)
  ultimately show ?thesis using s' by auto
qed

theorem fill_buf_rest_of_block_witness:
  "\<exists>s'. fill_buf ram_ops ram_osd = (Ok [7, 7, 7, 7], s') \<and> osd_same ram_spec ram_osd s'"
  using fill_buf_rest_of_block [OF ram_osd_inv]
  by (auto simp: ram_osd_view upt_rec_numeral)

text \<open>
  Dropping the reader loses nothing: on a working device, the bytes on the device after
  the implicit flush are the ones the cache presented.
\<close>

theorem drop_writes_back:
  assumes "osd_inv ops D s"
  shows "spec_content D (device (drop_osd ops s)) = osd_view D s"
  using flush_correct [OF assms] by (auto simp: drop_osd_def)

theorem drop_writes_back_witness:
  "spec_content ram_spec (device (drop_osd ram_ops ram_osd)) = osd_view ram_spec ram_osd"
  by (rule drop_writes_back [OF ram_osd_inv])

section \<open>Refinement\<close>

text \<open>One operation of a sequence on the device.\<close>

definition osd_do :: "'dev scsi_ops \<Rightarrow> stream_op \<Rightarrow> 'dev offset_scsi \<Rightarrow> (io_error + stream_out) exec \<times> 'dev offset_scsi" where
  "osd_do ops = stream_do (\<lambda>p. osd_seek (Start p)) (osd_read ops) (osd_write ops) (flush ops)"

text \<open>
  C1: The cached device refines a flat array of bytes: for every sequence of seeks (to an offset
  from the start), reads, writes and flushes on a fresh partition whose transfers stay on the disk, every operation succeeds
  with the result the same sequence gives on the array (the disk contents from the start of the
  partition), and dropping the device leaves exactly the final array on the disk.
\<close>

theorem cache_refines_array:
  assumes "disk_laws ops D" "spec_ok D d"
    and "fits (spec_size D) (unat start) xs (unat start)"
    and "array_run (unat start) xs (spec_content D d, unat start) = (rs, m, q)"
  shows "\<exists>s s'. offset_scsi_new ops d start = Ret s
    \<and> stream_run (osd_do ops) xs s = (map Ok rs, s')
    \<and> osd_view D s' = m \<and> osd_pos s' = q
    \<and> spec_content D (device (drop_osd ops s')) = m"
proof -
  obtain s where s: "offset_scsi_new ops d start = Ret s" "osd_inv ops D s"
      "osd_view D s = spec_content D d" "osd_pos s = unat start" "partition_start s = start"
    using offset_scsi_new_inv [OF assms(1,2)] by blast
  have "fits (spec_size D) (unat (partition_start s)) xs (osd_pos s)" using assms(3) s by simp
  from osd.run_refines [OF s(2) this] obtain s' where
    r: "stream_run (osd_do ops) xs s = (map Ok rs, s')" "osd_inv ops D s'" "osd_view D s' = m" "osd_pos s' = q"
    using assms(4) s by (auto simp: osd_do_def)
  with s(1) flush_correct [OF r(2)] show ?thesis by (auto simp: drop_osd_def)
qed

theorem cache_refines_array_witness:
  "\<exists>s s'. offset_scsi_new ram_ops (replicate 16 7) 4 = Ret s
    \<and> stream_run (osd_do ram_ops) [SeekTo 1, WriteBytes [1, 2, 3, 4], SeekTo 2, ReadBuf [0, 0, 0, 0], Sync] s
      = ([Ok (At 1), Ok (Wrote 4), Ok (At 2), Ok (Got 4 [2, 3, 4, 7]), Ok Synced], s')"
proof -
  let ?xs = "[SeekTo 1, WriteBytes [1, 2, 3, 4], SeekTo 2, ReadBuf [0, 0, 0, 0], Sync]"
  obtain rs m q where a: "array_run (unat (4 :: usize)) ?xs (spec_content ram_spec (replicate 16 7), unat (4 :: usize)) = (rs, m, q)"
    by (metis prod_cases3)
  then have rs: "rs = [At 1, Wrote 4, At 2, Got 4 [2, 3, 4, 7], Synced]"
    by (auto simp: overwrite_def upt_rec)
  have "\<exists>s s'. offset_scsi_new ram_ops (replicate 16 7) 4 = Ret s
      \<and> stream_run (osd_do ram_ops) ?xs s = (map Ok rs, s')"
    using cache_refines_array [OF ram_disk_laws _ _ a] by auto
  then show ?thesis by (simp add: rs)
qed

section \<open>Avoided writes, seeks, failures\<close>

text \<open>
  Writing bytes that are already there leaves a clean cache clean, so the write and every
  later flush or eviction of it sends nothing to the device.
\<close>

theorem rewrite_same_bytes_stays_clean:
  assumes "osd_inv ops D s" "\<not> needs_flush s" "osd_pos s + length w \<le> spec_size D"
    and "w = map (osd_view D s) [osd_pos s ..< osd_pos s + length w]"
  shows "\<exists>s'. osd_write ops w s = (Ok (of_nat (length w)), s') \<and> \<not> needs_flush s'
    \<and> flush ops s' = (Ok (), s')"
proof -
  obtain s' where "osd_write ops w s = (Ok (of_nat (length w)), s')"
    using osd_write_correct [OF assms(1,3)] by blast
  moreover have "\<not> needs_flush (snd (osd_write ops w s))"
    unfolding osd_write_def using assms by (intro write_loop_same_clean [OF assms(1,2)]) simp_all
  ultimately show ?thesis by (simp add: flush_clean)
qed

theorem rewrite_same_bytes_stays_clean_witness:
  "\<exists>s'. osd_write ram_ops [7, 7, 7, 7, 7] ram_osd = (Ok 5, s') \<and> \<not> needs_flush s'
    \<and> flush ram_ops s' = (Ok (), s')"
proof -
  have "[7, 7, 7, 7, 7] = map (osd_view ram_spec ram_osd) [osd_pos ram_osd ..< osd_pos ram_osd + length [7 :: u8, 7, 7, 7, 7]]"
    by (simp add: ram_osd_view upt_rec_numeral)
  then show ?thesis
    using rewrite_same_bytes_stays_clean [OF ram_osd_inv, of "[7, 7, 7, 7, 7]"]
    by simp
qed

text \<open>
  A relative seek adds the signed offset to the position modulo \<open>2 ^ 64\<close> on both of its
  branches, the most negative offset included, and returns the new position.
\<close>

theorem seek_current_adds:
  "osd_seek (Current off) s = (Ok (partition_idx s + off), s\<lparr>partition_idx := partition_idx s + off\<rparr>)"
  by (simp add: Let_def i64_abs_def)

text \<open>
  C26: When the device rejects the write of a dirty block after draining the buffer into the
  transfer, \<open>flush\<close> reports \<open>Other\<close> and leaves the block marked dirty with an empty buffer: the
  bytes are gone, and the next \<open>flush\<close> sends the empty buffer to the same block; if the device
  accepts that, the flush reports success and the block counts as clean.
\<close>

theorem failed_flush_loses_drained:
  assumes "needs_flush s"
    and "op_write ops (device s) (ucast (buffered_block_raw_idx ops s)) (block_buffer s) = (Inl e, d, v)"
    and "inner v = []" "op_block_size ops d = op_block_size ops (device s)"
  shows "\<exists>s'. flush ops s = (Err (io_error_from Other), s') \<and> needs_flush s'
    \<and> inner (block_buffer s') = []
    \<and> (\<forall>n d' v'. op_write ops d (ucast (buffered_block_raw_idx ops s)) v = (Inr n, d', v')
         \<longrightarrow> flush ops s' = (Ok (), s\<lparr>device := d', block_buffer := v', needs_flush := False\<rparr>))"
proof -
  let ?s = "s\<lparr>device := d, block_buffer := v\<rparr>"
  have "buffered_block_raw_idx ops ?s = buffered_block_raw_idx ops s"
    using assms(4) by (simp add: buffered_block_raw_idx_def block_size_usize_def)
  then show ?thesis
    using assms by (intro exI [of _ ?s]) (simp add: flush_def)
qed

text \<open>A device whose first write fails half-way, and the writes after it succeed.\<close>

definition flaky_ops :: "bytes scsi_ops" where
  "flaky_ops = ram_ops\<lparr>op_write := \<lambda>d raw v.
     (if d = [] then Inr 0 else Inl (UsbTransferError DirOut), [], v\<lparr>inner := []\<rparr>)\<rparr>"

definition flaky_osd :: "bytes offset_scsi" where
  "flaky_osd = ram_osd\<lparr>block_buffer := \<lparr>inner = [1, 2, 3, 4], fake_size = 4\<rparr>, needs_flush := True\<rparr>"

theorem failed_flush_loses_drained_witness:
  "\<exists>s'. flush flaky_ops flaky_osd = (Err (io_error_from Other), s')
    \<and> flush flaky_ops s' = (Ok (), flaky_osd\<lparr>device := [],
        block_buffer := \<lparr>inner = [], fake_size = 4\<rparr>, needs_flush := False\<rparr>)"
  using failed_flush_loses_drained [of flaky_osd flaky_ops "UsbTransferError DirOut" "[]"
      "\<lparr>inner = [], fake_size = 4\<rparr>"]
  by (auto simp: flaky_osd_def flaky_ops_def ram_osd_def ram_ops_def)

section \<open>Positions past 4 GiB\<close>

lemma ucast_shift: "(ucast (r + 2 ^ 32 :: usize) :: u32) = ucast r"
  using ucast_add_multiple [of r 1] by simp

text \<open>\<open>ops\<close> has blocks of \<open>bs\<close> bytes, and \<open>bs\<close> divides 4 GiB.\<close>

definition aligned_blocks :: "'dev scsi_ops \<Rightarrow> nat \<Rightarrow> bool" where
  "aligned_blocks ops bs \<longleftrightarrow> 0 < bs \<and> bs dvd 2 ^ 32 \<and> (\<forall>d. unat (op_block_size ops d) = bs)"

lemma index_shift:
  assumes "aligned_blocks ops bs" "unat (raw_idx s) + 2 ^ 32 < 2 ^ 64"
    and "partition_start t = partition_start s" "partition_idx t = partition_idx s + 2 ^ 32"
  shows "\<exists>r. cur_block_raw_idx ops s = Ret r \<and> cur_block_raw_idx ops t = Ret (r + 2 ^ 32)"
    "offset_from_cur_block ops t = offset_from_cur_block ops s"
proof -
  have b: "block_size_usize ops s \<noteq> 0" "block_size_usize ops t = block_size_usize ops s"
    using assms(1) unfolding aligned_blocks_def block_size_usize_def
    by (metis less_irrefl unat_0 unat_ucast_up, metis word_unat_eq_iff)
  have raw: "raw_idx t = raw_idx s + 2 ^ 32"
    using assms(3,4) by (simp add: raw_idx_def)
  have "unat (raw_idx t) = unat (raw_idx s) + 2 ^ 32"
    unfolding raw using assms(2) by (subst unat_plus_small) simp_all
  moreover have "(unat (raw_idx s) + 2 ^ 32) mod bs = unat (raw_idx s) mod bs"
    using assms(1) by (metis aligned_blocks_def dvd_imp_mod_0 mod_add_right_eq add.right_neutral)
  ultimately have m: "raw_idx t mod block_size_usize ops t = raw_idx s mod block_size_usize ops s"
    using assms(1) unfolding b(2)
    by (simp add: word_unat_eq_iff unat_mod aligned_blocks_def block_size_usize_def)
  have s: "cur_block_raw_idx ops s = Ret (raw_idx s - raw_idx s mod block_size_usize ops s)"
    using b by (simp add: cur_block_raw_idx_def)
  have t: "cur_block_raw_idx ops t = Ret (raw_idx s - raw_idx s mod block_size_usize ops s + 2 ^ 32)"
    using b m raw by (simp add: cur_block_raw_idx_def algebra_simps)
  show "\<exists>r. cur_block_raw_idx ops s = Ret r \<and> cur_block_raw_idx ops t = Ret (r + 2 ^ 32)"
    using s t by blast
  show "offset_from_cur_block ops t = offset_from_cur_block ops s"
    using raw by (simp add: offset_from_cur_block_def s t)
qed

text \<open>Block numbers are shifted by the blocks of 4 GiB.\<close>

lemma number_shift:
  assumes "aligned_blocks ops bs" "unat (raw_idx s) + 2 ^ 32 < 2 ^ 64"
    and "partition_start t = partition_start s" "partition_idx t = partition_idx s + 2 ^ 32"
  shows "\<exists>n. cur_block_number ops s = Ret n \<and> cur_block_number ops t = Ret (n + of_nat (2 ^ 32 div bs))"
proof -
  have bs: "unat (block_size_usize ops u) = bs" for u
    using assms(1) by (simp add: aligned_blocks_def block_size_usize_def)
  have b: "block_size_usize ops s \<noteq> 0" "block_size_usize ops t = block_size_usize ops s"
    using assms(1) bs by (auto simp: aligned_blocks_def word_unat_eq_iff)
  obtain r where r: "cur_block_raw_idx ops s = Ret r" "cur_block_raw_idx ops t = Ret (r + 2 ^ 32)"
    using index_shift(1) [OF assms] by blast
  have "r = raw_idx s - raw_idx s mod block_size_usize ops s"
    using r(1) b by (simp add: cur_block_raw_idx_def)
  moreover have "raw_idx s mod block_size_usize ops s \<le> raw_idx s"
    by (simp add: word_le_nat_alt unat_mod)
  ultimately have "unat r \<le> unat (raw_idx s)" by (simp add: unat_sub)
  then have u: "unat (r + 2 ^ 32) = unat r + 2 ^ 32"
    using assms(2) by (subst unat_plus_small) simp_all
  have "2 ^ 32 div bs < (2 :: nat) ^ 64" by (rule le_less_trans [OF div_le_dividend]) simp
  then have n: "unat (of_nat (2 ^ 32 div bs) :: usize) = 2 ^ 32 div bs"
    by (simp add: unsigned_of_nat take_bit_nat_eq_self_iff)
  have q: "unat ((r + 2 ^ 32) div block_size_usize ops s) = unat (r div block_size_usize ops s) + 2 ^ 32 div bs"
    unfolding unat_div u bs
    by (rule div_plus_div_distrib_dvd_right) (use assms(1) in \<open>simp add: aligned_blocks_def\<close>)
  also have "\<dots> = unat (r div block_size_usize ops s + of_nat (2 ^ 32 div bs))"
    using unat_plus_small [of "r div block_size_usize ops s" "of_nat (2 ^ 32 div bs)"] n
      unat64_less [of "(r + 2 ^ 32) div block_size_usize ops s"] q by simp
  finally have "(r + 2 ^ 32) div block_size_usize ops s = r div block_size_usize ops s + of_nat (2 ^ 32 div bs)"
    by (simp add: word_unat_eq_iff)
  with r b show ?thesis by (simp add: cur_block_number_def)
qed

text \<open>The same clean cache 4 GiB further on.\<close>

definition shifted :: "nat \<Rightarrow> 'dev offset_scsi \<Rightarrow> 'dev offset_scsi \<Rightarrow> bool" where
  "shifted bs s t \<longleftrightarrow> device t = device s \<and> block_buffer t = block_buffer s
     \<and> partition_start t = partition_start s \<and> partition_idx t = partition_idx s + 2 ^ 32
     \<and> \<not> needs_flush s \<and> \<not> needs_flush t
     \<and> (inner (block_buffer s) = [] \<or> loaded_block_number t = loaded_block_number s + of_nat (2 ^ 32 div bs))"

lemma evict_shift:
  assumes "buffer_law ops" "aligned_blocks ops bs" "shifted bs s t" "unat (raw_idx s) + 2 ^ 32 < 2 ^ 64"
  shows "\<exists>s1 t1. evict ops s = (Ok (), s1) \<and> evict ops t = (Ok (), t1) \<and> shifted bs s1 t1 \<and> raw_idx s1 = raw_idx s"
proof -
  obtain n where n: "cur_block_number ops s = Ret n" "cur_block_number ops t = Ret (n + of_nat (2 ^ 32 div bs))"
    using number_shift [OF assms(2,4), of t] assms(3) by (auto simp: shifted_def)
  obtain v where v: "op_clear ops (block_buffer s) = (Inr (), v)" "inner v = []"
    "fake_size v = fake_size (block_buffer s)"
    using assms(1) unfolding buffer_law_def by blast
  have flush: "flush ops s = (Ok (), s)" "flush ops t = (Ok (), t)"
    using assms(3) flush_clean by (auto simp: shifted_def)
  show ?thesis
  proof (cases "inner (block_buffer s) = []")
    case True
    then have "v = block_buffer s" using v by simp
    then have "evict ops s = (Ok (), s)" "evict ops t = (Ok (), t)"
      using n v flush assms(3) by (auto simp: evict_def shifted_def)
    then show ?thesis using assms(3) by blast
  next
    case False
    then have "loaded_block_number t = loaded_block_number s + of_nat (2 ^ 32 div bs)"
      using assms(3) by (simp add: shifted_def)
    then show ?thesis
      using n v flush assms(3) by (auto simp: evict_def shifted_def raw_idx_def)
  qed
qed

lemma fill_buf_shift:
  assumes "buffer_law ops" "aligned_blocks ops bs" "shifted bs s t" "unat (raw_idx s) + 2 ^ 32 < 2 ^ 64"
  shows "fst (fill_buf ops t) = fst (fill_buf ops s)
    \<and> (\<forall>b s2. fill_buf ops s = (Ok b, s2) \<longrightarrow> (\<exists>t2. fill_buf ops t = (Ok b, t2) \<and> shifted bs s2 t2
        \<and> raw_idx s2 = raw_idx s))"
proof -
  obtain s1 t1 where e: "evict ops s = (Ok (), s1)" "evict ops t = (Ok (), t1)" "shifted bs s1 t1"
    "raw_idx s1 = raw_idx s"
    using evict_shift [OF assms] by blast
  note f = e(3) [unfolded shifted_def]
  have room: "unat (raw_idx s1) + 2 ^ 32 < 2 ^ 64" using e(4) assms(4) by simp
  obtain r r' where r: "cur_block_raw_idx ops s1 = Ret r" "cur_block_raw_idx ops t1 = Ret r'"
    and u: "(ucast r' :: u32) = ucast r"
    using index_shift(1) [OF assms(2) room] f ucast_shift by blast
  have slice: "fst (slice t2) = fst (slice s2) \<and> (\<forall>b s3. slice s2 = (Ok b, s3) \<longrightarrow>
      (\<exists>t3. slice t2 = (Ok b, t3) \<and> shifted bs s3 t3 \<and> raw_idx s3 = raw_idx s))"
    if "shifted bs s2 t2" "raw_idx s2 = raw_idx s"
      and "slice = (\<lambda>u. exec_op (offset_from_cur_block ops u) u (\<lambda>off.
             if unat off \<le> length (inner (block_buffer u))
             then (Ok (drop (unat off) (inner (block_buffer u))), u) else (Panic, u)))" for s2 t2 slice
  proof -
    have "offset_from_cur_block ops t2 = offset_from_cur_block ops s2"
      using that(1,2) assms(4) by (intro index_shift(2) [OF assms(2)]) (auto simp: shifted_def)
    then show ?thesis
      using that by (cases "offset_from_cur_block ops s2") (auto simp: shifted_def)
  qed
  show ?thesis
  proof (cases "op_is_empty ops (block_buffer s1)")
    case False
    then have "load ops (ucast r) s1 = (Ok (), s1)" "load ops (ucast r') t1 = (Ok (), t1)"
      using f by (simp_all add: load_def)
    with slice [OF e(3,4) refl] show ?thesis by (simp add: fill_buf_def e r)
  next
    case True
    obtain x d v where rd: "op_read ops (device s1) (ucast r) (block_buffer s1) = (x, d, v)"
      by (metis prod_cases3)
    let ?s2 = "s1\<lparr>device := d, block_buffer := v\<rparr>" and ?t2 = "t1\<lparr>device := d, block_buffer := v\<rparr>"
    have "unat (raw_idx ?s2) + 2 ^ 32 < 2 ^ 64" using room by (simp add: raw_idx_def)
    from number_shift [OF assms(2) this, of ?t2] f
    obtain n n' where n: "cur_block_number ops ?s2 = Ret n" "cur_block_number ops ?t2 = Ret n'"
      and n': "n' = n + of_nat (2 ^ 32 div bs)"
      by auto
    show ?thesis
    proof (cases x)
      case (Inl err)
      then show ?thesis using True f rd by (simp add: fill_buf_def e r u load_def)
    next
      case (Inr k)
      have sh: "shifted bs (?s2\<lparr>loaded_block_number := n\<rparr>)
          (?t2\<lparr>loaded_block_number := n'\<rparr>)"
        "raw_idx (?s2\<lparr>loaded_block_number := n\<rparr>) = raw_idx s"
        using f e(4) n' by (auto simp: shifted_def raw_idx_def)
      from slice [OF sh refl] show ?thesis
        using True f rd Inr n by (simp add: fill_buf_def e r u load_def)
    qed
  qed
qed

lemma read_loop_shift:
  assumes "buffer_law ops" "aligned_blocks ops bs" "shifted bs s t"
    and "unat (raw_idx s) + 2 ^ 32 + length out < 2 ^ 64 + i" "i \<le> length out"
  shows "fst (read_loop ops out i t) = fst (read_loop ops out i s)
    \<and> fst (snd (read_loop ops out i t)) = fst (snd (read_loop ops out i s))"
  using assms
proof (induction ops out i s arbitrary: t rule: read_loop.induct)
  case (1 ops out i s)
  show ?case
  proof (cases "i < length out")
    case True
    then have room: "unat (raw_idx s) + 2 ^ 32 < 2 ^ 64" using 1(5) by linarith
    note fb = fill_buf_shift [OF 1(2-4) room]
    obtain q s1 where s1: "fill_buf ops s = (q, s1)" by fastforce
    obtain t1 where t1: "fill_buf ops t = (q, t1)" using fb s1 by (metis fst_conv prod.collapse)
    consider (Panic) "q = Panic" | (Err) x where "q = Err x" | (eof) "q = Ok []" | (byte) b bs' where "q = Ok (b # bs')"
      by (metis exec.exhaust obj_sumE list.exhaust)
    then show ?thesis
    proof cases
      case (byte b bs')
      have sh: "shifted bs s1 t1" "raw_idx s1 = raw_idx s"
        using fb s1 t1 byte by auto
      have step: "shifted bs (consume 1 s1) (consume 1 t1)"
        using sh(1) by (simp add: shifted_def consume_def)
      have "unat (raw_idx s + 1) = unat (raw_idx s) + 1"
        using room by (subst unat_plus_small) simp_all
      moreover have "raw_idx (consume 1 s1) = raw_idx s1 + 1" by (simp add: raw_idx_def consume_def)
      ultimately have "unat (raw_idx (consume 1 s1)) = unat (raw_idx s) + 1" by (simp only: sh(2))
      then have "fst (read_loop ops (out[i := b]) (Suc i) (consume 1 t1)) = fst (read_loop ops (out[i := b]) (Suc i) (consume 1 s1))
        \<and> fst (snd (read_loop ops (out[i := b]) (Suc i) (consume 1 t1))) = fst (snd (read_loop ops (out[i := b]) (Suc i) (consume 1 s1)))"
        using 1(5) True by (intro 1(1) [OF True s1 [symmetric] byte refl refl 1(2,3) step]) simp_all
      then show ?thesis
        using True s1 t1 byte by (subst (1 2 3 4) read_loop.simps) simp
    qed (use True s1 t1 in \<open>(subst (1 2 3 4) read_loop.simps, simp)+\<close>)
  next
    case False
    then show ?thesis by (subst (1 2 3 4) read_loop.simps) simp
  qed
qed

text \<open>
  C27: The block index handed to the device is the byte offset cut to 32 bits, so past 4 GiB a
  partition is read from the wrong place: for a device with a fixed block size that divides
  4 GiB, and a cache that is empty and clean, a read of any length at a position gives the same
  result (or error) and the same bytes as the read exactly 4 GiB further on, and so does
  \<open>fill_buf\<close>, as long as the index of the byte after the read does not pass $2^{64}$.
\<close>

theorem positions_alias_past_4GiB:
  assumes "buffer_law ops" "aligned_blocks ops bs"
    and "inner (block_buffer s) = []" "\<not> needs_flush s" "unat (raw_idx s) + 2 ^ 32 + length out < 2 ^ 64"
  shows "fst (fill_buf ops (s\<lparr>partition_idx := partition_idx s + 2 ^ 32\<rparr>)) = fst (fill_buf ops s)
    \<and> fst (osd_read ops out (s\<lparr>partition_idx := partition_idx s + 2 ^ 32\<rparr>)) = fst (osd_read ops out s)
    \<and> fst (snd (osd_read ops out (s\<lparr>partition_idx := partition_idx s + 2 ^ 32\<rparr>))) = fst (snd (osd_read ops out s))"
proof -
  have "shifted bs s (s\<lparr>partition_idx := partition_idx s + 2 ^ 32\<rparr>)"
    using assms(3,4) by (simp add: shifted_def)
  note sh = assms(1,2) this
  have "unat (raw_idx s) + 2 ^ 32 < 2 ^ 64" using assms(5) by linarith
  from fill_buf_shift [OF sh this] read_loop_shift [OF sh, of out 0] assms(5)
  show ?thesis by (simp only: osd_read_def)
qed

theorem positions_alias_past_4GiB_witness:
  "fst (snd (osd_read ram_ops [0, 0, 0, 0, 0] (ram_osd\<lparr>partition_idx := 0x100000001\<rparr>)))
     = fst (snd (osd_read ram_ops [0, 0, 0, 0, 0] (ram_osd\<lparr>partition_idx := 1\<rparr>)))"
proof -
  have "buffer_law ram_ops" using ram_disk_laws by (simp add: disk_laws_def)
  moreover have "aligned_blocks ram_ops 4" by (simp add: aligned_blocks_def ram_ops_def)
  ultimately show ?thesis
    using positions_alias_past_4GiB [of ram_ops 4 "ram_osd\<lparr>partition_idx := 1\<rparr>" "[0, 0, 0, 0, 0]"]
    by (simp add: ram_osd_def raw_idx_def)
qed

end
