(* ===== verification/FsTypes.thy ===== *)
theory FsTypes
  imports Prelude
begin

text \<open>
  The data types of the generic file-system layer (\<open>src/filesystem/mod.rs\<close>) and the
  adapter over the crate \<open>fatfs\<close> (\<open>src/filesystem/fatfs_rs.rs\<close>): entry types and their
  one-byte codes, the flags word of a directory entry, the statistics record.
\<close>

section \<open>Partition table entries\<close>

text \<open>
  The entry of the crate \<open>mbr_nostd\<close>, with the fields and partition types the sources look
  at; every other type is \<open>OtherPartition\<close>.
\<close>

datatype partition_type = Fat12 | Fat16 | Fat32 | NtfsExfat | OtherPartition

record partition_entry =
  partition_type :: partition_type
  logical_block_address :: u32
  sector_count :: u32

record fs_stats =
  cluster_size :: u64
  free_clusters :: u64
  total_clusters :: u64

section \<open>Entry types\<close>

datatype dir_entry_type =
    Unknown | Fifo | CharacterSpecial | Directory | BlockSpecial | RegularFile | SymbolicLink | Socket

text \<open>A cast \<open>as u64\<close> of the enum yields the position in the declaration.\<close>

fun discriminant :: "dir_entry_type \<Rightarrow> u64" where
  "discriminant Unknown = 0"
| "discriminant Fifo = 1"
| "discriminant CharacterSpecial = 2"
| "discriminant Directory = 3"
| "discriminant BlockSpecial = 4"
| "discriminant RegularFile = 5"
| "discriminant SymbolicLink = 6"
| "discriminant Socket = 7"

definition S_IFIFO :: u8 where "S_IFIFO = 1"
definition S_IFCHR :: u8 where "S_IFCHR = 2"
definition S_IFDIR :: u8 where "S_IFDIR = 4"
definition S_IFBLK :: u8 where "S_IFBLK = 6"
definition S_IFREG :: u8 where "S_IFREG = 8"
definition S_IFLNK :: u8 where "S_IFLNK = 10"
definition S_IFSOCK :: u8 where "S_IFSOCK = 12"

lemmas S_IF_defs = S_IFIFO_def S_IFCHR_def S_IFDIR_def S_IFBLK_def S_IFREG_def S_IFLNK_def S_IFSOCK_def

definition entry_type_from_u8 :: "u8 \<Rightarrow> dir_entry_type" where
  "entry_type_from_u8 b =
     (if b = S_IFIFO then Fifo
      else if b = S_IFCHR then CharacterSpecial
      else if b = S_IFDIR then Directory
      else if b = S_IFBLK then BlockSpecial
      else if b = S_IFREG then RegularFile
      else if b = S_IFLNK then SymbolicLink
      else if b = S_IFSOCK then Socket
      else Unknown)"

fun u8_from_entry_type :: "dir_entry_type \<Rightarrow> u8" where
  "u8_from_entry_type Fifo = S_IFIFO"
| "u8_from_entry_type CharacterSpecial = S_IFCHR"
| "u8_from_entry_type Directory = S_IFDIR"
| "u8_from_entry_type BlockSpecial = S_IFBLK"
| "u8_from_entry_type RegularFile = S_IFREG"
| "u8_from_entry_type SymbolicLink = S_IFLNK"
| "u8_from_entry_type Socket = S_IFSOCK"
| "u8_from_entry_type Unknown = 0"

record dir_entry_data =
  de_name :: rstr
  de_len :: usize
  de_flags :: u64

definition entry_type :: "dir_entry_data \<Rightarrow> dir_entry_type" where
  "entry_type d = entry_type_from_u8 (ucast (drop_bit 12 (de_flags d AND 0xf000)))"

section \<open>The adapter over the crate fatfs\<close>

text \<open>What the adapter reads of a \<open>fatfs::DirEntry\<close>; \<open>attr_bits\<close> is the attribute byte.\<close>

record fat_dirent =
  attr_directory :: bool
  attr_read_only :: bool
  attr_bits :: u8
  file_name :: rstr
  ent_len :: u64

definition attr_flags :: "fat_dirent \<Rightarrow> u64" where
  "attr_flags ent =
     (let type_bits = (if attr_directory ent then push_bit 12 (discriminant Directory)
                       else push_bit 12 (discriminant RegularFile));
          permissions_bits = (if attr_read_only ent then 0x124 else 0x1B6)
      in type_bits OR permissions_bits)"

text \<open>\<open>inner_next\<close> is the iterator of the crate.\<close>

definition fatfs_dir_iter_next ::
  "('it \<Rightarrow> (io_error + fat_dirent) option \<times> 'it) \<Rightarrow> 'it \<Rightarrow> dir_entry_data option \<times> 'it" where
  "fatfs_dir_iter_next inner_next it =
     (case inner_next it of
        (None, it1) \<Rightarrow> (None, it1)
      | (Some (Inl _), it1) \<Rightarrow> (None, it1)
      | (Some (Inr ent), it1) \<Rightarrow>
          (Some \<lparr>de_name = file_name ent, de_len = ent_len ent, de_flags = attr_flags ent\<rparr>, it1))"

text \<open>\<open>new_fs\<close> is \<open>fatfs::FileSystem::new\<close> with default options.\<close>

definition fatfs_from_device :: "('d \<Rightarrow> io_error + 'fs) \<Rightarrow> 'd \<Rightarrow> partition_entry \<Rightarrow> io_error + 'fs" where
  "fatfs_from_device new_fs dev part =
     (case partition_type part of
        Fat32 \<Rightarrow> new_fs dev | Fat16 \<Rightarrow> new_fs dev | Fat12 \<Rightarrow> new_fs dev
      | _ \<Rightarrow> Inl (io_error_from InvalidData))"

text \<open>
  \<open>inner_stats\<close> is the \<open>stats\<close> call of the crate: the cluster size and the total and free
  cluster counts, all \<open>u32\<close>.
\<close>

definition fatfs_stats :: "('fs \<Rightarrow> io_error + (u32 \<times> u32 \<times> u32)) \<Rightarrow> 'fs \<Rightarrow> io_error + fs_stats" where
  "fatfs_stats inner_stats fs =
     (case inner_stats fs of
        Inl e \<Rightarrow> Inl e
      | Inr (csz, ntotal, nfree) \<Rightarrow>
          Inr \<lparr>cluster_size = ucast csz, free_clusters = ucast nfree, total_clusters = ucast ntotal\<rparr>)"

section \<open>Facts about the codes\<close>

lemma entry_type_u8_roundtrip [simp]: "entry_type_from_u8 (u8_from_entry_type t) = t"
  by (cases t) (simp_all add: entry_type_from_u8_def S_IF_defs)

lemma u8_from_entry_type_nibble: "u8_from_entry_type t < 16"
  by (cases t) (simp_all add: S_IF_defs)

text \<open>The type stored in the nibble above twelve permission bits is read back.\<close>

lemma type_nibble_read_back:
  fixes c :: u64
  assumes "c < 16" "perm < 0x1000"
  shows "drop_bit 12 ((push_bit 12 c OR perm) AND 0xf000) = c"
proof (rule bit_word_eqI)
  fix n assume n: "n < LENGTH(64)"
  have c: "bit c n \<Longrightarrow> n < 4"
    using bit_below_exp [of c 4 n] assms(1) by (simp add: word_less_nat_alt)
  have p: "\<not> bit perm (12 + n)"
    using bit_below_exp [of perm 12 "12 + n"] assms(2) by (auto simp: word_less_nat_alt)
  have m: "bit (0xf000 :: u64) (12 + n) \<longleftrightarrow> n < 4"
  proof -
    have eq: "(0xf000 :: u64) = push_bit 12 (mask 4)" by (simp add: mask_eq_exp_minus_1)
    show ?thesis unfolding eq bit_push_bit_iff bit_mask_iff using n by auto
  qed
  show "bit (drop_bit 12 ((push_bit 12 c OR perm) AND 0xf000)) n = bit c n"
    unfolding bit_drop_bit_eq comp_def bit_and_iff bit_or_iff bit_push_bit_iff m
    using c p by auto
qed

lemma entry_type_of_flags:
  assumes "de_flags d = push_bit 12 (ucast (u8_from_entry_type t)) OR perm" "perm < 0x1000"
  shows "entry_type d = t"
proof -
  have "(ucast (u8_from_entry_type t) :: u64) < 16"
    by (cases t) (simp_all add: S_IF_defs)
  from type_nibble_read_back [OF this assms(2)]
  show ?thesis
    by (simp add: entry_type_def assms(1)) (cases t; simp add: S_IF_defs entry_type_from_u8_def)
qed

section \<open>Properties\<close>

text \<open>
  The conversions between an entry type and its one-byte code are inverse to each other on
  the seven known codes: a type survives the round trip, every other byte is \<open>Unknown\<close>, and a
  type stored in the nibble above twelve permission bits is read back by \<open>entry_type\<close>.
\<close>

theorem entry_type_codes:
  "entry_type_from_u8 (u8_from_entry_type t) = t
    \<and> (entry_type_from_u8 b = Unknown \<or> u8_from_entry_type (entry_type_from_u8 b) = b)
    \<and> entry_type \<lparr>de_name = n, de_len = l,
         de_flags = push_bit 12 (ucast (u8_from_entry_type t)) OR (perm AND 0xFFF)\<rparr> = t"
proof -
  have "perm AND 0xFFF \<le> 0xFFF" by (rule word_and_le1)
  then have p: "perm AND 0xFFF < 0x1000" by unat_arith
  have b: "entry_type_from_u8 b = Unknown \<or> u8_from_entry_type (entry_type_from_u8 b) = b"
    by (auto simp: entry_type_from_u8_def)
  show ?thesis
    using entry_type_of_flags [OF _ p, of _ t] b by simp
qed

text \<open>
  The adapter over the crate \<open>fatfs\<close> stores the position of the type in the enum (3 and 5)
  where \<open>entry_type\<close> expects the \<open>S_IF\<close> code (4 and 8): the type of every entry the iterator
  yields is read back as \<open>Unknown\<close>, for files and directories alike.
\<close>

lemma fatfs_entry_type_lost:
  "entry_type \<lparr>de_name = file_name ent, de_len = ent_len ent, de_flags = attr_flags ent\<rparr> = Unknown"
  by (cases "attr_directory ent"; cases "attr_read_only ent")
    (simp_all add: attr_flags_def entry_type_def entry_type_from_u8_def S_IF_defs)

end
