(* ===== verification/AlignedSlice.thy ===== *)
theory AlignedSlice
  imports Prelude
begin

text \<open>
  \<open>src/aligned_slice.rs\<close>: a heap allocation with a given layout, and the two views of it
  as a slice. Memory is explicit: \<open>raw_mem\<close> holds exactly the bytes the allocator handed
  out, so a view that would read past them is \<open>None\<close>.
\<close>

record layout =
  l_size :: usize
  l_align :: usize

record aligned_buffer =
  raw_mem :: bytes
  buf_layout :: layout

text \<open>
  \<open>Layout::from_size_align\<close> of the standard library: the alignment is a power of two and
  the size rounded up to it does not overflow \<open>usize\<close>.
\<close>

definition is_power_of_two :: "usize \<Rightarrow> bool" where
  "is_power_of_two a \<longleftrightarrow> a \<noteq> 0 \<and> a AND (a - 1) = 0"

definition from_size_align :: "usize \<Rightarrow> usize \<Rightarrow> layout option" where
  "from_size_align sz al =
     (if is_power_of_two al \<and> sz \<le> - 1 - (al - 1) then Some \<lparr>l_size = sz, l_align = al\<rparr> else None)"

definition aligned_size_raw :: "usize \<Rightarrow> usize \<Rightarrow> usize exec" where
  "aligned_size_raw layout_size layout_align =
     (if layout_align = 0 then Panic
      else let off = layout_size mod layout_align in
        if off = 0 then Ret layout_size
        else Ret (layout_size + layout_align - off))"

text \<open>
  \<open>alloc_ok\<close> says for which layouts the global allocator returns memory; it is zeroed.
  The second layout the code computes is never used.
\<close>

definition from_layout :: "(layout \<Rightarrow> bool) \<Rightarrow> 'e \<Rightarrow> layout \<Rightarrow> ('e + aligned_buffer) exec" where
  "from_layout alloc_ok alloc_null lay =
     (case aligned_size_raw (l_size lay) (l_align lay) of
        Panic \<Rightarrow> Panic
      | Ret actual_size \<Rightarrow>
          let actual_layout = from_size_align (l_align lay) actual_size in
          if alloc_ok lay
          then Ok \<lparr>raw_mem = replicate (unat (l_size lay)) 0, buf_layout = lay\<rparr>
          else Err alloc_null)"

definition abuf_size :: "aligned_buffer \<Rightarrow> usize" where
  "abuf_size b = l_size (buf_layout b)"

definition abuf_alignment :: "aligned_buffer \<Rightarrow> usize" where
  "abuf_alignment b = l_align (buf_layout b)"

definition aligned_size :: "aligned_buffer \<Rightarrow> usize exec" where
  "aligned_size b = aligned_size_raw (abuf_size b) (abuf_alignment b)"

text \<open>\<open>slice::from_raw_parts\<close>: defined only inside the allocation.\<close>

definition from_raw_parts :: "bytes \<Rightarrow> usize \<Rightarrow> bytes option" where
  "from_raw_parts mem len = (if unat len \<le> length mem then Some (take (unat len) mem) else None)"

definition as_slice :: "aligned_buffer \<Rightarrow> bytes option" where
  "as_slice b = from_raw_parts (raw_mem b) (abuf_size b)"

definition as_aligned_slice :: "aligned_buffer \<Rightarrow> bytes option exec" where
  "as_aligned_slice b = map_exec (from_raw_parts (raw_mem b)) (aligned_size b)"

text \<open>What every buffer built by \<open>from_layout\<close> satisfies; writes through a slice keep it.\<close>

definition abuf_inv :: "aligned_buffer \<Rightarrow> bool" where
  "abuf_inv b \<longleftrightarrow> length (raw_mem b) = unat (abuf_size b) \<and> abuf_alignment b \<noteq> 0"

lemma from_layout_inv:
  "from_layout ok e lay = Ok b \<Longrightarrow> abuf_inv b \<and> buf_layout b = lay \<and> set (raw_mem b) \<subseteq> {0}"
  by (auto simp: from_layout_def abuf_inv_def abuf_size_def abuf_alignment_def aligned_size_raw_def
      Let_def split: exec.splits if_splits)

lemma as_slice_eq: "abuf_inv b \<Longrightarrow> as_slice b = Some (raw_mem b)"
  by (simp add: as_slice_def from_raw_parts_def abuf_inv_def)

text \<open>The rounding in terms of naturals.\<close>

lemma aligned_size_raw_nat:
  assumes "al \<noteq> 0" and "unat sz + unat al < 2 ^ 64" and "aligned_size_raw sz al = Ret r"
  shows "unat r = (if unat sz mod unat al = 0 then unat sz
                   else unat sz + unat al - unat sz mod unat al)"
proof (cases "sz mod al = 0")
  case True
  then have "unat sz mod unat al = 0"
    using unat_mod [of sz al] by simp
  with True assms show ?thesis by (simp add: aligned_size_raw_def)
next
  case False
  then have nz: "unat sz mod unat al \<noteq> 0"
    using unat_mod [of sz al] by (metis unat_eq_zero)
  have "unat sz mod unat al < unat al"
    using assms(1) by (simp add: unat_gt_0)
  then have le: "sz mod al \<le> sz + al"
    using assms(2) by (simp add: word_le_nat_alt unat_mod unat_plus_small)
  have "r = sz + al - sz mod al"
    using False assms(1,3) by (simp add: aligned_size_raw_def Let_def)
  with le assms(2) nz show ?thesis
    by (simp add: unat_sub unat_plus_small unat_mod)
qed

lemma round_up_props:
  fixes s a :: nat
  assumes "0 < a"
  defines "r \<equiv> (if s mod a = 0 then s else s + a - s mod a)"
  shows "a dvd r" "s \<le> r" "r < s + a"
proof -
  have lt: "s mod a < a" using assms(1) by simp
  have "s + a - s mod a = (s div a + 1) * a"
    using lt by (metis (no_types, lifting) Nat.add_diff_assoc2 add.commute add_mult_distrib
        minus_mod_eq_div_mult mod_less_eq_dividend mult_1)
  then show "a dvd r" by (auto simp: r_def)
  show "s \<le> r" using lt unfolding r_def by simp linarith
  show "r < s + a" using assms(1) lt by (auto simp: r_def)
qed

end
