(* ===== verification/FatfsRaw.thy ===== *)
theory FatfsRaw
  imports BufScsiRefine FsTypes AlignedSlice
begin

text \<open>
  The disk handler of \<open>src/filesystem/fatfs_raw.rs\<close>: \<open>FatfsSysContext\<close>, a table of fifteen
  drives behind the sector interface that the C library FatFs calls (\<open>disk_status\<close>,
  \<open>disk_read\<close>, \<open>disk_write\<close>, \<open>disk_ioctl\<close>), and \<open>FatfsSysFileSystem::from_device\<close>, which
  adds a drive through an ioctl. The numeric constants of FatFs are parameters.
\<close>

section \<open>State\<close>

record 'dev device_handle =
  dh_device :: "'dev offset_scsi"
  partition_info :: partition_entry

record 'dev fatfs_ctx =
  drives :: "'dev device_handle option list"
  default_disk :: u8

datatype dresult = RES_OK | RES_ERROR | RES_NOTRDY | RES_PARERR

record fatfs_consts =
  STA_NODISK :: u8
  STA_NOINIT :: u8
  CTRL_SYNC :: u8
  GET_SECTOR_COUNT :: u8
  GET_SECTOR_SIZE :: u8
  GET_BLOCK_SIZE :: u8
  CTRL_TRIM :: u8

definition IOCTL_SET_DEFAULT_DISK :: u8 where "IOCTL_SET_DEFAULT_DISK = 0xD0"
definition IOCTL_ADD_FILESYSTEM :: u8 where "IOCTL_ADD_FILESYSTEM = 0xAD"

definition dh_sync :: "'dev scsi_ops \<Rightarrow> 'dev device_handle \<Rightarrow> (io_error + unit) exec \<times> 'dev device_handle" where
  "dh_sync ops h = (case flush ops (dh_device h) of (r, d) \<Rightarrow> (r, h\<lparr>dh_device := d\<rparr>))"

definition sector_size :: "'dev scsi_ops \<Rightarrow> 'dev device_handle \<Rightarrow> usize" where
  "sector_size ops h = ucast (op_block_size ops (device (dh_device h)))"

definition dh_sector_count :: "'dev device_handle \<Rightarrow> usize" where
  "dh_sector_count h = ucast (sector_count (partition_info h))"

definition handle_connected :: "'dev scsi_ops \<Rightarrow> 'dev device_handle \<Rightarrow> bool" where
  "handle_connected ops h = op_is_connected ops (device (dh_device h))"

section \<open>The drive table\<close>

text \<open>The length of the array \<open>drives\<close>.\<close>

definition drive_slots :: nat where
  "drive_slots = 15"

definition fatfs_ctx_new :: "'dev fatfs_ctx" where
  "fatfs_ctx_new = \<lparr>drives = replicate drive_slots None, default_disk = 0\<rparr>"

definition get_idx :: "'dev fatfs_ctx \<Rightarrow> u8 \<Rightarrow> nat" where
  "get_idx ctx pdrv =
     (if 0 < pdrv then min drive_slots (unat pdrv) else unat (default_disk ctx))"

lemma get_idx_drives_update [simp]: "get_idx (drives_update f ctx) pdrv = get_idx ctx pdrv"
  by (simp add: get_idx_def)

text \<open>Indexing the array past its end panics.\<close>

definition get_filesystem :: "'dev fatfs_ctx \<Rightarrow> u8 \<Rightarrow> 'dev device_handle option exec" where
  "get_filesystem ctx pdrv =
     (let idx = get_idx ctx pdrv in
      if idx < drive_slots then Ret (drives ctx ! idx) else Panic)"

definition reset_filesystem :: "'dev fatfs_ctx \<Rightarrow> u8 \<Rightarrow> 'dev fatfs_ctx exec" where
  "reset_filesystem ctx pdrv =
     (let idx = get_idx ctx pdrv in
      if idx < drive_slots then Ret (ctx\<lparr>drives := (drives ctx)[idx := None]\<rparr>) else Panic)"

text \<open>The loop of \<open>add_fs\<close>: the index is a byte, and is not reduced modulo the table size.\<close>

function add_fs_loop ::
  "'dev scsi_ops \<Rightarrow> 'dev device_handle option list \<Rightarrow> u8 \<Rightarrow> 'dev device_handle \<Rightarrow> u8
     \<Rightarrow> (u8 \<times> 'dev device_handle option list) exec" where
  "add_fs_loop ops ds dflt new_fs idx =
     (if (idx + 1) mod of_nat drive_slots \<noteq> dflt
      then if unat idx < drive_slots
           then let is_empty = (case ds ! unat idx of
                    None \<Rightarrow> True | Some dev \<Rightarrow> \<not> handle_connected ops dev)
                in if is_empty then Ret (idx, ds[unat idx := Some new_fs])
                   else add_fs_loop ops ds dflt new_fs (idx + 1)
           else Panic
      else Ret (0xFF, ds))"
  by pat_completeness auto
termination
proof (relation "measure (\<lambda>(ops, ds, dflt, h, idx). drive_slots - unat idx)", goal_cases)
  case (2 ops ds dflt new_fs idx)
  then have "unat (idx + 1) = unat idx + 1"
    using unat_plus_small [of idx 1] by (simp add: drive_slots_def)
  with 2 show ?case by simp
qed simp

declare add_fs_loop.simps [simp del]

definition add_fs ::
  "'dev scsi_ops \<Rightarrow> 'dev fatfs_ctx \<Rightarrow> 'dev device_handle \<Rightarrow> u8 exec \<times> 'dev fatfs_ctx" where
  "add_fs ops ctx new_fs =
     (case add_fs_loop ops (drives ctx) (default_disk ctx) new_fs (default_disk ctx) of
        Panic \<Rightarrow> (Panic, ctx)
      | Ret (nidx, ds) \<Rightarrow> (Ret nidx, ctx\<lparr>drives := ds\<rparr>))"

section \<open>The handler\<close>

definition disk_status ::
  "'dev scsi_ops \<Rightarrow> fatfs_consts \<Rightarrow> u8 \<Rightarrow> 'dev fatfs_ctx \<Rightarrow> u8 exec \<times> 'dev fatfs_ctx" where
  "disk_status ops K pdrv ctx =
     exec_op (get_filesystem ctx pdrv) ctx (\<lambda>fs.
       let retval = (case fs of
           Some dev \<Rightarrow> if \<not> handle_connected ops dev then STA_NODISK K else 0
         | None \<Rightarrow> STA_NOINIT K)
       in if retval \<noteq> 0
          then exec_op (reset_filesystem ctx pdrv) ctx (\<lambda>ctx1. (Ret retval, ctx1))
          else (Ret retval, ctx))"

definition disk_initialize ::
  "'dev scsi_ops \<Rightarrow> fatfs_consts \<Rightarrow> u8 \<Rightarrow> 'dev fatfs_ctx \<Rightarrow> u8 exec \<times> 'dev fatfs_ctx" where
  "disk_initialize ops K pdrv ctx =
     (case disk_status ops K pdrv ctx of
        (Panic, ctx1) \<Rightarrow> (Panic, ctx1)
      | (Ret st, ctx1) \<Rightarrow> (Ret (if st = 0 then 0 else 255), ctx1))"

text \<open>The handle a sector operation worked on goes back to its slot.\<close>

definition put_drive :: "'dev fatfs_ctx \<Rightarrow> u8 \<Rightarrow> 'dev device_handle \<Rightarrow> 'dev offset_scsi \<Rightarrow> 'dev fatfs_ctx" where
  "put_drive ctx pdrv fs d =
     ctx\<lparr>drives := (drives ctx)[get_idx ctx pdrv := Some (fs\<lparr>dh_device := d\<rparr>)]\<rparr>"

text \<open>
  \<open>mem\<close> is the memory at \<open>buf_ptr\<close>. The slice over it is undefined if the memory is shorter
  than the request, which is treated as a panic; the rest of the memory is left alone.
\<close>

definition disk_read ::
  "'dev scsi_ops \<Rightarrow> u8 \<Rightarrow> bytes \<Rightarrow> u32 \<Rightarrow> u32 \<Rightarrow> 'dev fatfs_ctx
     \<Rightarrow> dresult exec \<times> bytes \<times> 'dev fatfs_ctx" where
  "disk_read ops pdrv mem sector count ctx =
     (case get_filesystem ctx pdrv of
        Panic \<Rightarrow> (Panic, mem, ctx)
      | Ret None \<Rightarrow> (Ret RES_NOTRDY, mem, ctx)
      | Ret (Some fs) \<Rightarrow>
        (let byte_count = sector_size ops fs * ucast count in
         case from_raw_parts mem byte_count of
           None \<Rightarrow> (Panic, mem, ctx)
         | Some buff \<Rightarrow>
           (let byte_offset = sector_size ops fs * ucast sector in
            case osd_seek (Start byte_offset) (dh_device fs) of
              (Panic, d1) \<Rightarrow> (Panic, mem, put_drive ctx pdrv fs d1)
            | (Err _, d1) \<Rightarrow> (Ret RES_ERROR, mem, put_drive ctx pdrv fs d1)
            | (Ok _, d1) \<Rightarrow>
              (case osd_read ops buff d1 of
                 (Panic, buff1, d2) \<Rightarrow>
                   (Panic, buff1 @ drop (length buff1) mem, put_drive ctx pdrv fs d2)
               | (Err _, buff1, d2) \<Rightarrow>
                   (Ret RES_ERROR, buff1 @ drop (length buff1) mem, put_drive ctx pdrv fs d2)
               | (Ok _, buff1, d2) \<Rightarrow>
                   (Ret RES_OK, buff1 @ drop (length buff1) mem, put_drive ctx pdrv fs d2)))))"

definition disk_write ::
  "'dev scsi_ops \<Rightarrow> u8 \<Rightarrow> bytes \<Rightarrow> u32 \<Rightarrow> u32 \<Rightarrow> 'dev fatfs_ctx \<Rightarrow> dresult exec \<times> 'dev fatfs_ctx" where
  "disk_write ops pdrv mem sector count ctx =
     (case get_filesystem ctx pdrv of
        Panic \<Rightarrow> (Panic, ctx)
      | Ret None \<Rightarrow> (Ret RES_NOTRDY, ctx)
      | Ret (Some fs) \<Rightarrow>
        (let byte_count = sector_size ops fs * ucast count in
         case from_raw_parts mem byte_count of
           None \<Rightarrow> (Panic, ctx)
         | Some buff \<Rightarrow>
           (let byte_offset = sector_size ops fs * ucast sector in
            case osd_seek (Start byte_offset) (dh_device fs) of
              (Panic, d1) \<Rightarrow> (Panic, put_drive ctx pdrv fs d1)
            | (Err _, d1) \<Rightarrow> (Ret RES_ERROR, put_drive ctx pdrv fs d1)
            | (Ok _, d1) \<Rightarrow>
              (case osd_write ops buff d1 of
                 (Panic, d2) \<Rightarrow> (Panic, put_drive ctx pdrv fs d2)
               | (Err _, d2) \<Rightarrow> (Ret RES_ERROR, put_drive ctx pdrv fs d2)
               | (Ok _, d2) \<Rightarrow> (Ret RES_OK, put_drive ctx pdrv fs d2)))))"

section \<open>Control requests\<close>

datatype 'dev add_fs_buffer = Input "'dev device_handle" | Output u8

text \<open>What the untyped pointer of an ioctl points to.\<close>

datatype 'dev ioctl_arg = NullPtr | Dword u32 | AddFs "'dev add_fs_buffer"

definition disk_ioctl ::
  "'dev scsi_ops \<Rightarrow> fatfs_consts \<Rightarrow> u8 \<Rightarrow> u8 \<Rightarrow> 'dev ioctl_arg \<Rightarrow> 'dev fatfs_ctx
     \<Rightarrow> dresult exec \<times> 'dev ioctl_arg \<times> 'dev fatfs_ctx" where
  "disk_ioctl ops K pdrv cmd buf ctx =
     (if cmd AND IOCTL_SET_DEFAULT_DISK \<noteq> 0
      then (Ret RES_OK, buf, ctx\<lparr>default_disk := cmd AND 0xF\<rparr>)
      else if cmd = CTRL_SYNC K then
        (case get_filesystem ctx pdrv of
           Panic \<Rightarrow> (Panic, buf, ctx)
         | Ret None \<Rightarrow> (Ret RES_NOTRDY, buf, ctx)
         | Ret (Some dev) \<Rightarrow>
             (case dh_sync ops dev of
                (Panic, dev1) \<Rightarrow> (Panic, buf, put_drive ctx pdrv dev (dh_device dev1))
              | (Ok _, dev1) \<Rightarrow> (Ret RES_OK, buf, put_drive ctx pdrv dev (dh_device dev1))
              | (Err _, dev1) \<Rightarrow> (Ret RES_ERROR, buf, put_drive ctx pdrv dev (dh_device dev1))))
      else if cmd = GET_SECTOR_SIZE K then
        (case get_filesystem ctx pdrv of
           Panic \<Rightarrow> (Panic, buf, ctx)
         | Ret None \<Rightarrow> (Ret RES_NOTRDY, buf, ctx)
         | Ret (Some dev) \<Rightarrow> (Ret RES_OK, Dword (ucast (sector_size ops dev)), ctx))
      else if cmd = GET_BLOCK_SIZE K then (Ret RES_PARERR, buf, ctx)
      else if cmd = GET_SECTOR_COUNT K then
        (case get_filesystem ctx pdrv of
           Panic \<Rightarrow> (Panic, buf, ctx)
         | Ret None \<Rightarrow> (Ret RES_NOTRDY, buf, ctx)
         | Ret (Some dev) \<Rightarrow> (Ret RES_OK, Dword (ucast (dh_sector_count dev)), ctx))
      else if cmd = IOCTL_ADD_FILESYSTEM then
        (case buf of
           NullPtr \<Rightarrow> (Ret RES_PARERR, buf, ctx)
         | Dword _ \<Rightarrow> (Panic, buf, ctx)
         | AddFs (Output _) \<Rightarrow> (Ret RES_PARERR, AddFs (Output 0xFF), ctx)
         | AddFs (Input ndev) \<Rightarrow>
             (case add_fs ops ctx ndev of
                (Panic, ctx1) \<Rightarrow> (Panic, AddFs (Output 0xFF), ctx1)
              | (Ret nidx, ctx1) \<Rightarrow>
                  (Ret (if nidx = 0xFF then RES_ERROR else RES_OK), AddFs (Output nidx), ctx1)))
      else if cmd = CTRL_TRIM K then (Ret RES_OK, buf, ctx)
      else (Ret RES_PARERR, buf, ctx))"

record fatfs_sys_fs =
  fs_path :: "bytes option"
  fs_idx :: u8

text \<open>
  \<open>ioctl\<close> is the C entry point \<open>fatfs_sys::disk_ioctl\<close>, which runs the registered handler.
  A device that is refused is dropped, so its cache is flushed; nobody holds the device after that,
  and the flush is not in the result.
\<close>

definition from_device ::
  "(u8 \<Rightarrow> u8 \<Rightarrow> 'dev ioctl_arg \<Rightarrow> 'c \<Rightarrow> dresult exec \<times> 'dev ioctl_arg \<times> 'c)
     \<Rightarrow> 'dev offset_scsi \<Rightarrow> partition_entry \<Rightarrow> 'c \<Rightarrow> (io_error + fatfs_sys_fs) exec \<times> 'c" where
  "from_device ioctl dev part c =
     (let supported = (case partition_type part of
          Fat32 \<Rightarrow> True | Fat16 \<Rightarrow> True | Fat12 \<Rightarrow> True | NtfsExfat \<Rightarrow> True | OtherPartition \<Rightarrow> False)
      in if \<not> supported then (Err (io_error_from InvalidData), c)
         else case ioctl 0 IOCTL_ADD_FILESYSTEM
                (AddFs (Input \<lparr>dh_device = dev, partition_info = part\<rparr>)) c of
           (Panic, nh, c1) \<Rightarrow> (Panic, c1)
         | (Ret RES_OK, AddFs (Output nidx), c1) \<Rightarrow> (Ok \<lparr>fs_path = None, fs_idx = nidx\<rparr>, c1)
         | (Ret _, nh, c1) \<Rightarrow> (Err (io_error_from Other), c1))"

text \<open>\<open>n_fatent - 2\<close> wraps; \<open>getfree\<close> is \<open>f_getfree\<close>: \<open>None\<close> when it reports an error.\<close>

definition fatfs_sys_stats :: "(bytes option \<Rightarrow> io_error + (u32 \<times> (u16 \<times> u32) option)) \<Rightarrow> fatfs_sys_fs \<Rightarrow> io_error + fs_stats" where
  "fatfs_sys_stats getfree fs =
     (case getfree (fs_path fs) of
        Inl e \<Rightarrow> Inl e
      | Inr (nclst, None) \<Rightarrow> Inl (io_error_from NotFound)
      | Inr (nclst, Some (csize, n_fatent)) \<Rightarrow>
          Inr \<lparr>cluster_size = ucast csize * 512, free_clusters = ucast nclst,
               total_clusters = ucast (n_fatent - 2)\<rparr>)"

section \<open>A drive serves a byte array\<close>

text \<open>
  Drive \<open>pdrv\<close> is backed by a working device: its partition starts at byte \<open>base\<close> and the
  device (with the dirty cached block in front) holds the bytes \<open>m\<close>.
\<close>

definition serves ::
  "'dev scsi_ops \<Rightarrow> 'dev disk_spec \<Rightarrow> 'dev fatfs_ctx \<Rightarrow> u8 \<Rightarrow> nat \<Rightarrow> (nat \<Rightarrow> u8) \<Rightarrow> bool" where
  "serves ops D ctx pdrv base m \<longleftrightarrow>
     length (drives ctx) = drive_slots \<and> get_idx ctx pdrv < drive_slots \<and>
     (case drives ctx ! get_idx ctx pdrv of
        None \<Rightarrow> False
      | Some fs \<Rightarrow> osd_inv ops D (dh_device fs) \<and> unat (partition_start (dh_device fs)) = base
          \<and> osd_view D (dh_device fs) = m)"

text \<open>Two tables that differ at most in the slot of \<open>pdrv\<close>.\<close>

definition same_but :: "u8 \<Rightarrow> 'dev fatfs_ctx \<Rightarrow> 'dev fatfs_ctx \<Rightarrow> bool" where
  "same_but pdrv ctx ctx' \<longleftrightarrow> default_disk ctx' = default_disk ctx
     \<and> (\<forall>j. j \<noteq> get_idx ctx pdrv \<longrightarrow> drives ctx' ! j = drives ctx ! j)"

lemma serves_obtain:
  assumes "serves ops D ctx pdrv base m"
  obtains fs where "get_filesystem ctx pdrv = Ret (Some fs)" "osd_inv ops D (dh_device fs)"
    "unat (partition_start (dh_device fs)) = base" "osd_view D (dh_device fs) = m"
    "unat (sector_size ops fs) = spec_bs D"
  using assms osd_inv_laws(8)
  by (fastforce simp: serves_def get_filesystem_def sector_size_def block_size_usize_def
      split: option.splits)

lemma serves_put:
  assumes "serves ops D ctx pdrv base m" "osd_inv ops D d" "unat (partition_start d) = base"
  shows "serves ops D (put_drive ctx pdrv fs d) pdrv base (osd_view D d)"
    "same_but pdrv ctx (put_drive ctx pdrv fs d)"
  using assms by (auto simp: serves_def put_drive_def get_idx_def same_but_def)

text \<open>The byte range of a sector request is computed without overflow.\<close>

lemma sector_bytes:
  assumes "unat (sector_size ops fs) = bs" "bs < 2 ^ 32"
  shows "unat (sector_size ops fs * ucast (k :: u32)) = bs * unat k"
proof -
  have "bs * unat k < 2 ^ 32 * 2 ^ 32"
    using assms(2) unat32_less [of k] by (intro mult_strict_mono) auto
  then show ?thesis
    using assms(1) by (subst unat_mult_small) simp_all
qed

lemma spec_bs_less: "osd_inv ops D s \<Longrightarrow> spec_bs D < 2 ^ 32"
  using unat32_less by (metis osd_inv_laws(8) block_size_usize_def unat_ucast_up)

lemma from_raw_parts_take: "unat n \<le> length mem \<Longrightarrow> from_raw_parts mem n = Some (take (unat n) mem)"
  by (simp add: from_raw_parts_def)

lemma disk_read_serves:
  assumes sv: "serves ops D ctx pdrv base m"
    and mem: "spec_bs D * unat count \<le> length mem"
    and range: "base + spec_bs D * unat sector + spec_bs D * unat count \<le> spec_size D"
  shows "\<exists>ctx'. disk_read ops pdrv mem sector count ctx
      = (Ret RES_OK, map m [base + spec_bs D * unat sector ..<
            base + spec_bs D * unat sector + spec_bs D * unat count]
          @ drop (spec_bs D * unat count) mem, ctx')
    \<and> serves ops D ctx' pdrv base m \<and> same_but pdrv ctx ctx'"
proof -
  obtain fs where fs: "get_filesystem ctx pdrv = Ret (Some fs)" "osd_inv ops D (dh_device fs)"
    "unat (partition_start (dh_device fs)) = base" "osd_view D (dh_device fs) = m"
    "unat (sector_size ops fs) = spec_bs D"
    using serves_obtain [OF sv] by blast
  note bytes = sector_bytes [OF fs(5) spec_bs_less [OF fs(2)]]
  let ?off = "sector_size ops fs * ucast sector" and ?out = "take (spec_bs D * unat count) mem"
  have len: "length ?out = spec_bs D * unat count" using mem by simp
  obtain d1 d2 where d: "osd_seek (Start ?off) (dh_device fs) = (Ok ?off, d1)"
      "osd_read ops ?out d1 = (Ok (of_nat (length ?out)),
         map m [base + unat ?off ..< base + unat ?off + length ?out], d2)"
      "osd_inv ops D d2" "osd_view D d2 = m" "unat (partition_start d2) = base"
    using osd.read_at [OF fs(2), of ?off ?out] range fs(3,4) unfolding bytes len by metis
  have "disk_read ops pdrv mem sector count ctx
      = (Ret RES_OK, map m [base + unat ?off ..< base + unat ?off + length ?out]
          @ drop (length ?out) mem, put_drive ctx pdrv fs d2)"
    using fs(1) d(1,2) mem bytes
    by (simp add: disk_read_def from_raw_parts_take)
  moreover have "serves ops D (put_drive ctx pdrv fs d2) pdrv base m"
    using serves_put(1) [OF sv d(3,5)] d(4) by simp
  ultimately show ?thesis
    using serves_put(2) [OF sv d(3,5)] unfolding bytes len by blast
qed

lemma disk_write_serves:
  assumes sv: "serves ops D ctx pdrv base m"
    and mem: "spec_bs D * unat count \<le> length mem"
    and range: "base + spec_bs D * unat sector + spec_bs D * unat count \<le> spec_size D"
  shows "\<exists>ctx'. disk_write ops pdrv mem sector count ctx = (Ret RES_OK, ctx')
    \<and> serves ops D ctx' pdrv base
        (overwrite m (base + spec_bs D * unat sector) (take (spec_bs D * unat count) mem))
    \<and> same_but pdrv ctx ctx'"
proof -
  obtain fs where fs: "get_filesystem ctx pdrv = Ret (Some fs)" "osd_inv ops D (dh_device fs)"
    "unat (partition_start (dh_device fs)) = base" "osd_view D (dh_device fs) = m"
    "unat (sector_size ops fs) = spec_bs D"
    using serves_obtain [OF sv] by blast
  note bytes = sector_bytes [OF fs(5) spec_bs_less [OF fs(2)]]
  let ?off = "sector_size ops fs * ucast sector" and ?w = "take (spec_bs D * unat count) mem"
  have len: "length ?w = spec_bs D * unat count" using mem by simp
  obtain d1 d2 where d: "osd_seek (Start ?off) (dh_device fs) = (Ok ?off, d1)"
      "osd_write ops ?w d1 = (Ok (of_nat (length ?w)), d2)"
      "osd_inv ops D d2" "osd_view D d2 = overwrite m (base + unat ?off) ?w"
      "unat (partition_start d2) = base"
    using osd.write_at [OF fs(2), of ?off ?w] range fs(3,4) unfolding bytes len by metis
  have "disk_write ops pdrv mem sector count ctx = (Ret RES_OK, put_drive ctx pdrv fs d2)"
    using fs(1) d(1,2) mem bytes
    by (simp add: disk_write_def from_raw_parts_take)
  moreover have "serves ops D (put_drive ctx pdrv fs d2) pdrv base
      (overwrite m (base + spec_bs D * unat sector) ?w)"
    using serves_put(1) [OF sv d(3,5)] d(4) bytes by simp
  ultimately show ?thesis
    using serves_put(2) [OF sv d(3,5)] by blast
qed

section \<open>Adding a drive\<close>

definition slot_free :: "'dev scsi_ops \<Rightarrow> 'dev device_handle option list \<Rightarrow> nat \<Rightarrow> bool" where
  "slot_free ops ds i = (case ds ! i of None \<Rightarrow> True | Some dev \<Rightarrow> \<not> handle_connected ops dev)"

lemma unat_succ: "unat idx < drive_slots \<Longrightarrow> unat (idx + 1 :: u8) = Suc (unat idx)"
  using unat_plus_small [of idx 1] by (simp add: drive_slots_def)

lemma succ_mod: "unat idx < drive_slots \<Longrightarrow>
    (idx + 1 :: u8) mod of_nat drive_slots \<noteq> dflt \<longleftrightarrow> Suc (unat idx) mod drive_slots \<noteq> unat dflt"
  by (simp add: word_unat_eq_iff unat_mod unat_succ) (simp add: drive_slots_def)

lemma add_fs_loop_unfold:
  assumes "unat idx < drive_slots"
  shows "add_fs_loop ops ds dflt h idx =
     (if Suc (unat idx) mod drive_slots = unat dflt then Ret (0xFF, ds)
      else if slot_free ops ds (unat idx) then Ret (idx, ds[unat idx := Some h])
      else add_fs_loop ops ds dflt h (idx + 1))"
  unfolding add_fs_loop.simps [of ops ds dflt h idx] succ_mod [OF assms]
  using assms by (simp add: slot_free_def Let_def)

lemma add_fs_loop_Ret:
  assumes "add_fs_loop ops ds dflt h idx = Ret (nidx, ds')"
  shows "(nidx = 0xFF \<and> ds' = ds) \<or>
     (unat idx \<le> unat nidx \<and> unat nidx < drive_slots \<and> slot_free ops ds (unat nidx)
      \<and> Suc (unat nidx) mod drive_slots \<noteq> unat dflt \<and> ds' = ds[unat nidx := Some h]
      \<and> (\<forall>j. unat idx \<le> j \<and> j < unat nidx \<longrightarrow> \<not> slot_free ops ds j))"
  using assms
proof (induction "drive_slots - unat idx" arbitrary: idx)
  case 0
  then show ?case by (subst (asm) add_fs_loop.simps) (auto split: if_splits)
next
  case (Suc n)
  then have lt: "unat idx < drive_slots" by simp
  note eq = add_fs_loop_unfold [OF lt, of ops ds dflt h]
  show ?case
  proof (cases "Suc (unat idx) mod drive_slots = unat dflt \<or> slot_free ops ds (unat idx)")
    case True
    with Suc.prems eq lt show ?thesis by (auto split: if_splits)
  next
    case False
    with Suc.prems eq have "add_fs_loop ops ds dflt h (idx + 1) = Ret (nidx, ds')" by simp
    moreover have "n = drive_slots - unat (idx + 1)"
      using Suc.hyps(2) lt by (simp add: unat_succ)
    ultimately show ?thesis
      using Suc.hyps(1) [of "idx + 1"] lt False
      by (auto simp: unat_succ Suc_le_eq) (metis le_neq_implies_less)+
  qed
qed

lemma add_fs_loop_panics:
  assumes "2 \<le> unat dflt" "unat dflt \<le> unat idx" "unat idx \<le> drive_slots"
    and "\<And>j. unat idx \<le> j \<Longrightarrow> j < drive_slots \<Longrightarrow> \<not> slot_free ops ds j"
  shows "add_fs_loop ops ds dflt h idx = Panic"
  using assms
proof (induction "drive_slots - unat idx" arbitrary: idx)
  case 0
  then have i: "unat idx = 15" by (simp add: drive_slots_def)
  then have "idx = 15" by (simp add: word_unat_eq_iff)
  moreover have "dflt \<noteq> 1" using 0 by auto
  ultimately show ?case by (subst add_fs_loop.simps) (simp add: drive_slots_def)
next
  case (Suc n)
  then have lt: "unat idx < drive_slots" by simp
  have "Suc (unat idx) mod drive_slots \<noteq> unat dflt"
    using lt Suc.prems(1,2) by (cases "Suc (unat idx) = drive_slots") (auto simp: drive_slots_def)
  moreover have "add_fs_loop ops ds dflt h (idx + 1) = Panic"
    using Suc.hyps(2) Suc.prems lt by (intro Suc.hyps(1)) (auto simp: unat_succ)
  ultimately show ?case
    using Suc.prems(4) [of "unat idx"] lt by (simp add: add_fs_loop_unfold)
qed

end
