(* ===== verification/FatfsRawThms.thy ===== *)
theory FatfsRawThms
  imports FatfsRaw RamDisk
begin

text \<open>
  The properties of the FatFs disk handler: sector transfers, durability of a sync, the drive
  table, and the control request that should add a drive.
\<close>

section \<open>An instance\<close>

definition ram_handle :: "bytes device_handle" where
  "ram_handle = \<lparr>dh_device = ram_osd,
     partition_info = \<lparr>partition_type = Fat32, logical_block_address = 1, sector_count = 3\<rparr>\<rparr>"

definition ram_ctx :: "bytes fatfs_ctx" where
  "ram_ctx = \<lparr>drives = replicate 2 None @ Some ram_handle # replicate 12 None, default_disk = 0\<rparr>"

definition ram_consts :: fatfs_consts where
  "ram_consts = \<lparr>STA_NODISK = 2, STA_NOINIT = 1, CTRL_SYNC = 0, GET_SECTOR_COUNT = 1,
     GET_SECTOR_SIZE = 2, GET_BLOCK_SIZE = 3, CTRL_TRIM = 4\<rparr>"

lemma ram_serves: "serves ram_ops ram_spec ram_ctx 2 4 (osd_view ram_spec ram_osd)"
  by (simp add: serves_def ram_ctx_def ram_handle_def get_idx_def drive_slots_def ram_osd_inv nth_append)

section \<open>Sectors\<close>

text \<open>
  On a drive backed by a working device, \<open>disk_write\<close> followed by \<open>disk_read\<close> of the same
  sectors reports success twice and returns the bytes written; a read of a disjoint range of
  sectors returns what it returned before the write. No other drive and no default changes.
\<close>

theorem sector_write_read:
  assumes "serves ops D ctx pdrv base m"
    and "spec_bs D * unat count \<le> length mem" "spec_bs D * unat count' \<le> length mem'"
    and "base + spec_bs D * unat sector + spec_bs D * unat count \<le> spec_size D"
    and "base + spec_bs D * unat sector' + spec_bs D * unat count' \<le> spec_size D"
  shows "\<exists>ctx1 ctx2. disk_write ops pdrv mem sector count ctx = (Ret RES_OK, ctx1)
    \<and> disk_read ops pdrv mem' sector' count' ctx1 = (Ret RES_OK,
        (if sector' = sector \<and> count' = count then take (spec_bs D * unat count) mem
         else map (overwrite m (base + spec_bs D * unat sector) (take (spec_bs D * unat count) mem))
           [base + spec_bs D * unat sector' ..< base + spec_bs D * unat sector' + spec_bs D * unat count'])
        @ drop (spec_bs D * unat count') mem', ctx2)
    \<and> (unat sector + unat count \<le> unat sector' \<or> unat sector' + unat count' \<le> unat sector
       \<longrightarrow> fst (snd (disk_read ops pdrv mem' sector' count' ctx1))
         = fst (snd (disk_read ops pdrv mem' sector' count' ctx)))
    \<and> same_but pdrv ctx ctx1"
proof -
  let ?w = "take (spec_bs D * unat count) mem" and ?p = "base + spec_bs D * unat sector"
  let ?q = "base + spec_bs D * unat sector'" and ?n = "spec_bs D * unat count'"
  have len: "length ?w = spec_bs D * unat count" using assms(2) by simp
  obtain ctx1 where w: "disk_write ops pdrv mem sector count ctx = (Ret RES_OK, ctx1)"
      "serves ops D ctx1 pdrv base (overwrite m ?p ?w)" "same_but pdrv ctx ctx1"
    using disk_write_serves [OF assms(1,2,4)] by blast
  obtain ctx2 where r: "disk_read ops pdrv mem' sector' count' ctx1
      = (Ret RES_OK, map (overwrite m ?p ?w) [?q ..< ?q + ?n] @ drop ?n mem', ctx2)"
    using disk_read_serves [OF w(2) assms(3,5)] by blast
  obtain ctx0 where r0: "disk_read ops pdrv mem' sector' count' ctx
      = (Ret RES_OK, map m [?q ..< ?q + ?n] @ drop ?n mem', ctx0)"
    using disk_read_serves [OF assms(1,3,5)] by blast
  have same: "sector' = sector \<and> count' = count \<Longrightarrow> map (overwrite m ?p ?w) [?q ..< ?q + ?n] = ?w"
    using read_overwrite [of m ?p ?w] len by simp
  have disj: "map (overwrite m ?p ?w) [?q ..< ?q + ?n] = map m [?q ..< ?q + ?n]"
    if "unat sector + unat count \<le> unat sector' \<or> unat sector' + unat count' \<le> unat sector"
  proof (rule read_overwrite_disjoint)
    have "spec_bs D * (unat sector + unat count) \<le> spec_bs D * unat sector'
        \<or> spec_bs D * (unat sector' + unat count') \<le> spec_bs D * unat sector"
      using that by (meson mult_le_mono2)
    then show "?p + length ?w \<le> ?q \<or> ?q + ?n \<le> ?p"
      unfolding len by (simp add: distrib_left)
  qed
  from w(1,3) r r0 same disj show ?thesis by (intro exI [of _ ctx1] exI [of _ ctx2]) auto
qed

theorem sector_write_read_witness:
  "\<exists>ctx1 ctx2. disk_write ram_ops 2 [1, 2, 3, 4] 1 1 ram_ctx = (Ret RES_OK, ctx1)
    \<and> disk_read ram_ops 2 [0, 0, 0, 0, 5] 1 1 ctx1 = (Ret RES_OK, [1, 2, 3, 4, 5], ctx2)"
  using sector_write_read [OF ram_serves, of 1 "[1, 2, 3, 4]" 1 "[0, 0, 0, 0, 5]" 1 1] by auto

lemma ctrl_sync_serves:
  assumes "serves ops D ctx pdrv base m" "CTRL_SYNC K AND 0xD0 = 0"
  shows "\<exists>ctx' fs. disk_ioctl ops K pdrv (CTRL_SYNC K) buf ctx = (Ret RES_OK, buf, ctx')
    \<and> serves ops D ctx' pdrv base m \<and> same_but pdrv ctx ctx'
    \<and> get_filesystem ctx' pdrv = Ret (Some fs) \<and> spec_content D (device (dh_device fs)) = m"
proof -
  obtain fs where fs: "get_filesystem ctx pdrv = Ret (Some fs)" "osd_inv ops D (dh_device fs)"
    "unat (partition_start (dh_device fs)) = base" "osd_view D (dh_device fs) = m"
    using serves_obtain [OF assms(1)] by blast
  obtain d where d: "flush ops (dh_device fs) = (Ok (), d)" "osd_inv ops D d"
      "osd_same D (dh_device fs) d" "spec_content D (device d) = m"
    using flush_correct [OF fs(2)] fs(4) by blast
  let ?ctx = "put_drive ctx pdrv fs d"
  have "disk_ioctl ops K pdrv (CTRL_SYNC K) buf ctx = (Ret RES_OK, buf, ?ctx)"
    using assms(2) fs(1) d(1) by (simp add: disk_ioctl_def IOCTL_SET_DEFAULT_DISK_def dh_sync_def)
  moreover have "serves ops D ?ctx pdrv base m" "same_but pdrv ctx ?ctx"
    using serves_put [OF assms(1) d(2)] d(3) fs(3,4) by (simp_all add: osd_same_def)
  moreover have "get_filesystem ?ctx pdrv = Ret (Some (fs\<lparr>dh_device := d\<rparr>))"
    using assms(1) by (simp add: serves_def get_filesystem_def put_drive_def)
  ultimately show ?thesis using d(4) by force
qed

text \<open>
  C18: \<open>CTRL_SYNC\<close> makes a drive durable: after it the device itself holds every byte the drive
  serves, and the drive serves the same bytes.
\<close>

theorem ctrl_sync_durable:
  assumes "serves ops D ctx pdrv base m" "CTRL_SYNC K AND 0xD0 = 0"
  shows "\<exists>ctx' fs. disk_ioctl ops K pdrv (CTRL_SYNC K) buf ctx = (Ret RES_OK, buf, ctx')
    \<and> serves ops D ctx' pdrv base m \<and> get_filesystem ctx' pdrv = Ret (Some fs)
    \<and> spec_content D (device (dh_device fs)) = m"
  using ctrl_sync_serves [OF assms] by blast

theorem ctrl_sync_durable_witness:
  "\<exists>ctx' fs. disk_ioctl ram_ops ram_consts 2 0 NullPtr ram_ctx = (Ret RES_OK, NullPtr, ctx')
    \<and> get_filesystem ctx' 2 = Ret (Some fs)
    \<and> spec_content ram_spec (device (dh_device fs)) = osd_view ram_spec ram_osd"
  using ctrl_sync_durable [OF ram_serves, of ram_consts NullPtr] by (auto simp: ram_consts_def)

section \<open>The drive table\<close>

text \<open>
  \<open>disk_status\<close> of a drive number inside the table: a connected drive reports 0 and nothing
  changes; a disconnected one reports \<open>STA_NODISK\<close> once and is dropped from its slot, so that
  from then on (as for an empty slot) the answer is \<open>STA_NOINIT\<close>. No other slot changes.
\<close>

theorem disk_status_behaviour:
  assumes "get_idx ctx pdrv < drive_slots" "length (drives ctx) = drive_slots"
    and "STA_NODISK K \<noteq> 0" "STA_NOINIT K \<noteq> 0"
  shows "case drives ctx ! get_idx ctx pdrv of
      Some dev \<Rightarrow>
        if handle_connected ops dev then disk_status ops K pdrv ctx = (Ret 0, ctx)
        else \<exists>ctx'. disk_status ops K pdrv ctx = (Ret (STA_NODISK K), ctx')
          \<and> same_but pdrv ctx ctx' \<and> disk_status ops K pdrv ctx' = (Ret (STA_NOINIT K), ctx')
    | None \<Rightarrow> disk_status ops K pdrv ctx = (Ret (STA_NOINIT K), ctx)"
proof -
  have upd: "ctx\<lparr>drives := (drives ctx)[get_idx ctx pdrv := None]\<rparr> = ctx"
    if "drives ctx ! get_idx ctx pdrv = None"
    using that by (metis fatfs_ctx.surjective fatfs_ctx.update_convs(1) list_update_id)
  show ?thesis
  proof (cases "drives ctx ! get_idx ctx pdrv")
    case None
    with assms upd show ?thesis
      by (simp add: disk_status_def get_filesystem_def reset_filesystem_def)
  next
    case (Some dev)
    with assms show ?thesis
      by (simp add: disk_status_def get_filesystem_def reset_filesystem_def same_but_def)
  qed
qed

theorem disk_status_behaviour_witness:
  "disk_status ram_ops ram_consts 2 ram_ctx = (Ret 0, ram_ctx)"
  using disk_status_behaviour [of ram_ctx 2 ram_consts ram_ops]
  by (simp add: ram_ctx_def get_idx_def drive_slots_def nth_append ram_consts_def handle_connected_def ram_ops_def)

text \<open>
  Drive numbers from 15 up (and drive 0 while the default disk is 15) are outside the table
  after the clamp \<open>min(15, pdrv)\<close>: status, read and write panic on them instead of reporting
  an error to the C library.
\<close>

theorem drive_past_table_panics:
  assumes "15 \<le> unat pdrv \<or> pdrv = 0 \<and> 15 \<le> unat (default_disk ctx)"
  shows "fst (disk_status ops K pdrv ctx) = Panic
    \<and> fst (disk_read ops pdrv mem sector count ctx) = Panic
    \<and> fst (disk_write ops pdrv mem sector count ctx) = Panic"
proof -
  have "drive_slots \<le> get_idx ctx pdrv"
    using assms by (auto simp: get_idx_def drive_slots_def word_less_nat_alt)
  then have "get_filesystem ctx pdrv = Panic"
    by (simp add: get_filesystem_def)
  then show ?thesis
    by (simp add: disk_status_def disk_read_def disk_write_def)
qed

theorem drive_past_table_panics_witness:
  "fst (disk_read ram_ops 15 [0, 0, 0, 0] 0 1 ram_ctx) = Panic"
  using drive_past_table_panics [of 15 ram_ctx ram_ops ram_consts "[0, 0, 0, 0]" 0 1] by simp

text \<open>
  When \<open>add_fs\<close> returns an index other than \<open>0xFF\<close>, that slot was empty or disconnected, is
  the first such slot from the default on, now holds the new drive, and every other slot is
  unchanged; when it returns \<open>0xFF\<close> the table is unchanged. The slot just before the default
  (cyclically) is never used.
\<close>

theorem add_fs_uses_free_slot:
  assumes "add_fs ops ctx h = (Ret nidx, ctx')"
  shows "(nidx = 0xFF \<and> ctx' = ctx)
    \<or> (unat (default_disk ctx) \<le> unat nidx \<and> unat nidx < drive_slots
       \<and> slot_free ops (drives ctx) (unat nidx)
       \<and> (\<forall>j. unat (default_disk ctx) \<le> j \<and> j < unat nidx \<longrightarrow> \<not> slot_free ops (drives ctx) j)
       \<and> Suc (unat nidx) mod drive_slots \<noteq> unat (default_disk ctx)
       \<and> ctx' = ctx\<lparr>drives := (drives ctx)[unat nidx := Some h]\<rparr>)"
proof -
  obtain ds where "add_fs_loop ops (drives ctx) (default_disk ctx) h (default_disk ctx) = Ret (nidx, ds)"
      "ctx' = ctx\<lparr>drives := ds\<rparr>"
    using assms by (auto simp: add_fs_def split: exec.splits)
  then show ?thesis using add_fs_loop_Ret by force
qed

theorem add_fs_uses_free_slot_witness:
  "\<exists>ctx'. add_fs ram_ops ram_ctx ram_handle = (Ret 0, ctx') \<and> slot_free ram_ops (drives ram_ctx) 0"
proof -
  have "add_fs_loop ram_ops (drives ram_ctx) 0 ram_handle 0 = Ret (0, (drives ram_ctx)[0 := Some ram_handle])"
    by (subst add_fs_loop_unfold)
      (simp_all add: drive_slots_def slot_free_def ram_ctx_def numeral_2_eq_2)
  then have a: "add_fs ram_ops ram_ctx ram_handle
      = (Ret 0, ram_ctx\<lparr>drives := (drives ram_ctx)[0 := Some ram_handle]\<rparr>)"
    by (simp add: add_fs_def ram_ctx_def)
  from add_fs_uses_free_slot [OF this] a show ?thesis by auto
qed

text \<open>
  With a default disk of 2 or more, \<open>add_fs\<close> runs off the end of the table and panics when
  the slots from the default on are taken, although slots below the default may be free.
\<close>

theorem add_fs_panics_past_end:
  assumes "2 \<le> unat (default_disk ctx)" "unat (default_disk ctx) \<le> drive_slots"
    and "\<And>j. unat (default_disk ctx) \<le> j \<Longrightarrow> j < drive_slots \<Longrightarrow> \<not> slot_free ops (drives ctx) j"
  shows "add_fs ops ctx h = (Panic, ctx)"
  using add_fs_loop_panics [OF assms(1) order_refl assms(2,3)] by (simp add: add_fs_def)

theorem add_fs_panics_past_end_witness:
  "add_fs ram_ops \<lparr>drives = replicate 14 None @ [Some ram_handle], default_disk = 14\<rparr> ram_handle
    = (Panic, \<lparr>drives = replicate 14 None @ [Some ram_handle], default_disk = 14\<rparr>)"
proof (rule add_fs_panics_past_end)
  fix j assume "unat (default_disk \<lparr>drives = replicate 14 None @ [Some ram_handle], default_disk = 14\<rparr>) \<le> j"
    "j < drive_slots"
  then have "j = 14" by (simp add: drive_slots_def)
  then show "\<not> slot_free ram_ops (drives \<lparr>drives = replicate 14 None @ [Some ram_handle], default_disk = 14\<rparr>) j"
    by (simp add: slot_free_def handle_connected_def ram_ops_def nth_append)
qed (simp_all add: drive_slots_def)

section \<open>The request that adds a drive\<close>

text \<open>
  \<open>IOCTL_ADD_FILESYSTEM\<close> (0xAD) shares a bit with \<open>IOCTL_SET_DEFAULT_DISK\<close> (0xD0), so the
  handler takes it for a change of the default disk: it answers \<open>RES_OK\<close>, sets the default to
  13, and neither looks at its argument nor adds a drive.
\<close>

theorem add_request_sets_default:
  "disk_ioctl ops K pdrv IOCTL_ADD_FILESYSTEM buf ctx = (Ret RES_OK, buf, ctx\<lparr>default_disk := 13\<rparr>)"
  by (simp add: disk_ioctl_def IOCTL_SET_DEFAULT_DISK_def IOCTL_ADD_FILESYSTEM_def)

text \<open>
  C39: Hence \<open>FatfsSysFileSystem::from_device\<close> never succeeds on this handler: every partition
  is refused, with \<open>InvalidData\<close> for an unsupported type and with \<open>Other\<close> for a supported one,
  and a supported one leaves the default disk at 13 with the drive table as it was.
\<close>

theorem from_device_never_succeeds:
  "from_device (disk_ioctl ops K) dev part ctx =
     (if partition_type part = OtherPartition then (Err (io_error_from InvalidData), ctx)
      else (Err (io_error_from Other), ctx\<lparr>default_disk := 13\<rparr>))"
  by (cases "partition_type part")
    (simp_all add: from_device_def disk_ioctl_def IOCTL_SET_DEFAULT_DISK_def IOCTL_ADD_FILESYSTEM_def)

end
