(* ===== verification/SectorSpec.thy ===== *)
theory SectorSpec
  imports FatfsRawThms
begin

text \<open>
  What the disk handler of \<open>src/filesystem/fatfs_raw.rs\<close> promises to the C library: a table of
  independent arrays of sectors, one for each drive number, and the proof that every sequence of
  sector requests on the code's table of drives gives the results of these arrays.
\<close>

section \<open>Requests\<close>

datatype sector_req = ReadSectors u8 bytes u32 u32 | WriteSectors u8 bytes u32 u32 | SyncDrive u8

fun req_drive :: "sector_req \<Rightarrow> u8" where
  "req_drive (ReadSectors p _ _ _) = p"
| "req_drive (WriteSectors p _ _ _) = p"
| "req_drive (SyncDrive p) = p"

text \<open>The answer and the memory of a read.\<close>

fun handler_do ::
  "'dev scsi_ops \<Rightarrow> fatfs_consts \<Rightarrow> sector_req \<Rightarrow> 'dev fatfs_ctx \<Rightarrow> (dresult exec \<times> bytes) \<times> 'dev fatfs_ctx" where
  "handler_do ops K (ReadSectors p mem s n) ctx =
     (case disk_read ops p mem s n ctx of (r, mem1, ctx1) \<Rightarrow> ((r, mem1), ctx1))"
| "handler_do ops K (WriteSectors p mem s n) ctx =
     (case disk_write ops p mem s n ctx of (r, ctx1) \<Rightarrow> ((r, []), ctx1))"
| "handler_do ops K (SyncDrive p) ctx =
     (case disk_ioctl ops K p (CTRL_SYNC K) NullPtr ctx of (r, _, ctx1) \<Rightarrow> ((r, []), ctx1))"

fun handler_run ::
  "'dev scsi_ops \<Rightarrow> fatfs_consts \<Rightarrow> sector_req list \<Rightarrow> 'dev fatfs_ctx
     \<Rightarrow> (dresult exec \<times> bytes) list \<times> 'dev fatfs_ctx" where
  "handler_run ops K [] ctx = ([], ctx)"
| "handler_run ops K (x # xs) ctx =
     (case handler_do ops K x ctx of
        (r, ctx1) \<Rightarrow> (case handler_run ops K xs ctx1 of (rs, ctx2) \<Rightarrow> (r # rs, ctx2)))"

section \<open>The sector arrays\<close>

text \<open>
  \<open>S\<close> gives for each occupied slot the device it is on and the byte its partition starts at, \<open>M\<close>
  the bytes of each slot's device. Drive 0 is the default one.
\<close>

type_synonym 'dev slot_table = "nat \<Rightarrow> ('dev disk_spec \<times> nat) option"

definition slot :: "u8 \<Rightarrow> u8 \<Rightarrow> nat" where
  "slot dflt pdrv = (if 0 < pdrv then min drive_slots (unat pdrv) else unat dflt)"

fun sectors_do ::
  "u8 \<Rightarrow> 'dev slot_table \<Rightarrow> sector_req \<Rightarrow> (nat \<Rightarrow> nat \<Rightarrow> u8) \<Rightarrow> (dresult exec \<times> bytes) \<times> (nat \<Rightarrow> nat \<Rightarrow> u8)" where
  "sectors_do dflt S (ReadSectors p mem s n) M =
     (case S (slot dflt p) of
        None \<Rightarrow> ((Ret RES_NOTRDY, mem), M)
      | Some (D, b) \<Rightarrow>
          (let q = b + spec_bs D * unat s; k = spec_bs D * unat n
           in ((Ret RES_OK, map (M (slot dflt p)) [q ..< q + k] @ drop k mem), M)))"
| "sectors_do dflt S (WriteSectors p mem s n) M =
     (case S (slot dflt p) of
        None \<Rightarrow> ((Ret RES_NOTRDY, []), M)
      | Some (D, b) \<Rightarrow>
          ((Ret RES_OK, []), M(slot dflt p :=
             overwrite (M (slot dflt p)) (b + spec_bs D * unat s) (take (spec_bs D * unat n) mem))))"
| "sectors_do dflt S (SyncDrive p) M =
     (case S (slot dflt p) of None \<Rightarrow> ((Ret RES_NOTRDY, []), M) | Some _ \<Rightarrow> ((Ret RES_OK, []), M))"

fun sectors_run ::
  "u8 \<Rightarrow> 'dev slot_table \<Rightarrow> sector_req list \<Rightarrow> (nat \<Rightarrow> nat \<Rightarrow> u8)
     \<Rightarrow> (dresult exec \<times> bytes) list \<times> (nat \<Rightarrow> nat \<Rightarrow> u8)" where
  "sectors_run dflt S [] M = ([], M)"
| "sectors_run dflt S (x # xs) M =
     (case sectors_do dflt S x M of
        (r, M1) \<Rightarrow> (case sectors_run dflt S xs M1 of (rs, M2) \<Rightarrow> (r # rs, M2)))"

text \<open>A request names a slot of the table, and its transfer fits the memory and the device.\<close>

fun req_fits :: "u8 \<Rightarrow> 'dev slot_table \<Rightarrow> sector_req \<Rightarrow> bool" where
  "req_fits dflt S (ReadSectors p mem s n) \<longleftrightarrow> slot dflt p < drive_slots \<and>
     (case S (slot dflt p) of None \<Rightarrow> True | Some (D, b) \<Rightarrow>
        spec_bs D * unat n \<le> length mem \<and> b + spec_bs D * unat s + spec_bs D * unat n \<le> spec_size D)"
| "req_fits dflt S (WriteSectors p mem s n) \<longleftrightarrow> slot dflt p < drive_slots \<and>
     (case S (slot dflt p) of None \<Rightarrow> True | Some (D, b) \<Rightarrow>
        spec_bs D * unat n \<le> length mem \<and> b + spec_bs D * unat s + spec_bs D * unat n \<le> spec_size D)"
| "req_fits dflt S (SyncDrive p) \<longleftrightarrow> slot dflt p < drive_slots"

section \<open>The simulation\<close>

text \<open>
  A slot is empty, or served by a working device that holds the bytes \<open>m\<close>; the slots of the table
  are as \<open>S\<close> and \<open>M\<close> say.
\<close>

definition slot_holds ::
  "'dev scsi_ops \<Rightarrow> ('dev disk_spec \<times> nat) option \<Rightarrow> (nat \<Rightarrow> u8) \<Rightarrow> 'dev device_handle option \<Rightarrow> bool" where
  "slot_holds ops sl m drv = (case drv of
      None \<Rightarrow> sl = None
    | Some fs \<Rightarrow> (\<exists>D. sl = Some (D, unat (partition_start (dh_device fs)))
        \<and> osd_inv ops D (dh_device fs) \<and> osd_view D (dh_device fs) = m))"

definition drives_hold ::
  "'dev scsi_ops \<Rightarrow> 'dev slot_table \<Rightarrow> (nat \<Rightarrow> nat \<Rightarrow> u8) \<Rightarrow> 'dev fatfs_ctx \<Rightarrow> bool" where
  "drives_hold ops S M ctx \<longleftrightarrow> length (drives ctx) = drive_slots \<and>
     (\<forall>j < drive_slots. slot_holds ops (S j) (M j) (drives ctx ! j))"

lemma get_idx_slot: "get_idx ctx p = slot (default_disk ctx) p"
  by (simp add: get_idx_def slot_def)

lemma hold_slot: "drives_hold ops S M ctx \<Longrightarrow> j < drive_slots \<Longrightarrow> slot_holds ops (S j) (M j) (drives ctx ! j)"
  by (simp add: drives_hold_def)

lemma hold_empty:
  assumes "drives_hold ops S M ctx" "S (slot (default_disk ctx) p) = None" "slot (default_disk ctx) p < drive_slots"
  shows "get_filesystem ctx p = Ret None"
  using hold_slot [OF assms(1,3)] assms(2,3)
  by (auto simp: slot_holds_def get_filesystem_def get_idx_slot split: option.splits)

lemma hold_serves:
  assumes "drives_hold ops S M ctx" "S (slot (default_disk ctx) p) = Some (D, b)"
    "slot (default_disk ctx) p < drive_slots"
  shows "serves ops D ctx p b (M (slot (default_disk ctx) p))"
  using hold_slot [OF assms(1,3)] assms
  by (auto simp: slot_holds_def drives_hold_def serves_def get_idx_slot split: option.splits)

lemma serves_hold:
  assumes "drives_hold ops S M ctx" "S (slot (default_disk ctx) p) = Some (D, b)"
    and "serves ops D ctx' p b m" "same_but p ctx ctx'"
  shows "drives_hold ops S (M(slot (default_disk ctx) p := m)) ctx' \<and> default_disk ctx' = default_disk ctx"
proof -
  let ?j = "slot (default_disk ctx) p"
  have d: "default_disk ctx' = default_disk ctx" "drives ctx' ! k = drives ctx ! k" if "k \<noteq> ?j" for k
    using assms(4) that by (simp_all add: same_but_def get_idx_slot)
  have e: "default_disk ctx' = default_disk ctx" using assms(4) by (simp add: same_but_def)
  have "slot_holds ops (S ?j) m (drives ctx' ! ?j)"
    using assms(2,3) by (auto simp: serves_def slot_holds_def get_idx_slot e split: option.splits)
  moreover have "length (drives ctx') = drive_slots" using assms(3) by (simp add: serves_def)
  ultimately show ?thesis using d e hold_slot [OF assms(1)] by (simp add: drives_hold_def)
qed

lemma handler_do_sim:
  assumes "drives_hold ops S M ctx" "req_fits (default_disk ctx) S x" "CTRL_SYNC K AND 0xD0 = 0"
    and "sectors_do (default_disk ctx) S x M = (r, M')"
  shows "\<exists>ctx'. handler_do ops K x ctx = (r, ctx') \<and> drives_hold ops S M' ctx'
    \<and> default_disk ctx' = default_disk ctx"
proof -
  let ?p = "req_drive x" and ?j = "slot (default_disk ctx) (req_drive x)"
  have lt: "?j < drive_slots" using assms(2) by (cases x) simp_all
  show ?thesis
  proof (cases "S ?j")
    case None
    note e = hold_empty [OF assms(1) None lt]
    show ?thesis
      using assms None e
      by (cases x) (auto simp: disk_read_def disk_write_def disk_ioctl_def IOCTL_SET_DEFAULT_DISK_def)
  next
    case (Some Db)
    obtain D b where S: "S ?j = Some (D, b)" using Some by (cases Db) auto
    note sv = hold_serves [OF assms(1) S lt] and keep = serves_hold [OF assms(1) S]
    show ?thesis
    proof (cases x)
      case (ReadSectors p mem s n)
      with assms(2) S disk_read_serves [OF sv, of n mem s] keep [of _ "M ?j"] assms(4)
      show ?thesis by (fastforce simp: Let_def)
    next
      case (WriteSectors p mem s n)
      with assms(2) S disk_write_serves [OF sv, of n mem s] keep assms(4)
      show ?thesis by fastforce
    next
      case (SyncDrive p)
      with S ctrl_sync_serves [OF sv assms(3), of NullPtr] keep [of _ "M ?j"] assms(4)
      show ?thesis by fastforce
    qed
  qed
qed

section \<open>Properties\<close>

text \<open>
  C2: The table of drives refines independent arrays of sectors: for every sequence of sector reads,
  sector writes and syncs on drive numbers inside the table, the default drive and empty slots
  included, whose transfers stay on their devices, the handler answers each request as the
  array of its slot does, and the drives hold the final arrays; no request touches another
  drive.
\<close>

theorem drives_refine_sectors:
  assumes "drives_hold ops S M ctx" "\<forall>x \<in> set xs. req_fits (default_disk ctx) S x"
    and "CTRL_SYNC K AND 0xD0 = 0" "sectors_run (default_disk ctx) S xs M = (rs, M')"
  shows "\<exists>ctx'. handler_run ops K xs ctx = (rs, ctx') \<and> drives_hold ops S M' ctx'
    \<and> default_disk ctx' = default_disk ctx"
  using assms
proof (induction xs arbitrary: ctx M rs)
  case (Cons x xs)
  obtain r M1 rs1 where s: "sectors_do (default_disk ctx) S x M = (r, M1)"
    "sectors_run (default_disk ctx) S xs M1 = (rs1, M')" "rs = r # rs1"
    using Cons.prems(4) by (auto split: prod.splits)
  obtain ctx1 where c: "handler_do ops K x ctx = (r, ctx1)" "drives_hold ops S M1 ctx1"
      "default_disk ctx1 = default_disk ctx"
    using handler_do_sim [OF Cons.prems(1) _ Cons.prems(3) s(1)] Cons.prems(2) by auto
  obtain ctx2 where "handler_run ops K xs ctx1 = (rs1, ctx2)" "drives_hold ops S M' ctx2"
      "default_disk ctx2 = default_disk ctx"
    using Cons.IH [OF c(2) _ Cons.prems(3)] Cons.prems(2) s(2) c(3) by auto
  with c s show ?case by simp
qed auto

text \<open>Two drives, in the slots 2 and 3, the default slot empty.\<close>

definition ram_ctx2 :: "bytes fatfs_ctx" where
  "ram_ctx2 = \<lparr>drives = replicate 2 None @ Some ram_handle # Some ram_handle # replicate 11 None,
     default_disk = 0\<rparr>"

definition ram_slots :: "bytes slot_table" where
  "ram_slots j = (if j = 2 \<or> j = 3 then Some (ram_spec, 4) else None)"

lemma ram_ctx2_hold: "drives_hold ram_ops ram_slots (\<lambda>_. osd_view ram_spec ram_osd) ram_ctx2"
proof -
  have "slot_holds ram_ops (ram_slots j) (osd_view ram_spec ram_osd) (drives ram_ctx2 ! j)" if "j < 15" for j
    using that ram_osd_inv
    by (auto simp: slot_holds_def ram_slots_def ram_ctx2_def ram_handle_def nth_append nth_Cons split: nat.splits)
  then show ?thesis by (simp add: drives_hold_def drive_slots_def) (simp add: ram_ctx2_def)
qed

theorem drives_refine_sectors_witness:
  "\<exists>ctx'. handler_run ram_ops ram_consts
       [WriteSectors 2 [1, 2, 3, 4] 1 1, ReadSectors 3 [0, 0, 0, 0] 1 1, SyncDrive 2, ReadSectors 2 [0, 0, 0, 0] 1 1,
        ReadSectors 0 [5] 0 1] ram_ctx2
     = ([(Ret RES_OK, []), (Ret RES_OK, [7, 7, 7, 7]), (Ret RES_OK, []), (Ret RES_OK, [1, 2, 3, 4]),
         (Ret RES_NOTRDY, [5])], ctx')"
proof -
  let ?xs = "[WriteSectors 2 [1, 2, 3, 4] 1 1, ReadSectors 3 [0, 0, 0, 0] 1 1, SyncDrive 2,
    ReadSectors 2 [0, 0, 0, 0] 1 1, ReadSectors 0 [5] 0 1]"
  have d: "default_disk ram_ctx2 = 0" by (simp add: ram_ctx2_def)
  have fits: "\<forall>x \<in> set ?xs. req_fits (default_disk ram_ctx2) ram_slots x"
    by (simp add: slot_def ram_slots_def drive_slots_def d)
  obtain rs M' where s: "sectors_run (default_disk ram_ctx2) ram_slots ?xs (\<lambda>_. osd_view ram_spec ram_osd) = (rs, M')"
    by fastforce
  have "rs = [(Ret RES_OK, []), (Ret RES_OK, [7, 7, 7, 7]), (Ret RES_OK, []), (Ret RES_OK, [1, 2, 3, 4]),
      (Ret RES_NOTRDY, [5])]"
    using s by (auto simp: slot_def ram_slots_def drive_slots_def d ram_osd_view overwrite_def upt_rec)
  with drives_refine_sectors [OF ram_ctx2_hold fits _ s, of ram_consts] show ?thesis
    by (auto simp: ram_consts_def)
qed

end
