(* ===== verification/IdStore.thy ===== *)
theory IdStore
  imports ErrCodes FsTypes
begin

text \<open>
  \<open>src/capi_helpers/idstore.rs\<close>: the table that gives C clients numeric ids for open files and
  directories. The crate \<open>fatfs\<close> is a parameter (the record \<open>fat_crate\<close>): its objects are
  handles of types \<open>'fs\<close>, \<open>'f\<close> and \<open>'d\<close>, and their mutable state, the disk included, is the
  world \<open>'w\<close> that every call threads.
\<close>

section \<open>The crate\<close>

record ('w, 'fs, 'f, 'd, 'it) fat_crate =
  fc_root_dir :: "'fs \<Rightarrow> 'd"
  fc_open_file :: "'d \<Rightarrow> rstr \<Rightarrow> 'w \<Rightarrow> (io_error + 'f) \<times> 'w"
  fc_open_dir :: "'d \<Rightarrow> rstr \<Rightarrow> 'w \<Rightarrow> (io_error + 'd) \<times> 'w"
  fc_create_file :: "'d \<Rightarrow> rstr \<Rightarrow> 'w \<Rightarrow> (io_error + 'f) \<times> 'w"
  fc_create_dir :: "'d \<Rightarrow> rstr \<Rightarrow> 'w \<Rightarrow> (io_error + 'd) \<times> 'w"
  fc_remove :: "'d \<Rightarrow> rstr \<Rightarrow> 'w \<Rightarrow> (io_error + unit) \<times> 'w"
  fc_stats :: "'fs \<Rightarrow> 'w \<Rightarrow> (io_error + (u32 \<times> u32 \<times> u32)) \<times> 'w"
  fc_read :: "'f \<Rightarrow> bytes \<Rightarrow> 'w \<Rightarrow> (io_error + usize) \<times> bytes \<times> 'f \<times> 'w"
  fc_write :: "'f \<Rightarrow> bytes \<Rightarrow> 'w \<Rightarrow> (io_error + usize) \<times> 'f \<times> 'w"
  fc_seek :: "'f \<Rightarrow> seek_from \<Rightarrow> 'w \<Rightarrow> (io_error + u64) \<times> 'f \<times> 'w"
  fc_flush :: "'f \<Rightarrow> 'w \<Rightarrow> (io_error + unit) \<times> 'f \<times> 'w"
  fc_truncate :: "'f \<Rightarrow> 'w \<Rightarrow> (io_error + unit) \<times> 'f \<times> 'w"
  fc_drop_file :: "'f \<Rightarrow> 'w \<Rightarrow> 'w"
  fc_drop_dir :: "'d \<Rightarrow> 'w \<Rightarrow> 'w"
  fc_drop_fs :: "'fs \<Rightarrow> 'w \<Rightarrow> 'w"
  fc_iter :: "'d \<Rightarrow> 'it"
  fc_next :: "'it \<Rightarrow> 'w \<Rightarrow> (io_error + fat_dirent) option \<times> 'it \<times> 'w"

text \<open>
  A root directory has no directory entry that a drop would write back: where a call makes one as
  a temporary its drop is left out, except in \<open>stat_path\<close>, which drops what it opened before it
  goes on.
\<close>

section \<open>A global pointer behind a mutex\<close>

text \<open>
  The statics of \<open>usbfs.rs\<close> hold an address, 0 when nothing is there; a panic while one is
  locked poisons it, and from then on \<open>lock\<close> is an error.
\<close>

record 'a cell =
  cell_ptr :: "'a option"
  poisoned :: bool

definition get_cell :: "'a cell \<Rightarrow> u32 + 'a" where
  "get_cell c =
     (if poisoned c then Inl (poison_error_map ())
      else case cell_ptr c of
        Some r \<Rightarrow> Inr r
      | None \<Rightarrow> Inl NX_FATDRIVE_ERR_NOT_INITIALIZED)"

section \<open>The store\<close>

record dir_entry_info =
  dei_name :: rstr
  dei_type :: u64
  dei_size :: u64

record ('f, 'd) id_store =
  next_id :: u64
  dir_handle_map :: "(u64, 'd) hashmap"
  dir_name_map :: "(u64, rstr) hashmap"
  dir_iter_map :: "(u64, u64) hashmap"
  file_handle_map :: "(u64, 'f) hashmap"
  file_name_map :: "(u64, rstr) hashmap"

definition DT_DIR :: u64 where "DT_DIR = 0x4"
definition DT_REG :: u64 where "DT_REG = 0x1"

definition store_new :: "('f, 'd) id_store" where
  "store_new = \<lparr>next_id = 0, dir_handle_map = [], dir_name_map = [], dir_iter_map = [],
     file_handle_map = [], file_name_map = []\<rparr>"

definition has_file :: "('f, 'd) id_store \<Rightarrow> rstr \<Rightarrow> u64 option" where
  "has_file st path = hm_find_value path (file_name_map st)"

definition has_dir :: "('f, 'd) id_store \<Rightarrow> rstr \<Rightarrow> u64 option" where
  "has_dir st path = hm_find_value path (dir_name_map st)"

definition id_after :: "u64 \<Rightarrow> u64" where
  "id_after i = (if i = - 1 then 0 else i + 1)"

text \<open>An insertion over a used id drops the handle it replaces.\<close>

definition drop_old :: "('h \<Rightarrow> 'w \<Rightarrow> 'w) \<Rightarrow> 'h option \<Rightarrow> 'w \<Rightarrow> 'w" where
  "drop_old dropper old w = (case old of None \<Rightarrow> w | Some h \<Rightarrow> dropper h w)"

definition insert_file ::
  "('w, 'fs, 'f, 'd, 'it) fat_crate \<Rightarrow> rstr \<Rightarrow> 'f \<Rightarrow> ('f, 'd) id_store \<Rightarrow> 'w \<Rightarrow> u64 \<times> ('f, 'd) id_store \<times> 'w" where
  "insert_file C path fl st w =
     (let i = next_id st in
      (i, st\<lparr>next_id := id_after i,
             file_handle_map := hm_insert i fl (file_handle_map st),
             file_name_map := hm_insert i path (file_name_map st)\<rparr>,
       drop_old (fc_drop_file C) (hm_get i (file_handle_map st)) w))"

definition insert_dir ::
  "('w, 'fs, 'f, 'd, 'it) fat_crate \<Rightarrow> rstr \<Rightarrow> 'd \<Rightarrow> ('f, 'd) id_store \<Rightarrow> 'w \<Rightarrow> u64 \<times> ('f, 'd) id_store \<times> 'w" where
  "insert_dir C path dir st w =
     (let i = next_id st in
      (i, st\<lparr>next_id := id_after i,
             dir_handle_map := hm_insert i dir (dir_handle_map st),
             dir_name_map := hm_insert i path (dir_name_map st),
             dir_iter_map := hm_insert i 0 (dir_iter_map st)\<rparr>,
       drop_old (fc_drop_dir C) (hm_get i (dir_handle_map st)) w))"

definition store_open_file ::
  "('w, 'fs, 'f, 'd, 'it) fat_crate \<Rightarrow> 'fs cell \<Rightarrow> rstr \<Rightarrow> ('f, 'd) id_store \<Rightarrow> 'w
     \<Rightarrow> (u32 + u64) \<times> ('f, 'd) id_store \<times> 'w" where
  "store_open_file C fsc path st w =
     (case has_file st path of
        Some existing \<Rightarrow> (Inr existing, st, w)
      | None \<Rightarrow>
        (case get_cell fsc of
           Inl e \<Rightarrow> (Inl e, st, w)
         | Inr fs \<Rightarrow>
           (case fc_open_file C (fc_root_dir C fs) path w of
              (Inl e, w1) \<Rightarrow> (Inl (io_error_map e), st, w1)
            | (Inr new_fl, w1) \<Rightarrow>
                (case insert_file C path new_fl st w1 of (i, st1, w2) \<Rightarrow> (Inr i, st1, w2)))))"

definition store_open_dir ::
  "('w, 'fs, 'f, 'd, 'it) fat_crate \<Rightarrow> 'fs cell \<Rightarrow> rstr \<Rightarrow> ('f, 'd) id_store \<Rightarrow> 'w
     \<Rightarrow> (u32 + u64) \<times> ('f, 'd) id_store \<times> 'w" where
  "store_open_dir C fsc path st w =
     (case has_dir st path of
        Some existing \<Rightarrow> (Inr existing, st, w)
      | None \<Rightarrow>
        (case get_cell fsc of
           Inl e \<Rightarrow> (Inl e, st, w)
         | Inr fs \<Rightarrow>
           (case (if path = [0x2F] \<or> path = [] then (Inr (fc_root_dir C fs), w)
                  else fc_open_dir C (fc_root_dir C fs) path w) of
              (Inl e, w1) \<Rightarrow> (Inl (io_error_map e), st, w1)
            | (Inr new_dir, w1) \<Rightarrow>
                (case insert_dir C path new_dir st w1 of (i, st1, w2) \<Rightarrow> (Inr i, st1, w2)))))"

text \<open>The handle leaves the map before the flush and is dropped on both paths.\<close>

definition store_close_file ::
  "('w, 'fs, 'f, 'd, 'it) fat_crate \<Rightarrow> u64 \<Rightarrow> ('f, 'd) id_store \<Rightarrow> 'w
     \<Rightarrow> (u32 + unit) \<times> ('f, 'd) id_store \<times> 'w" where
  "store_close_file C i st w =
     (case hm_get i (file_handle_map st) of
        None \<Rightarrow> (Inl NX_FATDRIVE_ERR_FILE_NOT_FOUND, st, w)
      | Some f \<Rightarrow>
        (let st1 = st\<lparr>file_handle_map := hm_remove i (file_handle_map st)\<rparr> in
         case fc_flush C f w of
           (Inl e, f1, w1) \<Rightarrow> (Inl (io_error_map e), st1, fc_drop_file C f1 w1)
         | (Inr _, f1, w1) \<Rightarrow>
             (Inr (), st1\<lparr>file_name_map := hm_remove i (file_name_map st)\<rparr>, fc_drop_file C f1 w1)))"

definition store_close_dir ::
  "('w, 'fs, 'f, 'd, 'it) fat_crate \<Rightarrow> u64 \<Rightarrow> ('f, 'd) id_store \<Rightarrow> 'w
     \<Rightarrow> (u32 + unit) \<times> ('f, 'd) id_store \<times> 'w" where
  "store_close_dir C i st w =
     (case hm_get i (dir_handle_map st) of
        None \<Rightarrow> (Inl NX_FATDRIVE_ERR_FILE_NOT_FOUND, st, w)
      | Some d \<Rightarrow>
        (Inr (), st\<lparr>dir_handle_map := hm_remove i (dir_handle_map st),
                    dir_name_map := hm_remove i (dir_name_map st),
                    dir_iter_map := hm_remove i (dir_iter_map st)\<rparr>, fc_drop_dir C d w))"

definition get_file_handle :: "('f, 'd) id_store \<Rightarrow> u64 \<Rightarrow> u32 + 'f" where
  "get_file_handle st i =
     (case hm_get i (file_handle_map st) of
        Some f \<Rightarrow> Inr f
      | None \<Rightarrow> Inl NX_FATDRIVE_ERR_FILE_NOT_FOUND)"

text \<open>What a caller of \<open>get_file_handle\<close> does to the borrowed handle.\<close>

definition set_file_handle :: "u64 \<Rightarrow> 'f \<Rightarrow> ('f, 'd) id_store \<Rightarrow> ('f, 'd) id_store" where
  "set_file_handle i f st = st\<lparr>file_handle_map := hm_insert i f (file_handle_map st)\<rparr>"

section \<open>Directory entries\<close>

text \<open>\<open>iter.skip(n).next()\<close>: errors count as items, and the end ends the skipping.\<close>

fun iter_nth :: "('w, 'fs, 'f, 'd, 'it) fat_crate \<Rightarrow> nat \<Rightarrow> 'it \<Rightarrow> 'w
    \<Rightarrow> (io_error + fat_dirent) option \<times> 'w" where
  "iter_nth C 0 it w = (case fc_next C it w of (r, it1, w1) \<Rightarrow> (r, w1))"
| "iter_nth C (Suc n) it w =
     (case fc_next C it w of
        (None, it1, w1) \<Rightarrow> (None, w1)
      | (Some _, it1, w1) \<Rightarrow> iter_nth C n it1 w1)"

definition entry_info :: "fat_dirent \<Rightarrow> dir_entry_info" where
  "entry_info ent = \<lparr>dei_name = file_name ent,
     dei_type = (if \<not> attr_directory ent then DT_REG else DT_DIR), dei_size = ent_len ent\<rparr>"

definition read_next_dirent ::
  "('w, 'fs, 'f, 'd, 'it) fat_crate \<Rightarrow> u64 \<Rightarrow> ('f, 'd) id_store \<Rightarrow> 'w
     \<Rightarrow> (u32 + dir_entry_info option) \<times> ('f, 'd) id_store \<times> 'w" where
  "read_next_dirent C i st w =
     (case hm_get i (dir_handle_map st) of
        None \<Rightarrow> (Inl NX_FATDRIVE_ERR_FILE_NOT_FOUND, st, w)
      | Some dir \<Rightarrow>
        (case hm_get i (dir_iter_map st) of
           None \<Rightarrow> (Inl NX_FATDRIVE_ERR_UNKNOWN, st, w)
         | Some idx \<Rightarrow>
           (let st1 = st\<lparr>dir_iter_map := hm_insert i (idx + 1) (dir_iter_map st)\<rparr> in
            case iter_nth C (unat idx) (fc_iter C dir) w of
              (None, w1) \<Rightarrow> (Inr None, st1, w1)
            | (Some (Inl e), w1) \<Rightarrow> (Inl (io_error_map e), st1, w1)
            | (Some (Inr ent), w1) \<Rightarrow> (Inr (Some (entry_info ent)), st1, w1))))"

definition get_path_for_id :: "('f, 'd) id_store \<Rightarrow> u64 \<Rightarrow> u32 + rstr" where
  "get_path_for_id st i =
     (case hm_get i (file_name_map st) of
        Some p \<Rightarrow> Inr p
      | None \<Rightarrow> (case hm_get i (dir_name_map st) of
           Some p \<Rightarrow> Inr p
         | None \<Rightarrow> Inl NX_FATDRIVE_ERR_FILE_NOT_FOUND))"

section \<open>Looking a path up\<close>

definition slash :: u8 where "slash = 0x2F"

text \<open>\<open>replace("//", "/")\<close>, left to right and not overlapping.\<close>

fun replace_slashes :: "rstr \<Rightarrow> rstr" where
  "replace_slashes (a # b # s) =
     (if a = slash \<and> b = slash then slash # replace_slashes s else a # replace_slashes (b # s))"
| "replace_slashes s = s"

definition trim_end_slashes :: "rstr \<Rightarrow> rstr" where
  "trim_end_slashes s = rev (dropWhile (\<lambda>b. b = slash) (rev s))"

text \<open>\<open>rsplitn(2, '/')\<close>: the part after the last slash, and what is before it, if there is one.\<close>

definition rsplit_slash :: "rstr \<Rightarrow> rstr \<times> rstr option" where
  "rsplit_slash s =
     (let ent_name = rev (takeWhile (\<lambda>b. b \<noteq> slash) (rev s)) in
      (ent_name, if slash \<in> set s then Some (take (length s - length ent_name - 1) s) else None))"

partial_function (option) find_entry ::
  "('w, 'fs, 'f, 'd, 'it) fat_crate \<Rightarrow> rstr \<Rightarrow> 'it \<Rightarrow> 'w \<Rightarrow> ((u32 + (u64 \<times> u64)) \<times> 'w) option" where
  "find_entry C ent_name it w =
     (case fc_next C it w of
        (None, it1, w1) \<Rightarrow> Some (Inl NX_FATDRIVE_ERR_FILE_NOT_FOUND, w1)
      | (Some (Inl e), it1, w1) \<Rightarrow> Some (Inl (io_error_map e), w1)
      | (Some (Inr ent), it1, w1) \<Rightarrow>
          if trim_end_slashes (file_name ent) \<noteq> ent_name then find_entry C ent_name it1 w1
          else Some (Inr (ent_len ent, ucast (attr_bits ent)), w1))"

text \<open>
  The directories opened for the search are temporaries of the statement that makes the iterator:
  they are dropped before it is asked for an entry. \<open>None\<close>: the search does not end, because the
  iterator of the crate does not.
\<close>

definition stat_path ::
  "('w, 'fs, 'f, 'd, 'it) fat_crate \<Rightarrow> 'fs cell \<Rightarrow> rstr \<Rightarrow> ('f, 'd) id_store \<Rightarrow> 'w
     \<Rightarrow> ((u32 + (u64 \<times> u64)) \<times> 'w) option" where
  "stat_path C fsc path st w =
     (let stripped_path = trim_end_slashes (replace_slashes path) in
      case rsplit_slash stripped_path of
        (ent_name, parent_name) \<Rightarrow>
          (case Option.bind parent_name (has_dir st) of
             Some i \<Rightarrow>
               (case hm_get i (dir_handle_map st) of
                  Some h \<Rightarrow> find_entry C ent_name (fc_iter C h) w
                | None \<Rightarrow> Some (Inl NX_FATDRIVE_ERR_UNKNOWN, w))
           | None \<Rightarrow>
               (case get_cell fsc of
                  Inl e \<Rightarrow> Some (Inl (u32_map e), w)
                | Inr fs \<Rightarrow>
                    (let root = fc_root_dir C fs in
                     case parent_name of
                       Some (b # nm) \<Rightarrow>
                         (case fc_open_dir C root (b # nm) w of
                            (Inl e, w1) \<Rightarrow> Some (Inl (io_error_map e), fc_drop_dir C root w1)
                          | (Inr d, w1) \<Rightarrow>
                              find_entry C ent_name (fc_iter C d) (fc_drop_dir C root (fc_drop_dir C d w1)))
                     | _ \<Rightarrow> find_entry C ent_name (fc_iter C root) (fc_drop_dir C root w)))))"

end
