(* ===== verification/UsbComm.thy ===== *)
theory UsbComm
  imports VecBuffer AlignedSlice
begin

text \<open>
  \<open>src/usb_comm.rs\<close>: the USB client under the SCSI layer. It selects the bulk endpoints of
  an interface, and moves whole buffers through a page-aligned shim. The sessions of
  libnx are parameters: \<open>ep_read\<close> fills the slice it is given, \<open>ep_write\<close> sends it.
\<close>

section \<open>Selecting the endpoints\<close>

datatype endpoint_direction = IN | OUT

record endpoint_desc =
  ep_address :: u8
  ep_direction :: endpoint_direction

record class_desc =
  class_of :: u8
  subclass_of :: u8
  protocol_of :: u8

record usb_interface =
  device_desc :: class_desc
  interface_desc :: class_desc
  input_endpoint_descs :: "endpoint_desc list"
  output_endpoint_descs :: "endpoint_desc list"

text \<open>The messages the code passes to \<open>LibnxError::from_msg\<close>.\<close>

datatype libnx_msg =
    NotScsiBulkOnly
  | NoOutputEndpoint
  | NoInputEndpoint
  | ReadEpProblem u8 endpoint_direction
  | WriteEpProblem u8 endpoint_direction
  | AllocationReturnedNull

definition retrieve_iface_endpoints ::
  "(libnx_msg \<Rightarrow> 'e) \<Rightarrow> usb_interface \<Rightarrow> 'e + (endpoint_desc \<times> endpoint_desc)" where
  "retrieve_iface_endpoints from_msg i =
     (let has_valid_class = class_of (device_desc i) = 8 \<or> class_of (interface_desc i) = 8;
          has_valid_subclass = subclass_of (device_desc i) = 6 \<or> subclass_of (interface_desc i) = 6;
          has_valid_protocol = protocol_of (device_desc i) = 80 \<or> protocol_of (interface_desc i) = 80
      in if \<not> (has_valid_class \<and> has_valid_subclass \<and> has_valid_protocol)
         then Inl (from_msg NotScsiBulkOnly)
         else case input_endpoint_descs i of
           [] \<Rightarrow> Inl (from_msg NoOutputEndpoint)
         | write_ep # _ \<Rightarrow>
             (case output_endpoint_descs i of
                [] \<Rightarrow> Inl (from_msg NoInputEndpoint)
              | read_ep # _ \<Rightarrow>
                  if ep_address read_ep AND 0x80 = 0 \<or> ep_direction read_ep \<noteq> IN
                  then Inl (from_msg (ReadEpProblem (ep_address read_ep) (ep_direction read_ep)))
                  else if ep_address write_ep AND 0x80 \<noteq> 0 \<or> ep_direction write_ep \<noteq> OUT
                  then Inl (from_msg (WriteEpProblem (ep_address write_ep) (ep_direction write_ep)))
                  else Inr (read_ep, write_ep)))"

section \<open>The client\<close>

record ('h, 'ep) usb_client =
  device_handle :: 'h
  read_endpoint :: 'ep
  write_endpoint :: 'ep

record ('h, 'ep, 'e) usb_api =
  open_endpoint :: "'h \<Rightarrow> endpoint_desc \<Rightarrow> ('e + 'ep) \<times> 'h"
  ep_read :: "'ep \<Rightarrow> bytes \<Rightarrow> ('e + usize) \<times> 'ep \<times> bytes"
  ep_write :: "'ep \<Rightarrow> bytes \<Rightarrow> ('e + usize) \<times> 'ep"
  handle_is_connected :: "'h \<Rightarrow> 'e + bool"
  alloc_ok :: "layout \<Rightarrow> bool"
  from_msg :: "libnx_msg \<Rightarrow> 'e"

definition usb_client_new ::
  "('h, 'ep, 'e) usb_api \<Rightarrow> 'h \<Rightarrow> endpoint_desc \<Rightarrow> endpoint_desc \<Rightarrow> 'e + ('h, 'ep) usb_client" where
  "usb_client_new api h read_ep write_ep =
     (case open_endpoint api h read_ep of
        (Inl e, _) \<Rightarrow> Inl e
      | (Inr read_handle, h1) \<Rightarrow>
          (case open_endpoint api h1 write_ep of
             (Inl e, _) \<Rightarrow> Inl e
           | (Inr write_handle, h2) \<Rightarrow>
               Inr \<lparr>device_handle = h2, read_endpoint = read_handle, write_endpoint = write_handle\<rparr>))"

text \<open>\<open>acquire\<close> is \<open>UsbHsContext::acquire_interface\<close>.\<close>

definition from_interface ::
  "('h, 'ep, 'e) usb_api \<Rightarrow> ('c \<Rightarrow> usb_interface \<Rightarrow> ('e + 'h) \<times> 'c) \<Rightarrow> 'c \<Rightarrow> usb_interface
     \<Rightarrow> ('e + ('h, 'ep) usb_client) \<times> 'c" where
  "from_interface api acquire ctx iface =
     (case retrieve_iface_endpoints (from_msg api) iface of
        Inl e \<Rightarrow> (Inl e, ctx)
      | Inr (read_ep, write_ep) \<Rightarrow>
          (case acquire ctx iface of
             (Inl e, ctx1) \<Rightarrow> (Inl e, ctx1)
           | (Inr session, ctx1) \<Rightarrow> (usb_client_new api session read_ep write_ep, ctx1)))"

definition is_connected :: "('h, 'ep, 'e) usb_api \<Rightarrow> ('h, 'ep) usb_client \<Rightarrow> bool" where
  "is_connected api c = (case handle_is_connected api (device_handle c) of Inr b \<Rightarrow> b | Inl _ \<Rightarrow> False)"

text \<open>The error strings of the two byte movers.\<close>

datatype 'e usb_msg =
    ReadSizeZero | WriteSizeZero | AlignmentIncorrect usize | ReadError 'e | WriteError 'e

text \<open>
  The shim of the two movers comes from \<open>from_layout\<close>, so its slice is its memory; a slice
  outside the allocation would be undefined behaviour and is treated as a panic.
\<close>

definition pull_bytes ::
  "('h, 'ep, 'e) usb_api \<Rightarrow> ('h, 'ep) usb_client \<Rightarrow> aligned_buffer
     \<Rightarrow> ('e usb_msg + usize) exec \<times> ('h, 'ep) usb_client \<times> aligned_buffer" where
  "pull_bytes api c buffer =
     (if abuf_size buffer = 0 then (Err ReadSizeZero, c, buffer)
      else if abuf_alignment buffer \<noteq> 0x1000
        then (Err (AlignmentIncorrect (abuf_alignment buffer)), c, buffer)
      else case as_slice buffer of
        None \<Rightarrow> (Panic, c, buffer)
      | Some sl \<Rightarrow>
          (case ep_read api (read_endpoint c) sl of
             (r, ep, sl') \<Rightarrow>
               (Ret (map_err ReadError r), c\<lparr>read_endpoint := ep\<rparr>,
                buffer\<lparr>raw_mem := sl' @ drop (length sl') (raw_mem buffer)\<rparr>)))"

definition push_bytes ::
  "('h, 'ep, 'e) usb_api \<Rightarrow> ('h, 'ep) usb_client \<Rightarrow> aligned_buffer
     \<Rightarrow> ('e usb_msg + usize) exec \<times> ('h, 'ep) usb_client" where
  "push_bytes api c buffer =
     (if abuf_size buffer = 0 then (Err WriteSizeZero, c)
      else if abuf_alignment buffer \<noteq> 0x1000
        then (Err (AlignmentIncorrect (abuf_alignment buffer)), c)
      else case as_slice buffer of
        None \<Rightarrow> (Panic, c)
      | Some sl \<Rightarrow>
          (case ep_write api (write_endpoint c) sl of
             (r, ep) \<Rightarrow> (Ret (map_err WriteError r), c\<lparr>write_endpoint := ep\<rparr>)))"

section \<open>The transfers of the SCSI channel\<close>

text \<open>
  The loops index a slice whose length bounds them: an index past it panics, so both
  terminate for every implementation of the buffer trait.
\<close>

function fill_loop :: "'b buffer_ops \<Rightarrow> bytes \<Rightarrow> nat \<Rightarrow> 'b \<Rightarrow> unit exec \<times> 'b" where
  "fill_loop B sl idx buffer =
     (if b_size B buffer < b_capacity B buffer
      then if idx < length sl
           then fill_loop B sl (Suc idx) (snd (b_push_byte B buffer (sl ! idx)))
           else (Panic, buffer)
      else (Ret (), buffer))"
  by pat_completeness auto
termination
  by (relation "measure (\<lambda>(B, sl, idx, b). length sl - idx)") auto

function drain_loop ::
  "'b buffer_ops \<Rightarrow> 'b \<Rightarrow> bytes \<Rightarrow> nat \<Rightarrow> (scsi_error + unit) exec \<times> 'b \<times> bytes" where
  "drain_loop B bs mem idx =
     (if 0 < b_size B bs
      then case b_pull_byte B bs of
          (Inl e, bs1) \<Rightarrow> (Err e, bs1, mem)
        | (Inr bt, bs1) \<Rightarrow>
            if idx < length mem then drain_loop B bs1 (mem[idx := bt]) (Suc idx)
            else (Panic, bs1, mem)
      else (Ok (), bs, mem))"
  by pat_completeness auto
termination
  by (relation "measure (\<lambda>(B, b, mem, idx). length mem - idx)") auto

declare fill_loop.simps [simp del] drain_loop.simps [simp del]

definition in_transfer ::
  "'b buffer_ops \<Rightarrow> ('h, 'ep, 'e) usb_api \<Rightarrow> ('h, 'ep) usb_client \<Rightarrow> 'b
     \<Rightarrow> (scsi_error + usize) exec \<times> ('h, 'ep) usb_client \<times> 'b" where
  "in_transfer B api c buffer =
     (let to_get = b_capacity B buffer - b_size B buffer in
      case from_size_align to_get 0x1000 of
        None \<Rightarrow> (Err (FlagError 0xEAFF), c, buffer)
      | Some shim_layout \<Rightarrow>
        (case from_layout (alloc_ok api) (from_msg api AllocationReturnedNull) shim_layout of
           Panic \<Rightarrow> (Panic, c, buffer)
         | Err _ \<Rightarrow> (Err (FlagError 0xEAFE), c, buffer)
         | Ok shim \<Rightarrow>
           (case pull_bytes api c shim of
              (Panic, c1, shim1) \<Rightarrow> (Panic, c1, buffer)
            | (Err _, c1, shim1) \<Rightarrow> (Err (UsbTransferError DirIn), c1, buffer)
            | (Ok rval, c1, shim1) \<Rightarrow>
              (case as_slice shim1 of
                 None \<Rightarrow> (Panic, c1, buffer)
               | Some sl \<Rightarrow>
                 (case fill_loop B sl 0 buffer of
                    (Panic, buffer1) \<Rightarrow> (Panic, c1, buffer1)
                  | (Ret _, buffer1) \<Rightarrow> (Ok rval, c1, buffer1))))))"

definition out_transfer ::
  "'b buffer_ops \<Rightarrow> ('h, 'ep, 'e) usb_api \<Rightarrow> ('h, 'ep) usb_client \<Rightarrow> 'b
     \<Rightarrow> (scsi_error + usize) exec \<times> ('h, 'ep) usb_client \<times> 'b" where
  "out_transfer B api c bs =
     (case from_size_align (b_size B bs) 0x1000 of
        None \<Rightarrow> (Err (FlagError 0xEAFF), c, bs)
      | Some shim_layout \<Rightarrow>
        (case from_layout (alloc_ok api) (from_msg api AllocationReturnedNull) shim_layout of
           Panic \<Rightarrow> (Panic, c, bs)
         | Err _ \<Rightarrow> (Err (FlagError 0xEAFE), c, bs)
         | Ok shim \<Rightarrow>
           (case drain_loop B bs (raw_mem shim) 0 of
              (Panic, bs1, mem) \<Rightarrow> (Panic, c, bs1)
            | (Err e, bs1, mem) \<Rightarrow> (Err e, c, bs1)
            | (Ok _, bs1, mem) \<Rightarrow>
              (case push_bytes api c (shim\<lparr>raw_mem := mem\<rparr>) of
                 (Panic, c1) \<Rightarrow> (Panic, c1, bs1)
               | (Err _, c1) \<Rightarrow> (Err (UsbTransferError DirOut), c1, bs1)
               | (Ok rval, c1) \<Rightarrow> (Ok rval, c1, bs1)))))"

section \<open>What the loops do, for any buffer that keeps the contract\<close>

context scsi_buffer
begin

lemma fill_loop_fills:
  assumes "invar b" "idx \<le> length sl"
    and "length (contents b) + (length sl - idx) = unat (b_capacity ops b)"
  shows "\<exists>b'. fill_loop ops sl idx b = (Ret (), b') \<and> invar b'
    \<and> contents b' = contents b @ drop idx sl \<and> b_capacity ops b' = b_capacity ops b"
  using assms
proof (induction "length sl - idx" arbitrary: idx b)
  case 0
  then have "\<not> b_size ops b < b_capacity ops b"
    by (simp add: size_less_iff)
  with 0 show ?case by (subst fill_loop.simps) simp
next
  case (Suc n)
  let ?b = "snd (b_push_byte ops b (sl ! idx))"
  from Suc.hyps(2) have idx: "idx < length sl" by simp
  with Suc.prems have room: "b_size ops b < b_capacity ops b"
    by (simp add: size_less_iff)
  then have c: "contents ?b = contents b @ [sl ! idx]"
    using push_room [OF Suc.prems(1) room, of "sl ! idx"] by (metis prod.collapse)
  have "\<exists>b'. fill_loop ops sl (Suc idx) ?b = (Ret (), b') \<and> invar b'
      \<and> contents b' = contents ?b @ drop (Suc idx) sl \<and> b_capacity ops b' = b_capacity ops ?b"
    using Suc.prems Suc.hyps(2) idx
    by (intro Suc.hyps(1)) (auto simp: c invar_push capacity_push)
  with room idx show ?case
    by (subst fill_loop.simps) (simp add: c capacity_push Cons_nth_drop_Suc)
qed

lemma drain_loop_drains:
  assumes "invar b" "idx \<le> length mem" "length (contents b) = length mem - idx"
  shows "\<exists>b'. drain_loop ops b mem idx = (Ok (), b', take idx mem @ contents b)
    \<and> invar b' \<and> contents b' = []"
  using assms
proof (induction "contents b" arbitrary: b mem idx)
  case Nil
  then have "\<not> 0 < b_size ops b" by (simp add: size_pos_iff)
  with Nil show ?case by (subst drain_loop.simps) simp
next
  case (Cons x xs)
  from Cons have pos: "0 < b_size ops b" and idx: "idx < length mem"
    by (auto simp: size_pos_iff simp flip: Cons.hyps(2))
  obtain r b1 where p: "b_pull_byte ops b = (r, b1)" by fastforce
  then have r: "r = Inr x" and c: "contents b1 = xs"
    using pull_front [OF Cons.prems(1) Cons.hyps(2) [symmetric]] by auto
  have "invar b1" using invar_pull [OF Cons.prems(1)] p by simp
  moreover have "length xs = length mem - Suc idx"
    using Cons.prems(3) by (simp flip: Cons.hyps(2))
  ultimately have "\<exists>b'. drain_loop ops b1 (mem[idx := x]) (Suc idx)
      = (Ok (), b', take (Suc idx) (mem[idx := x]) @ contents b1) \<and> invar b' \<and> contents b' = []"
    using c idx by (intro Cons.hyps(1)) auto
  with pos idx p r c Cons.hyps(2) show ?case
    by (subst drain_loop.simps)
      (auto simp: take_Suc_conv_app_nth simp flip: Cons.hyps(2))
qed

text \<open>
  A page-aligned shim of \<open>sz\<close> bytes can be built, and is not empty.
\<close>

end

definition shim_ok :: "('h, 'ep, 'e) usb_api \<Rightarrow> usize \<Rightarrow> bool" where
  "shim_ok api sz \<longleftrightarrow> 0 < sz \<and> sz \<le> - 0x1000 \<and> alloc_ok api \<lparr>l_size = sz, l_align = 0x1000\<rparr>"

lemma shim_ok_layout:
  "shim_ok api sz \<Longrightarrow> from_size_align sz 0x1000 = Some \<lparr>l_size = sz, l_align = 0x1000\<rparr>"
  by (simp add: shim_ok_def from_size_align_def is_power_of_two_def)

lemma shim_ok_alloc:
  assumes "shim_ok api sz"
  shows "from_layout (alloc_ok api) e \<lparr>l_size = sz, l_align = 0x1000\<rparr>
    = Ok \<lparr>raw_mem = replicate (unat sz) 0, buf_layout = \<lparr>l_size = sz, l_align = 0x1000\<rparr>\<rparr>"
  using assms
  by (simp add: shim_ok_def from_layout_def aligned_size_raw_def Let_def)

lemma as_slice_shim:
  "length mem = unat sz \<Longrightarrow>
     as_slice \<lparr>raw_mem = mem, buf_layout = \<lparr>l_size = sz, l_align = al\<rparr>\<rparr> = Some mem"
  by (simp add: as_slice_def from_raw_parts_def abuf_size_def)

lemmas shim_simps = shim_ok_layout shim_ok_alloc as_slice_shim abuf_size_def abuf_alignment_def

context scsi_buffer
begin

lemma in_transfer_fills_buffer:
  assumes "invar b" "b_size ops b < b_capacity ops b"
    and ok: "shim_ok api (b_capacity ops b - b_size ops b)"
    and rd: "ep_read api (read_endpoint c)
      (replicate (unat (b_capacity ops b - b_size ops b)) 0) = (Inr n, ep, data)"
    and len: "length data = unat (b_capacity ops b - b_size ops b)"
  shows "\<exists>b'. in_transfer ops api c b = (Ok n, c\<lparr>read_endpoint := ep\<rparr>, b')
    \<and> contents b' = contents b @ data \<and> length (contents b') = unat (b_capacity ops b) \<and> invar b'"
proof -
  have room: "unat (b_capacity ops b - b_size ops b) = unat (b_capacity ops b) - length (contents b)"
    and lt: "length (contents b) < unat (b_capacity ops b)"
    using assms(1,2) by (simp_all add: room_eq flip: size_less_iff)
  obtain b' where f: "fill_loop ops data 0 b = (Ret (), b')" and b': "invar b'"
      "contents b' = contents b @ data"
    using fill_loop_fills [OF assms(1), of 0 data] room lt len by auto
  have "b_capacity ops b \<noteq> b_size ops b"
    using assms(2) by simp
  then have "in_transfer ops api c b = (Ok n, c\<lparr>read_endpoint := ep\<rparr>, b')"
    using ok rd len f
    by (simp add: in_transfer_def Let_def shim_simps pull_bytes_def)
  with b' room lt len show ?thesis by auto
qed

lemma out_transfer_drains_buffer:
  assumes "invar b" "contents b \<noteq> []" and ok: "shim_ok api (b_size ops b)"
    and wr: "ep_write api (write_endpoint c) (contents b) = (r, ep)"
  shows "\<exists>b'. out_transfer ops api c b
      = (Ret (map_err (\<lambda>_. UsbTransferError DirOut) r), c\<lparr>write_endpoint := ep\<rparr>, b')
    \<and> contents b' = [] \<and> invar b'"
proof -
  have len: "unat (b_size ops b) = length (contents b)"
    by (rule size_contents [OF assms(1)])
  let ?shim = "\<lparr>raw_mem = contents b, buf_layout = \<lparr>l_size = b_size ops b, l_align = 0x1000\<rparr>\<rparr>"
  have "\<exists>b'. drain_loop ops b (replicate (unat (b_size ops b)) 0) 0 = (Ok (), b', contents b)
      \<and> invar b' \<and> contents b' = []"
    using drain_loop_drains [OF assms(1), of 0 "replicate (unat (b_size ops b)) 0", simplified]
    unfolding len by blast
  then obtain b' where d: "drain_loop ops b (replicate (unat (b_size ops b)) 0) 0 = (Ok (), b', contents b)"
      and b': "invar b'" "contents b' = []"
    by (elim exE conjE)
  have "b_size ops b \<noteq> 0" using assms(1,2) size_pos_iff by (metis word_greater_zero_iff)
  then have p: "push_bytes api c ?shim = (Ret (map_err WriteError r), c\<lparr>write_endpoint := ep\<rparr>)"
    using wr len by (simp add: push_bytes_def abuf_size_def abuf_alignment_def as_slice_shim)
  have "out_transfer ops api c b
      = (Ret (map_err (\<lambda>_. UsbTransferError DirOut) r), c\<lparr>write_endpoint := ep\<rparr>, b')"
    unfolding out_transfer_def shim_ok_layout [OF ok] option.case shim_ok_alloc [OF ok]
    by (cases r) (simp_all add: d p)
  with b' show ?thesis by blast
qed

end

end
