(* ===== verification/UsbFs.thy ===== *)
theory UsbFs
  imports IdStore UsbComm BufScsi
begin

text \<open>
  \<open>src/capi_helpers/usbfs.rs\<close>, first half: the three global pointers, mounting a drive
  (\<open>usbFsInitialize\<close> with its helpers), unmounting (\<open>usbFsExit\<close>) and the status calls. What
  the sources call of libnx, \<open>scsi\<close>, \<open>mbr_nostd\<close> and \<open>fatfs\<close> is in the record \<open>usb_sys\<close>; the
  outside world is \<open>'w\<close>.
\<close>

section \<open>State\<close>

record ('u, 'info) service_ctx =
  usb_hs_ctx :: 'u
  device_info :: 'info

record ('u, 'info, 'fs, 'f, 'd) globals =
  usb_hs_ctx_ptr :: "('u, 'info) service_ctx cell"
  fs_ptr :: "'fs cell"
  id_store_ptr :: "('f, 'd) id_store cell"

definition null_cell :: "'a cell" where
  "null_cell = \<lparr>cell_ptr = None, poisoned = False\<rparr>"

definition globals_init :: "('u, 'info, 'fs, 'f, 'd) globals" where
  "globals_init = \<lparr>usb_hs_ctx_ptr = null_cell, fs_ptr = null_cell, id_store_ptr = null_cell\<rparr>"

definition set_cell :: "'a option \<Rightarrow> 'a cell \<Rightarrow> 'a cell" where
  "set_cell p c = c\<lparr>cell_ptr := p\<rparr>"

text \<open>Locking, as \<open>err_wrap!\<close> sees it: the code to return, or nothing.\<close>

definition lock_err :: "'a cell \<Rightarrow> u32 option" where
  "lock_err c = (if poisoned c then Some (poison_error_map ()) else None)"

section \<open>The libraries\<close>

record interface_filter =
  if_class :: u8
  if_subclass :: u8
  if_protocol :: u8

record ('w, 'u, 'info, 'evt, 'h, 'ep, 'dev, 'fs) usb_sys =
  us_api :: "('h, 'ep, libnx_error) usb_api"
  us_from_raw :: "u32 \<Rightarrow> libnx_error"
  us_initialize :: "'w \<Rightarrow> (libnx_error + 'u) \<times> 'w"
  us_event_create :: "interface_filter \<Rightarrow> 'w \<Rightarrow> (libnx_error + 'evt) \<times> 'w"
  us_event_wait :: "'evt \<Rightarrow> u64 \<Rightarrow> 'w \<Rightarrow> (libnx_error + unit) \<times> 'w"
  us_query_available :: "'u \<Rightarrow> interface_filter \<Rightarrow> nat \<Rightarrow> 'w \<Rightarrow> (libnx_error + usb_interface list) \<times> 'w"
  us_query_acquired :: "'u \<Rightarrow> nat \<Rightarrow> 'w \<Rightarrow> (libnx_error + usb_interface list) \<times> 'w"
  us_acquire :: "'u \<Rightarrow> usb_interface \<Rightarrow> 'w \<Rightarrow> (libnx_error + 'h) \<times> 'w"
  us_interface :: "'h \<Rightarrow> usb_interface"
  us_info :: "usb_interface \<Rightarrow> 'info"
  us_drop_ctx :: "'u \<Rightarrow> 'w \<Rightarrow> 'w"
  us_new_scsi :: "('h, 'ep) usb_client \<Rightarrow> vec_newtype \<Rightarrow> vec_newtype \<Rightarrow> vec_newtype \<Rightarrow> 'w
     \<Rightarrow> (scsi_error + 'dev) \<times> 'w"
  us_scsi :: "'dev scsi_ops"
  us_parse_mbr :: "bytes \<Rightarrow> mbr_error + partition_entry list"
  us_new_fs :: "'dev offset_scsi \<Rightarrow> 'w \<Rightarrow> (io_error + 'fs) \<times> 'w"
  us_open_log :: "'w \<Rightarrow> bool \<times> 'w"

section \<open>Finding and opening the drive\<close>

definition bulk_only_filter :: interface_filter where
  "bulk_only_filter = \<lparr>if_class = 8, if_subclass = 6, if_protocol = 80\<rparr>"

text \<open>\<open>pop\<close> takes the last interface of the answer.\<close>

definition wait_for_usb_drive ::
  "('w, 'u, 'info, 'evt, 'h, 'ep, 'dev, 'fs) usb_sys \<Rightarrow> 'u \<Rightarrow> u64 \<Rightarrow> 'w \<Rightarrow> (libnx_error + 'h) \<times> 'w" where
  "wait_for_usb_drive U ctx timeout w =
     (case us_event_create U bulk_only_filter w of
        (Inl e, w1) \<Rightarrow> (Inl e, w1)
      | (Inr evt, w1) \<Rightarrow>
        (case us_event_wait U evt timeout w1 of
           (Inl e, w2) \<Rightarrow> (Inl e, w2)
         | (Inr _, w2) \<Rightarrow>
           (case us_query_available U ctx bulk_only_filter 3 w2 of
              (Inl e, w3) \<Rightarrow> (Inl e, w3)
            | (Inr ifaces, w3) \<Rightarrow>
                if ifaces = [] then (Inl (us_from_raw U NX_FATDRIVE_ERR_DRIVE_NOT_FOUND), w3)
                else us_acquire U ctx (last ifaces) w3)))"

definition parse_drive ::
  "('w, 'u, 'info, 'evt, 'h, 'ep, 'dev, 'fs) usb_sys \<Rightarrow> 'h \<Rightarrow> 'w \<Rightarrow> (libnx_error + 'dev) exec \<times> 'w" where
  "parse_drive U session w =
     (case retrieve_iface_endpoints (from_msg (us_api U)) (us_interface U session) of
        Inl e \<Rightarrow> (Err e, w)
      | Inr (read_ep, write_ep) \<Rightarrow>
        (case usb_client_new (us_api U) session read_ep write_ep of
           Inl e \<Rightarrow> (Err e, w)
         | Inr client \<Rightarrow>
           (case vec_new of
              Panic \<Rightarrow> (Panic, w)
            | Ret v \<Rightarrow>
              (case us_new_scsi U client v v v w of
                 (Inl e, w1) \<Rightarrow> (Err (us_from_raw U (scsi_error_map e)), w1)
               | (Inr dev, w1) \<Rightarrow> (Ok dev, w1)))))"

text \<open>
  The loop that fills the boot-sector buffer: each round asks for the block at the byte
  offset already read. It ends only when the device delivers; \<open>None\<close> is the endless loop.
\<close>

partial_function (option) mbr_loop ::
  "'dev scsi_ops \<Rightarrow> 'dev \<Rightarrow> vec_newtype \<Rightarrow> ((scsi_error + unit) \<times> 'dev \<times> vec_newtype) option" where
  "mbr_loop ops dev v =
     (if length (inner v) < 512
      then case op_read ops dev (of_nat (length (inner v))) v of
          (Inl e, dev1, v1) \<Rightarrow> Some (Inl e, dev1, v1)
        | (Inr _, dev1, v1) \<Rightarrow> mbr_loop ops dev1 v1
      else Some (Inr (), dev, v))"

text \<open>The byte offset of the partition is a product of two \<open>u32\<close>, which wraps.\<close>

definition open_partition ::
  "('w, 'u, 'info, 'evt, 'h, 'ep, 'dev, 'fs) usb_sys \<Rightarrow> 'dev \<Rightarrow> nat
     \<Rightarrow> (libnx_error + 'dev offset_scsi) exec option" where
  "open_partition U dev idx =
     (case with_fake_capacity (max 512 (ucast (op_block_size (us_scsi U) dev))) of
        Panic \<Rightarrow> Some Panic
      | Ret mbr_buff \<Rightarrow>
        (case mbr_loop (us_scsi U) dev mbr_buff of
           None \<Rightarrow> None
         | Some (Inl e, _, _) \<Rightarrow> Some (Err (us_from_raw U (scsi_error_map e)))
         | Some (Inr _, dev1, v) \<Rightarrow>
           (case us_parse_mbr U (inner v) of
              Inl e \<Rightarrow> Some (Err (us_from_raw U (mbr_error_map e)))
            | Inr entries \<Rightarrow>
                if idx < length entries
                then let raw_offset = ucast (logical_block_address (entries ! idx)
                           * op_block_size (us_scsi U) dev1) in
                  Some (map_exec Inr (offset_scsi_new (us_scsi U) dev1 raw_offset))
                else Some Panic)))"

section \<open>Mounting\<close>

definition usbFsIsInitialized :: "('u, 'info, 'fs, 'f, 'd) globals \<Rightarrow> u32" where
  "usbFsIsInitialized g =
     (case lock_err (id_store_ptr g) of
        Some e \<Rightarrow> e
      | None \<Rightarrow>
        (case lock_err (usb_hs_ctx_ptr g) of
           Some e \<Rightarrow> e
         | None \<Rightarrow>
           (case lock_err (fs_ptr g) of
              Some e \<Rightarrow> e
            | None \<Rightarrow>
                if cell_ptr (id_store_ptr g) \<noteq> None \<and> cell_ptr (usb_hs_ctx_ptr g) \<noteq> None
                  \<and> cell_ptr (fs_ptr g) \<noteq> None
                then SUCCESS else NX_FATDRIVE_ERR_NOT_INITIALIZED)))"

text \<open>
  The steps after the drive is parsed: each global is set as soon as its object exists, and
  an error later on leaves it set.
\<close>

definition mount_store ::
  "('u, 'info, 'fs, 'f, 'd) globals \<Rightarrow> u32 \<times> ('u, 'info, 'fs, 'f, 'd) globals" where
  "mount_store g =
     (case lock_err (id_store_ptr g) of
        Some e \<Rightarrow> (e, g)
      | None \<Rightarrow> (SUCCESS, g\<lparr>id_store_ptr := set_cell (Some store_new) (id_store_ptr g)\<rparr>))"

definition mount_fs ::
  "('w, 'u, 'info, 'evt, 'h, 'ep, 'dev, 'fs) usb_sys \<Rightarrow> 'dev offset_scsi
     \<Rightarrow> ('u, 'info, 'fs, 'f, 'd) globals \<Rightarrow> 'w \<Rightarrow> u32 \<times> ('u, 'info, 'fs, 'f, 'd) globals \<times> 'w" where
  "mount_fs U part g w =
     (case us_new_fs U part w of
        (Inl e, w1) \<Rightarrow> (io_error_map e, g, w1)
      | (Inr fs, w1) \<Rightarrow>
        (case lock_err (fs_ptr g) of
           Some e \<Rightarrow> (e, g, w1)
         | None \<Rightarrow>
           (case mount_store (g\<lparr>fs_ptr := set_cell (Some fs) (fs_ptr g)\<rparr>) of
              (r, g1) \<Rightarrow> (r, g1, w1))))"

definition mount_device ::
  "('w, 'u, 'info, 'evt, 'h, 'ep, 'dev, 'fs) usb_sys \<Rightarrow> 'u \<Rightarrow> 'h
     \<Rightarrow> ('u, 'info, 'fs, 'f, 'd) globals \<Rightarrow> 'w
     \<Rightarrow> (u32 exec \<times> ('u, 'info, 'fs, 'f, 'd) globals \<times> 'w) option" where
  "mount_device U uctx session g w =
     (let ctx = \<lparr>usb_hs_ctx = uctx, device_info = us_info U (us_interface U session)\<rparr> in
      case parse_drive U session w of
        (Panic, w1) \<Rightarrow> Some (Panic, g, w1)
      | (Err e, w1) \<Rightarrow> Some (Ret (libnx_error_map e), g, us_drop_ctx U uctx w1)
      | (Ok inner_device, w1) \<Rightarrow>
        (case lock_err (usb_hs_ctx_ptr g) of
           Some e \<Rightarrow> Some (Ret e, g, w1)
         | None \<Rightarrow>
           (let g1 = g\<lparr>usb_hs_ctx_ptr := set_cell (Some ctx) (usb_hs_ctx_ptr g)\<rparr> in
            case open_partition U inner_device 0 of
              None \<Rightarrow> None
            | Some Panic \<Rightarrow> Some (Panic, g1, w1)
            | Some (Err e) \<Rightarrow> Some (Ret (libnx_error_map e), g1, w1)
            | Some (Ok part) \<Rightarrow>
                (case mount_fs U part g1 w1 of (r, g2, w2) \<Rightarrow> Some (Ret r, g2, w2)))))"

definition usbFsInitialize ::
  "('w, 'u, 'info, 'evt, 'h, 'ep, 'dev, 'fs) usb_sys
     \<Rightarrow> ('u, 'info, 'fs, 'f, 'd) globals \<Rightarrow> 'w
     \<Rightarrow> (u32 exec \<times> ('u, 'info, 'fs, 'f, 'd) globals \<times> 'w) option" where
  "usbFsInitialize U g w =
     (if usbFsIsInitialized g = 0 then Some (Ret 0, g, w)
      else case us_initialize U w of
        (Inl e, w1) \<Rightarrow> Some (Ret (libnx_error_map e), g, w1)
      | (Inr uctx, w1) \<Rightarrow>
        (case wait_for_usb_drive U uctx 1000 w1 of
           (Inl e, w2) \<Rightarrow> Some (Ret (libnx_error_map e), g, us_drop_ctx U uctx w2)
         | (Inr session, w2) \<Rightarrow> mount_device U uctx session g w2))"

section \<open>Unmounting\<close>

text \<open>Dropping the table drops the directories and then the files, in declaration order.\<close>

definition drop_store ::
  "('w, 'fs, 'f, 'd, 'it) fat_crate \<Rightarrow> ('f, 'd) id_store \<Rightarrow> 'w \<Rightarrow> 'w" where
  "drop_store C st w =
     fold (\<lambda>(i, f). fc_drop_file C f) (file_handle_map st)
       (fold (\<lambda>(i, d). fc_drop_dir C d) (dir_handle_map st) w)"

definition exit_usb ::
  "('w, 'u, 'info, 'evt, 'h, 'ep, 'dev, 'fs) usb_sys
     \<Rightarrow> ('u, 'info, 'fs, 'f, 'd) globals \<Rightarrow> 'w \<Rightarrow> ('u, 'info, 'fs, 'f, 'd) globals \<times> 'w" where
  "exit_usb U g w =
     (if poisoned (usb_hs_ctx_ptr g) then (g, w)
      else case cell_ptr (usb_hs_ctx_ptr g) of
        None \<Rightarrow> (g, w)
      | Some ctx \<Rightarrow> (g\<lparr>usb_hs_ctx_ptr := set_cell None (usb_hs_ctx_ptr g)\<rparr>, us_drop_ctx U (usb_hs_ctx ctx) w))"

definition exit_fs ::
  "('w, 'fs, 'f, 'd, 'it) fat_crate \<Rightarrow> ('w, 'u, 'info, 'evt, 'h, 'ep, 'dev, 'fs) usb_sys
     \<Rightarrow> ('u, 'info, 'fs, 'f, 'd) globals \<Rightarrow> 'w \<Rightarrow> ('u, 'info, 'fs, 'f, 'd) globals \<times> 'w" where
  "exit_fs C U g w =
     (if poisoned (fs_ptr g) then (g, w)
      else case cell_ptr (fs_ptr g) of
        None \<Rightarrow> exit_usb U g w
      | Some fs \<Rightarrow> exit_usb U (g\<lparr>fs_ptr := set_cell None (fs_ptr g)\<rparr>) (fc_drop_fs C fs w))"

text \<open>The log file must open first. What is written to it is left out: the results are ignored.\<close>

definition usbFsExit ::
  "('w, 'fs, 'f, 'd, 'it) fat_crate \<Rightarrow> ('w, 'u, 'info, 'evt, 'h, 'ep, 'dev, 'fs) usb_sys
     \<Rightarrow> ('u, 'info, 'fs, 'f, 'd) globals \<Rightarrow> 'w \<Rightarrow> ('u, 'info, 'fs, 'f, 'd) globals \<times> 'w" where
  "usbFsExit C U g w =
     (case us_open_log U w of
        (False, w1) \<Rightarrow> (g, w1)
      | (True, w1) \<Rightarrow>
          if poisoned (id_store_ptr g) then (g, w1)
          else case cell_ptr (id_store_ptr g) of
            None \<Rightarrow> exit_fs C U g w1
          | Some st \<Rightarrow> exit_fs C U (g\<lparr>id_store_ptr := set_cell None (id_store_ptr g)\<rparr>) (drop_store C st w1))"

section \<open>Status\<close>

definition usbFsIsReady ::
  "('w, 'u, 'info, 'evt, 'h, 'ep, 'dev, 'fs) usb_sys
     \<Rightarrow> ('u, 'info, 'fs, 'f, 'd) globals \<Rightarrow> 'w \<Rightarrow> u32 \<times> 'w" where
  "usbFsIsReady U g w =
     (let has_initted = usbFsIsInitialized g in
      if has_initted \<noteq> SUCCESS then (has_initted, w)
      else case get_cell (usb_hs_ctx_ptr g) of
        Inl e \<Rightarrow> (u32_map e, w)
      | Inr ctx \<Rightarrow>
        (case us_query_acquired U (usb_hs_ctx ctx) 4 w of
           (Inl e, w1) \<Rightarrow> (libnx_error_map e, w1)
         | (Inr ifaces, w1) \<Rightarrow>
             (if \<not> list_ex (\<lambda>iface. us_info U iface = device_info ctx) ifaces
              then NX_FATDRIVE_ERR_DRIVE_DISCONNECTED else SUCCESS, w1)))"

definition usbFsGetMountStatus :: u32 where
  "usbFsGetMountStatus = NX_FATDRIVE_ERR_NOT_IMPLEMENTED"

definition usbFsReadRaw :: u32 where
  "usbFsReadRaw = NX_FATDRIVE_ERR_NOT_IMPLEMENTED"

definition usbFsDeviceUpdate ::
  "('w, 'u, 'info, 'evt, 'h, 'ep, 'dev, 'fs) usb_sys
     \<Rightarrow> ('u, 'info, 'fs, 'f, 'd) globals \<Rightarrow> 'w \<Rightarrow> u32 \<times> 'w" where
  "usbFsDeviceUpdate U g w = usbFsIsReady U g w"

definition usbFsDeviceGetMountStatus ::
  "('w, 'u, 'info, 'evt, 'h, 'ep, 'dev, 'fs) usb_sys
     \<Rightarrow> ('u, 'info, 'fs, 'f, 'd) globals \<Rightarrow> 'w \<Rightarrow> u32 \<times> 'w" where
  "usbFsDeviceGetMountStatus U g w =
     (case usbFsIsReady U g w of (r, w1) \<Rightarrow> (if r \<noteq> 0 then 0 else 1, w1))"

end
