(* ===== verification/UsbFsFiles.thy ===== *)
theory UsbFsFiles
  imports UsbFs
begin

text \<open>
  \<open>src/capi_helpers/usbfs.rs\<close>, second half: the C functions on files and directories. A path
  is the memory its pointer leads to; what a function stores through its out pointers is an
  optional result (\<open>None\<close>: nothing was stored).
\<close>

section \<open>Reaching the globals\<close>

text \<open>
  \<open>get_id_store\<close> followed by work on the borrowed store: the code of the error, or the result
  of the work with the store put back.
\<close>

definition with_store ::
  "('u, 'info, 'fs, 'f, 'd) globals \<Rightarrow> 'w
     \<Rightarrow> (('f, 'd) id_store \<Rightarrow> (u32 \<times> 'o option) \<times> ('f, 'd) id_store \<times> 'w)
     \<Rightarrow> (u32 \<times> 'o option) \<times> ('u, 'info, 'fs, 'f, 'd) globals \<times> 'w" where
  "with_store g w k =
     (case get_cell (id_store_ptr g) of
        Inl e \<Rightarrow> ((u32_map e, None), g, w)
      | Inr st \<Rightarrow>
          (case k st of (r, st1, w1) \<Rightarrow>
             (r, g\<lparr>id_store_ptr := set_cell (Some st1) (id_store_ptr g)\<rparr>, w1)))"

definition with_path :: "bytes \<Rightarrow> (rstr \<Rightarrow> (u32 \<times> 'o option) \<times> 's) \<Rightarrow> 's \<Rightarrow> (u32 \<times> 'o option) \<times> 's" where
  "with_path mem k s =
     (case cstr_to_str mem of
        None \<Rightarrow> ((NX_FATDRIVE_ERR_UNKNOWN, None), s)
      | Some path \<Rightarrow> k path)"

text \<open>The two ways a result of the table or of the crate becomes a code.\<close>

fun code_of :: "u32 + 'o \<Rightarrow> u32 \<times> 'o option" where
  "code_of (Inl e) = (u32_map e, None)"
| "code_of (Inr a) = (SUCCESS, Some a)"

fun io_code_of :: "io_error + 'o \<Rightarrow> u32 \<times> 'o option" where
  "io_code_of (Inl e) = (io_error_map e, None)"
| "io_code_of (Inr a) = (SUCCESS, Some a)"

section \<open>Files\<close>

text \<open>The mode argument is ignored.\<close>

definition usbFsOpenFile ::
  "('w, 'fs, 'f, 'd, 'it) fat_crate \<Rightarrow> bytes \<Rightarrow> u64 \<Rightarrow> ('u, 'info, 'fs, 'f, 'd) globals \<Rightarrow> 'w
     \<Rightarrow> (u32 \<times> u64 option) \<times> ('u, 'info, 'fs, 'f, 'd) globals \<times> 'w" where
  "usbFsOpenFile C filepath mode g w =
     with_path filepath (\<lambda>path. with_store g w (\<lambda>st.
       case store_open_file C (fs_ptr g) path st w of (r, st1, w1) \<Rightarrow> (code_of r, st1, w1))) (g, w)"

definition usbFsCloseFile ::
  "('w, 'fs, 'f, 'd, 'it) fat_crate \<Rightarrow> u64 \<Rightarrow> ('u, 'info, 'fs, 'f, 'd) globals \<Rightarrow> 'w
     \<Rightarrow> (u32 \<times> unit option) \<times> ('u, 'info, 'fs, 'f, 'd) globals \<times> 'w" where
  "usbFsCloseFile C fileid g w = with_store g w (\<lambda>st.
     case store_close_file C fileid st w of (r, st1, w1) \<Rightarrow> (code_of r, st1, w1))"

text \<open>\<open>get_file_handle\<close> and one operation on the borrowed file.\<close>

definition with_file ::
  "u64 \<Rightarrow> 'w \<Rightarrow> ('f \<Rightarrow> (u32 \<times> 'o option) \<times> 'f \<times> 'w) \<Rightarrow> ('f, 'd) id_store
     \<Rightarrow> (u32 \<times> 'o option) \<times> ('f, 'd) id_store \<times> 'w" where
  "with_file fileid w k st =
     (case get_file_handle st fileid of
        Inl e \<Rightarrow> ((u32_map e, None), st, w)
      | Inr f \<Rightarrow> (case k f of (r, f1, w1) \<Rightarrow> (r, set_file_handle fileid f1 st, w1)))"

text \<open>
  \<open>buffer\<close> is the slice of \<open>size\<close> bytes behind the pointer; the result is the count and the
  slice with what was read.
\<close>

definition usbFsReadFile ::
  "('w, 'fs, 'f, 'd, 'it) fat_crate \<Rightarrow> u64 \<Rightarrow> bytes \<Rightarrow> ('u, 'info, 'fs, 'f, 'd) globals \<Rightarrow> 'w
     \<Rightarrow> (u32 \<times> (usize \<times> bytes) option) \<times> ('u, 'info, 'fs, 'f, 'd) globals \<times> 'w" where
  "usbFsReadFile C fileid buffer g w = with_store g w (with_file fileid w (\<lambda>f.
     case fc_read C f buffer w of
       (r, buf1, f1, w1) \<Rightarrow> (io_code_of (map_sum id (\<lambda>sz. (sz, buf1)) r), f1, w1)))"

definition usbFsWriteFile ::
  "('w, 'fs, 'f, 'd, 'it) fat_crate \<Rightarrow> u64 \<Rightarrow> bytes \<Rightarrow> ('u, 'info, 'fs, 'f, 'd) globals \<Rightarrow> 'w
     \<Rightarrow> (u32 \<times> usize option) \<times> ('u, 'info, 'fs, 'f, 'd) globals \<times> 'w" where
  "usbFsWriteFile C fileid buffer g w = with_store g w (with_file fileid w (\<lambda>f.
     case fc_write C f buffer w of (r, f1, w1) \<Rightarrow> (io_code_of r, f1, w1)))"

text \<open>The offset of a relative seek, from its two's-complement form.\<close>

definition seek_rel :: "u64 \<Rightarrow> i64" where
  "seek_rel pos = (if 0x7FFFFFFFFFFFFFFF < pos then - 1 * (- 1 - pos) else pos)"

definition seek_target :: "u64 \<Rightarrow> u64 \<Rightarrow> seek_from option" where
  "seek_target pos whence =
     (if whence = 0 then Some (Start pos)
      else if whence = 1 then Some (Current (seek_rel pos))
      else if whence = 2 then Some (End (seek_rel pos))
      else None)"

definition usbFsSeekFile ::
  "('w, 'fs, 'f, 'd, 'it) fat_crate \<Rightarrow> u64 \<Rightarrow> u64 \<Rightarrow> u64 \<Rightarrow> ('u, 'info, 'fs, 'f, 'd) globals \<Rightarrow> 'w
     \<Rightarrow> (u32 \<times> u64 option) \<times> ('u, 'info, 'fs, 'f, 'd) globals \<times> 'w" where
  "usbFsSeekFile C fileid pos whence g w = with_store g w (with_file fileid w (\<lambda>f.
     case seek_target pos whence of
       None \<Rightarrow> ((push_bit 8 NX_FATDRIVE_ERR_NOT_IMPLEMENTED + NX_FATDRIVE_ERR_MODULE, None), f, w)
     | Some sf \<Rightarrow> (case fc_seek C f sf w of (r, f1, w1) \<Rightarrow> (io_code_of r, f1, w1))))"

definition usbFsSyncFile ::
  "('w, 'fs, 'f, 'd, 'it) fat_crate \<Rightarrow> u64 \<Rightarrow> ('u, 'info, 'fs, 'f, 'd) globals \<Rightarrow> 'w
     \<Rightarrow> (u32 \<times> unit option) \<times> ('u, 'info, 'fs, 'f, 'd) globals \<times> 'w" where
  "usbFsSyncFile C fileid g w = with_store g w (with_file fileid w (\<lambda>f.
     case fc_flush C f w of (r, f1, w1) \<Rightarrow> (io_code_of r, f1, w1)))"

text \<open>The size argument is ignored: the file is cut at its position.\<close>

definition usbFsTruncateFile ::
  "('w, 'fs, 'f, 'd, 'it) fat_crate \<Rightarrow> u64 \<Rightarrow> u64 \<Rightarrow> ('u, 'info, 'fs, 'f, 'd) globals \<Rightarrow> 'w
     \<Rightarrow> (u32 \<times> unit option) \<times> ('u, 'info, 'fs, 'f, 'd) globals \<times> 'w" where
  "usbFsTruncateFile C fileid sz g w = with_store g w (with_file fileid w (\<lambda>f.
     case fc_truncate C f w of (r, f1, w1) \<Rightarrow> (io_code_of r, f1, w1)))"

text \<open>Work in the root directory of the file system.\<close>

definition in_root ::
  "('w, 'fs, 'f, 'd, 'it) fat_crate \<Rightarrow> 'fs cell \<Rightarrow> ('d \<Rightarrow> (io_error + 'o) \<times> 'w) \<Rightarrow> ('f, 'd) id_store \<Rightarrow> 'w
     \<Rightarrow> (u32 \<times> unit option) \<times> ('f, 'd) id_store \<times> 'w" where
  "in_root C fsc k st w =
     (case get_cell fsc of
        Inl e \<Rightarrow> ((u32_map e, None), st, w)
      | Inr fs \<Rightarrow>
          (case k (fc_root_dir C fs) of
             (r, w1) \<Rightarrow> (io_code_of (map_sum id (\<lambda>_. ()) r), st, w1)))"

definition usbFsDeleteFile ::
  "('w, 'fs, 'f, 'd, 'it) fat_crate \<Rightarrow> bytes \<Rightarrow> ('u, 'info, 'fs, 'f, 'd) globals \<Rightarrow> 'w
     \<Rightarrow> (u32 \<times> unit option) \<times> ('u, 'info, 'fs, 'f, 'd) globals \<times> 'w" where
  "usbFsDeleteFile C filepath g w =
     with_path filepath (\<lambda>path. with_store g w (\<lambda>st.
       let remove = (\<lambda>st1 w1. in_root C (fs_ptr g) (\<lambda>root. fc_remove C root path w1) st1 w1) in
       case has_file st path of
         None \<Rightarrow> remove st w
       | Some old_id \<Rightarrow>
           (case store_close_file C old_id st w of
              (Inl e, st1, w1) \<Rightarrow> ((u32_map e, None), st1, w1)
            | (Inr _, st1, w1) \<Rightarrow> remove st1 w1))) (g, w)"

text \<open>\<open>fc_create_file\<close> returns a file, which is dropped.\<close>

definition usbFsCreateFile ::
  "('w, 'fs, 'f, 'd, 'it) fat_crate \<Rightarrow> bytes \<Rightarrow> ('u, 'info, 'fs, 'f, 'd) globals \<Rightarrow> 'w
     \<Rightarrow> (u32 \<times> unit option) \<times> ('u, 'info, 'fs, 'f, 'd) globals \<times> 'w" where
  "usbFsCreateFile C filepath g w =
     with_path filepath (\<lambda>path. with_store g w (\<lambda>st.
       case has_file st path of
         Some old_id \<Rightarrow> ((SUCCESS, Some ()), st, w)
       | None \<Rightarrow> in_root C (fs_ptr g) (\<lambda>root.
           case fc_create_file C root path w of
             (Inl e, w1) \<Rightarrow> (Inl e, w1)
           | (Inr f, w1) \<Rightarrow> (Inr (), fc_drop_file C f w1)) st w)) (g, w)"

section \<open>Status of paths and of the file system\<close>

text \<open>The outer option is the search that does not end.\<close>

definition stat_with ::
  "('w, 'fs, 'f, 'd, 'it) fat_crate \<Rightarrow> rstr \<Rightarrow> ('u, 'info, 'fs, 'f, 'd) globals \<Rightarrow> ('f, 'd) id_store \<Rightarrow> 'w
     \<Rightarrow> ((u32 \<times> (u64 \<times> u64) option) \<times> 'w) option" where
  "stat_with C path g st w =
     map_option (\<lambda>(r, w1). (code_of r, w1)) (stat_path C (fs_ptr g) path st w)"

definition usbFsStatFile ::
  "('w, 'fs, 'f, 'd, 'it) fat_crate \<Rightarrow> u64 \<Rightarrow> ('u, 'info, 'fs, 'f, 'd) globals \<Rightarrow> 'w
     \<Rightarrow> ((u32 \<times> (u64 \<times> u64) option) \<times> 'w) option" where
  "usbFsStatFile C fileid g w =
     (case get_cell (id_store_ptr g) of
        Inl e \<Rightarrow> Some ((u32_map e, None), w)
      | Inr st \<Rightarrow>
          (case get_path_for_id st fileid of
             Inl e \<Rightarrow> Some ((u32_map e, None), w)
           | Inr path \<Rightarrow> stat_with C path g st w))"

definition usbFsStatPath ::
  "('w, 'fs, 'f, 'd, 'it) fat_crate \<Rightarrow> bytes \<Rightarrow> ('u, 'info, 'fs, 'f, 'd) globals \<Rightarrow> 'w
     \<Rightarrow> ((u32 \<times> (u64 \<times> u64) option) \<times> 'w) option" where
  "usbFsStatPath C path_mem g w =
     (case cstr_to_str path_mem of
        None \<Rightarrow> Some ((NX_FATDRIVE_ERR_UNKNOWN, None), w)
      | Some path \<Rightarrow>
          (case get_cell (id_store_ptr g) of
             Inl e \<Rightarrow> Some ((u32_map e, None), w)
           | Inr st \<Rightarrow> stat_with C path g st w))"

definition usbFsStatFilesystem ::
  "('w, 'fs, 'f, 'd, 'it) fat_crate \<Rightarrow> ('u, 'info, 'fs, 'f, 'd) globals \<Rightarrow> 'w
     \<Rightarrow> (u32 \<times> (u64 \<times> u64) option) \<times> 'w" where
  "usbFsStatFilesystem C g w =
     (case get_cell (fs_ptr g) of
        Inl e \<Rightarrow> ((u32_map e, None), w)
      | Inr fs \<Rightarrow>
          (case fc_stats C fs w of
             (Inl e, w1) \<Rightarrow> ((io_error_map e, None), w1)
           | (Inr (csize, ntotal, nfree), w1) \<Rightarrow>
               ((SUCCESS, Some (ucast csize * ucast ntotal, ucast csize * ucast nfree)), w1)))"

section \<open>Directories\<close>

definition usbFsOpenDir ::
  "('w, 'fs, 'f, 'd, 'it) fat_crate \<Rightarrow> bytes \<Rightarrow> ('u, 'info, 'fs, 'f, 'd) globals \<Rightarrow> 'w
     \<Rightarrow> (u32 \<times> u64 option) \<times> ('u, 'info, 'fs, 'f, 'd) globals \<times> 'w" where
  "usbFsOpenDir C dirpath g w =
     with_path dirpath (\<lambda>path. with_store g w (\<lambda>st.
       case store_open_dir C (fs_ptr g) path st w of (r, st1, w1) \<Rightarrow> (code_of r, st1, w1))) (g, w)"

text \<open>
  Storing the name of an entry: \<open>mem\<close> is the caller's buffer, of \<open>namemax\<close> bytes; a write past
  its end is undefined and is \<open>None\<close> here. \<open>namemax - 1\<close> wraps.
\<close>

definition copy_name :: "bytes \<Rightarrow> rstr \<Rightarrow> bytes option" where
  "copy_name mem name =
     (let namemax = of_nat (length mem) :: usize;
          name_len = unat (min (namemax - 1) (of_nat (length name)))
      in if name_len < length mem
         then Some (take name_len name @ [0] @ drop (Suc name_len) mem)
         else None)"

text \<open>Kind, size and buffer of the entry; kind 15 marks the end.\<close>

definition dirent_out :: "bytes \<Rightarrow> dir_entry_info option \<Rightarrow> (u64 \<times> u64 \<times> bytes) option" where
  "dirent_out mem ent =
     (case ent of
        Some e \<Rightarrow> map_option (\<lambda>m. (dei_type e, dei_size e, m)) (copy_name mem (dei_name e))
      | None \<Rightarrow> if mem = [] then None else Some (0xF, 0, mem[0 := 0]))"

text \<open>The outcome is a panic where the stores leave the buffer.\<close>

definition usbFsReadDir ::
  "('w, 'fs, 'f, 'd, 'it) fat_crate \<Rightarrow> u64 \<Rightarrow> bytes \<Rightarrow> ('u, 'info, 'fs, 'f, 'd) globals \<Rightarrow> 'w
     \<Rightarrow> (u32 \<times> (u64 \<times> u64 \<times> bytes) option) exec \<times> ('u, 'info, 'fs, 'f, 'd) globals \<times> 'w" where
  "usbFsReadDir C dirid name_mem g w =
     (case with_store g w (\<lambda>st.
        case read_next_dirent C dirid st w of (r, st1, w1) \<Rightarrow> (code_of r, st1, w1)) of
        ((c, None), g1, w1) \<Rightarrow> (Ret (c, None), g1, w1)
      | ((c, Some ent), g1, w1) \<Rightarrow>
          (case dirent_out name_mem ent of
             None \<Rightarrow> (Panic, g1, w1)
           | Some out \<Rightarrow> (Ret (SUCCESS, Some out), g1, w1)))"

definition usbFsCloseDir ::
  "('w, 'fs, 'f, 'd, 'it) fat_crate \<Rightarrow> u64 \<Rightarrow> ('u, 'info, 'fs, 'f, 'd) globals \<Rightarrow> 'w
     \<Rightarrow> (u32 \<times> unit option) \<times> ('u, 'info, 'fs, 'f, 'd) globals \<times> 'w" where
  "usbFsCloseDir C dirid g w = with_store g w (\<lambda>st.
     case store_close_dir C dirid st w of (r, st1, w1) \<Rightarrow> (code_of r, st1, w1))"

definition usbFsCreateDir ::
  "('w, 'fs, 'f, 'd, 'it) fat_crate \<Rightarrow> bytes \<Rightarrow> ('u, 'info, 'fs, 'f, 'd) globals \<Rightarrow> 'w
     \<Rightarrow> (u32 \<times> unit option) \<times> ('u, 'info, 'fs, 'f, 'd) globals \<times> 'w" where
  "usbFsCreateDir C dirpath g w =
     with_path dirpath (\<lambda>path. with_store g w (\<lambda>st.
       case has_dir st path of
         Some old_id \<Rightarrow> ((SUCCESS, Some ()), st, w)
       | None \<Rightarrow> in_root C (fs_ptr g) (\<lambda>root.
           case fc_create_dir C root path w of
             (Inl e, w1) \<Rightarrow> (Inl e, w1)
           | (Inr d, w1) \<Rightarrow> (Inr (), fc_drop_dir C d w1)) st w)) (g, w)"

definition usbFsDeleteDir ::
  "('w, 'fs, 'f, 'd, 'it) fat_crate \<Rightarrow> bytes \<Rightarrow> ('u, 'info, 'fs, 'f, 'd) globals \<Rightarrow> 'w
     \<Rightarrow> (u32 \<times> unit option) \<times> ('u, 'info, 'fs, 'f, 'd) globals \<times> 'w" where
  "usbFsDeleteDir C dirpath g w =
     with_path dirpath (\<lambda>path. with_store g w (\<lambda>st.
       let remove = (\<lambda>st1 w1. in_root C (fs_ptr g) (\<lambda>root. fc_remove C root path w1) st1 w1) in
       case has_dir st path of
         None \<Rightarrow> remove st w
       | Some old_id \<Rightarrow>
           (case store_close_dir C old_id st w of
              (Inl e, st1, w1) \<Rightarrow> ((u32_map e, None), st1, w1)
            | (Inr _, st1, w1) \<Rightarrow> remove st1 w1))) (g, w)"

end
