(* ===== verification/IdStoreInv.thy ===== *)
theory IdStoreInv
  imports IdStore
begin

text \<open>
  The invariant of the id table and what every operation does to it, and the contract of a
  handle table (the locale \<open>handle_table\<close>) that the file half of the store satisfies.
\<close>

section \<open>The invariant\<close>

text \<open>
  One half of the table: the names are keyed by ids below the next one, no path has two ids,
  and every handle has a name.
\<close>

definition half_inv :: "u64 \<Rightarrow> (u64, 'h) hashmap \<Rightarrow> (u64, rstr) hashmap \<Rightarrow> bool" where
  "half_inv nxt hs ns \<longleftrightarrow> hm_wf hs \<and> hm_wf ns \<and> hm.injective_values ns
     \<and> (\<forall>i. hm_get i hs \<noteq> None \<longrightarrow> hm_get i ns \<noteq> None)
     \<and> (\<forall>i. hm_get i ns \<noteq> None \<longrightarrow> i < nxt)"

definition disjoint_keys :: "('k, 'a) hashmap \<Rightarrow> ('k, 'b) hashmap \<Rightarrow> bool" where
  "disjoint_keys m m' \<longleftrightarrow> (\<forall>i. hm_get i m = None \<or> hm_get i m' = None)"

definition same_keys :: "('k, 'a) hashmap \<Rightarrow> ('k, 'b) hashmap \<Rightarrow> bool" where
  "same_keys m m' \<longleftrightarrow> (\<forall>i. hm_get i m = None \<longleftrightarrow> hm_get i m' = None)"

definition store_inv :: "('f, 'd) id_store \<Rightarrow> bool" where
  "store_inv st \<longleftrightarrow> half_inv (next_id st) (file_handle_map st) (file_name_map st)
     \<and> half_inv (next_id st) (dir_handle_map st) (dir_name_map st)
     \<and> hm_wf (dir_iter_map st)
     \<and> same_keys (dir_handle_map st) (dir_name_map st)
     \<and> same_keys (dir_handle_map st) (dir_iter_map st)
     \<and> disjoint_keys (file_name_map st) (dir_name_map st)"

text \<open>Ids are left: the counter is not at its maximum, where it would restart at 0.\<close>

definition ids_left :: "('f, 'd) id_store \<Rightarrow> bool" where
  "ids_left st \<longleftrightarrow> next_id st \<noteq> - 1"

lemma id_after_less: "i \<noteq> - 1 \<Longrightarrow> i < id_after i"
  using unatSuc [of i] by (auto simp: id_after_def word_less_nat_alt add.commute eq_neg_iff_add_eq_0)

lemma hm_insert_get [simp]: "hm_get k (hm_insert k' v m) = (if k = k' then Some v else hm_get k m)"
  by (rule hm.get_ins)

lemma hm_remove_get [simp]: "hm_get k (hm_remove k' m) = (if k = k' then None else hm_get k m)"
  by (rule hm.get_rem)

lemma disjoint_keys_insert1: "disjoint_keys m m' \<Longrightarrow> hm_get k m' = None \<Longrightarrow> disjoint_keys (hm_insert k v m) m'"
  and disjoint_keys_insert2: "disjoint_keys m m' \<Longrightarrow> hm_get k m = None \<Longrightarrow> disjoint_keys m (hm_insert k v m')"
  and disjoint_keys_remove1: "disjoint_keys m m' \<Longrightarrow> disjoint_keys (hm_remove k m) m'"
  and disjoint_keys_remove2: "disjoint_keys m m' \<Longrightarrow> disjoint_keys m (hm_remove k m')"
  by (auto simp: disjoint_keys_def)

lemma same_keys_insert: "same_keys m m' \<Longrightarrow> same_keys (hm_insert k v m) (hm_insert k v' m')"
  and same_keys_remove: "same_keys m m' \<Longrightarrow> same_keys (hm_remove k m) (hm_remove k m')"
  and same_keys_set1: "same_keys m m' \<Longrightarrow> hm_get k m \<noteq> None \<Longrightarrow> same_keys (hm_insert k v m) m'"
  and same_keys_set2: "same_keys m m' \<Longrightarrow> hm_get k m' \<noteq> None \<Longrightarrow> same_keys m (hm_insert k v' m')"
  and same_keysD: "same_keys m m' \<Longrightarrow> hm_get k m = None \<longleftrightarrow> hm_get k m' = None"
  by (auto simp: same_keys_def)

lemmas disjoint_keys_intros = same_keys_insert same_keys_remove
  disjoint_keys_insert1 disjoint_keys_insert2 disjoint_keys_remove1 disjoint_keys_remove2

lemma half_inv_new: "half_inv n [] []"
  by (simp add: half_inv_def hm_wf_def hm_get_def hm.injective_values_def)

lemma half_inv_later:
  assumes "half_inv n hs ns" "n < n'"
  shows "half_inv n' hs ns"
  using assms unfolding half_inv_def by (meson order.strict_trans)

lemma half_inv_insert:
  assumes "half_inv n hs ns" "n < n'" "\<And>k. hm_get k ns \<noteq> Some p"
  shows "half_inv n' (hm_insert n h hs) (hm_insert n p ns)"
  using half_inv_later [OF assms(1,2)] assms(2,3)
  by (auto simp: half_inv_def hm.wf_ins hm.injective_values_ins)

lemma half_inv_remove:
  "half_inv n hs ns \<Longrightarrow> half_inv n (hm_remove i hs) (hm_remove i ns)"
  by (auto simp: half_inv_def hm.wf_rem hm.injective_values_rem)

lemma half_inv_remove_handle: "half_inv n hs ns \<Longrightarrow> half_inv n (hm_remove i hs) ns"
  by (auto simp: half_inv_def hm.wf_rem)

lemma half_inv_set:
  "half_inv n hs ns \<Longrightarrow> hm_get i hs \<noteq> None \<Longrightarrow> half_inv n (hm_insert i h hs) ns"
  by (auto simp: half_inv_def hm.wf_ins)

lemma half_inv_fresh: "half_inv n hs ns \<Longrightarrow> hm_get n ns = None \<and> hm_get n hs = None"
  unfolding half_inv_def by (metis less_irrefl)

lemma find_name_iff:
  "half_inv n hs ns \<Longrightarrow> hm_find_value p ns = Some i \<longleftrightarrow> hm_get i ns = Some p"
  by (simp add: half_inv_def hm.find_value_iff)

lemma find_name_None:
  "half_inv n hs ns \<Longrightarrow> hm_find_value p ns = None \<longleftrightarrow> (\<forall>i. hm_get i ns \<noteq> Some p)"
  by (simp add: half_inv_def hm.find_value_None)

lemma store_inv_halves:
  assumes "store_inv st"
  shows "half_inv (next_id st) (file_handle_map st) (file_name_map st)"
    "half_inv (next_id st) (dir_handle_map st) (dir_name_map st)"
  using assms by (simp_all add: store_inv_def)

lemma has_file_iff: "store_inv st \<Longrightarrow> has_file st p = Some i \<longleftrightarrow> hm_get i (file_name_map st) = Some p"
  unfolding has_file_def by (rule find_name_iff [OF store_inv_halves(1)])

lemma has_dir_iff: "store_inv st \<Longrightarrow> has_dir st p = Some i \<longleftrightarrow> hm_get i (dir_name_map st) = Some p"
  unfolding has_dir_def by (rule find_name_iff [OF store_inv_halves(2)])

lemma has_file_None: "store_inv st \<Longrightarrow> has_file st p = None \<longleftrightarrow> (\<forall>i. hm_get i (file_name_map st) \<noteq> Some p)"
  unfolding has_file_def by (rule find_name_None [OF store_inv_halves(1)])

lemma has_dir_None: "store_inv st \<Longrightarrow> has_dir st p = None \<longleftrightarrow> (\<forall>i. hm_get i (dir_name_map st) \<noteq> Some p)"
  unfolding has_dir_def by (rule find_name_None [OF store_inv_halves(2)])

section \<open>The operations keep it\<close>

lemma store_inv_new: "store_inv store_new"
  by (simp add: store_inv_def store_new_def half_inv_new) (simp add: hm_wf_def hm_get_def disjoint_keys_def same_keys_def)

lemma insert_file_inv:
  assumes "store_inv st" "ids_left st" "has_file st p = None"
    and "insert_file C p f st w = (i, st', w')"
  shows "store_inv st' \<and> i = next_id st \<and> w' = w"
proof -
  note fresh = half_inv_fresh [OF store_inv_halves(1) [OF assms(1)]]
    half_inv_fresh [OF store_inv_halves(2) [OF assms(1)]]
  have lt: "next_id st < id_after (next_id st)"
    using assms(2) by (simp add: ids_left_def id_after_less)
  have "half_inv (id_after (next_id st)) (hm_insert (next_id st) f (file_handle_map st))
      (hm_insert (next_id st) p (file_name_map st))"
    using half_inv_insert [OF store_inv_halves(1) [OF assms(1)] lt] assms(1,3)
    by (simp add: has_file_None)
  moreover have "half_inv (id_after (next_id st)) (dir_handle_map st) (dir_name_map st)"
    by (rule half_inv_later [OF store_inv_halves(2) [OF assms(1)] lt])
  ultimately show ?thesis
    using assms(1,4) fresh by (auto simp: store_inv_def insert_file_def Let_def drop_old_def intro: disjoint_keys_intros)
qed

lemma insert_dir_inv:
  assumes "store_inv st" "ids_left st" "has_dir st p = None"
    and "insert_dir C p d st w = (i, st', w')"
  shows "store_inv st' \<and> i = next_id st \<and> w' = w"
proof -
  note fresh = half_inv_fresh [OF store_inv_halves(1) [OF assms(1)]]
    half_inv_fresh [OF store_inv_halves(2) [OF assms(1)]]
  have lt: "next_id st < id_after (next_id st)"
    using assms(2) by (simp add: ids_left_def id_after_less)
  have "half_inv (id_after (next_id st)) (hm_insert (next_id st) d (dir_handle_map st))
      (hm_insert (next_id st) p (dir_name_map st))"
    using half_inv_insert [OF store_inv_halves(2) [OF assms(1)] lt] assms(1,3)
    by (simp add: has_dir_None)
  moreover have "half_inv (id_after (next_id st)) (file_handle_map st) (file_name_map st)"
    by (rule half_inv_later [OF store_inv_halves(1) [OF assms(1)] lt])
  ultimately show ?thesis
    using assms(1,4) fresh
    by (auto simp: store_inv_def insert_dir_def Let_def drop_old_def hm.wf_ins intro: disjoint_keys_intros)
qed

lemma store_open_file_inv:
  assumes "store_inv st" "ids_left st" "store_open_file C fsc p st w = (r, st', w')"
  shows "store_inv st'"
proof (cases "has_file st p")
  case None
  then show ?thesis
    using assms(1,3)
    by (auto simp: store_open_file_def split: sum.splits prod.splits
        dest: insert_file_inv [OF assms(1,2) None])
qed (use assms in \<open>simp add: store_open_file_def\<close>)

lemma store_open_dir_inv:
  assumes "store_inv st" "ids_left st" "store_open_dir C fsc p st w = (r, st', w')"
  shows "store_inv st'"
proof (cases "has_dir st p")
  case None
  then show ?thesis
    using assms(1,3)
    by (auto simp: store_open_dir_def split: sum.splits prod.splits if_splits
        dest: insert_dir_inv [OF assms(1,2)])
qed (use assms in \<open>simp add: store_open_dir_def\<close>)

lemma store_close_file_inv:
  assumes "store_inv st" "store_close_file C i st w = (r, st', w')"
  shows "store_inv st'"
  using assms half_inv_remove [OF store_inv_halves(1) [OF assms(1)], of i]
    half_inv_remove_handle [OF store_inv_halves(1) [OF assms(1)], of i]
  by (auto simp: store_close_file_def store_inv_def Let_def disjoint_keys_intros
      split: option.splits sum.splits prod.splits)

lemma store_close_dir_inv:
  assumes "store_inv st" "store_close_dir C i st w = (r, st', w')"
  shows "store_inv st'"
  using assms half_inv_remove [OF store_inv_halves(2) [OF assms(1)], of i]
  by (auto simp: store_close_dir_def store_inv_def hm.wf_rem disjoint_keys_intros split: option.splits)

lemma store_inv_set_iter:
  assumes "store_inv st" "hm_get i (dir_iter_map st) \<noteq> None"
  shows "store_inv (st\<lparr>dir_iter_map := hm_insert i k (dir_iter_map st)\<rparr>)"
  using assms by (auto simp: store_inv_def hm.wf_ins intro: same_keys_set2)

lemma read_next_dirent_inv:
  assumes "store_inv st" "read_next_dirent C i st w = (r, st', w')"
  shows "store_inv st'"
  using assms(2) assms(1) store_inv_set_iter [OF assms(1), of i]
  by (auto simp: read_next_dirent_def Let_def split: option.splits sum.splits prod.splits)

lemma set_file_handle_inv:
  assumes "store_inv st" "get_file_handle st i = Inr f0"
  shows "store_inv (set_file_handle i f st)"
proof -
  have "hm_get i (file_handle_map st) \<noteq> None"
    using assms(2) by (auto simp: get_file_handle_def split: option.splits)
  from half_inv_set [OF store_inv_halves(1) [OF assms(1)] this] assms(1)
  show ?thesis unfolding store_inv_def set_file_handle_def by auto
qed

section \<open>The contract of a handle table\<close>

text \<open>
  What a client of either half relies on: a path that is not open gets an id that no handle
  had, other paths and ids are untouched, and closing an id frees exactly it and its path.
\<close>

locale handle_table =
  fixes ins :: "rstr \<Rightarrow> 'h \<Rightarrow> 's \<Rightarrow> u64 \<times> 's"
    and lookup :: "'s \<Rightarrow> u64 \<Rightarrow> 'h option"
    and find :: "'s \<Rightarrow> rstr \<Rightarrow> u64 option"
    and rem :: "u64 \<Rightarrow> 's \<Rightarrow> 's"
    and inv :: "'s \<Rightarrow> bool"
    and room :: "'s \<Rightarrow> bool"
  assumes ins_inv: "inv s \<Longrightarrow> room s \<Longrightarrow> find s p = None \<Longrightarrow> ins p h s = (i, s') \<Longrightarrow> inv s'"
    and ins_fresh: "inv s \<Longrightarrow> room s \<Longrightarrow> ins p h s = (i, s') \<Longrightarrow>
      lookup s i = None \<and> (\<forall>q. find s q \<noteq> Some i)"
    and ins_lookup: "ins p h s = (i, s') \<Longrightarrow> lookup s' j = (if j = i then Some h else lookup s j)"
    and ins_find: "inv s \<Longrightarrow> room s \<Longrightarrow> find s p = None \<Longrightarrow> ins p h s = (i, s') \<Longrightarrow>
      find s' q = (if q = p then Some i else find s q)"
    and rem_inv: "inv s \<Longrightarrow> inv (rem i s)"
    and rem_lookup: "lookup (rem i s) j = (if j = i then None else lookup s j)"
    and rem_find: "inv s \<Longrightarrow> find (rem i s) q = (if find s q = Some i then None else find s q)"
begin

text \<open>Two paths opened one after the other have different ids, each with its own handle.\<close>

lemma two_opens:
  assumes "inv s" "room s" "find s p = None" "find s q = None" "p \<noteq> q"
    and "ins p h s = (i, s1)" "room s1" "ins q k s1 = (j, s2)"
  shows "i \<noteq> j \<and> inv s2 \<and> lookup s2 i = Some h \<and> lookup s2 j = Some k
    \<and> find s2 p = Some i \<and> find s2 q = Some j"
proof -
  have s1: "inv s1" "lookup s1 i = Some h" "find s1 p = Some i" "find s1 q = None"
    using ins_inv [OF assms(1-3,6)] ins_lookup [OF assms(6)] ins_find [OF assms(1-3,6)] assms(4,5)
    by simp_all
  then have "i \<noteq> j" using ins_fresh [OF s1(1) assms(7,8)] by auto
  then show ?thesis
    using s1 assms(5,7,8) ins_inv [OF s1(1) assms(7) s1(4) assms(8)]
      ins_find [OF s1(1) assms(7) s1(4) assms(8)] ins_lookup [OF assms(8)] by simp
qed

text \<open>Closing one of them leaves the other as it was, and frees the path of the closed one.\<close>

lemma close_one:
  assumes "inv s" "find s p = Some i" "find s q = Some j" "i \<noteq> j"
  shows "inv (rem i s) \<and> lookup (rem i s) i = None \<and> find (rem i s) p = None
    \<and> lookup (rem i s) j = lookup s j \<and> find (rem i s) q = Some j"
  using assms by (simp add: rem_inv rem_lookup rem_find)

end

text \<open>The file half; the world is threaded by an insertion but not changed by a fresh one.\<close>

definition remove_file :: "u64 \<Rightarrow> ('f, 'd) id_store \<Rightarrow> ('f, 'd) id_store" where
  "remove_file i st = st\<lparr>file_handle_map := hm_remove i (file_handle_map st),
     file_name_map := hm_remove i (file_name_map st)\<rparr>"

definition remove_dir :: "u64 \<Rightarrow> ('f, 'd) id_store \<Rightarrow> ('f, 'd) id_store" where
  "remove_dir i st = st\<lparr>dir_handle_map := hm_remove i (dir_handle_map st),
     dir_name_map := hm_remove i (dir_name_map st), dir_iter_map := hm_remove i (dir_iter_map st)\<rparr>"

definition add_file :: "rstr \<Rightarrow> 'f \<Rightarrow> ('f, 'd) id_store \<Rightarrow> u64 \<times> ('f, 'd) id_store" where
  "add_file p f st = (next_id st, st\<lparr>next_id := id_after (next_id st),
     file_handle_map := hm_insert (next_id st) f (file_handle_map st),
     file_name_map := hm_insert (next_id st) p (file_name_map st)\<rparr>)"

definition add_dir :: "rstr \<Rightarrow> 'd \<Rightarrow> ('f, 'd) id_store \<Rightarrow> u64 \<times> ('f, 'd) id_store" where
  "add_dir p d st = (next_id st, st\<lparr>next_id := id_after (next_id st),
     dir_handle_map := hm_insert (next_id st) d (dir_handle_map st),
     dir_name_map := hm_insert (next_id st) p (dir_name_map st),
     dir_iter_map := hm_insert (next_id st) 0 (dir_iter_map st)\<rparr>)"

lemma insert_file_add: "insert_file C p f st w =
    (case add_file p f st of (i, st') \<Rightarrow> (i, st', drop_old (fc_drop_file C) (hm_get i (file_handle_map st)) w))"
  by (simp add: insert_file_def add_file_def Let_def)

lemma insert_dir_add: "insert_dir C p d st w =
    (case add_dir p d st of (i, st') \<Rightarrow> (i, st', drop_old (fc_drop_dir C) (hm_get i (dir_handle_map st)) w))"
  by (simp add: insert_dir_def add_dir_def Let_def)

lemma add_file_inv:
  assumes "store_inv st" "ids_left st" "has_file st p = None" "add_file p f st = (i, st')"
  shows "store_inv st'"
  using insert_file_inv [OF assms(1-3), of undefined f "()"] assms(4) by (simp add: insert_file_add)

lemma add_dir_inv:
  assumes "store_inv st" "ids_left st" "has_dir st p = None" "add_dir p d st = (i, st')"
  shows "store_inv st'"
  using insert_dir_inv [OF assms(1-3), of undefined d "()"] assms(4) by (simp add: insert_dir_add)

lemma remove_file_inv: "store_inv st \<Longrightarrow> store_inv (remove_file i st)"
  using half_inv_remove [OF store_inv_halves(1), of st i]
  by (auto simp: store_inv_def remove_file_def disjoint_keys_intros)

lemma remove_dir_inv: "store_inv st \<Longrightarrow> store_inv (remove_dir i st)"
  using half_inv_remove [OF store_inv_halves(2), of st i]
  by (auto simp: store_inv_def remove_dir_def hm.wf_rem disjoint_keys_intros)

text \<open>Searches by name are decided by \<open>hm_get\<close> on both sides.\<close>

lemma option_eqI: "(\<And>i. x = Some i \<longleftrightarrow> y = Some i) \<Longrightarrow> x = y"
  by (metis option.exhaust)

interpretation files: handle_table add_file "\<lambda>st i. hm_get i (file_handle_map st)" has_file
  remove_file store_inv ids_left
proof
  fix s :: "('f, 'd) id_store" and p q and h :: 'f and i s' j
  show "store_inv s'" if "store_inv s" "ids_left s" "has_file s p = None" "add_file p h s = (i, s')"
    by (rule add_file_inv [OF that])
  show "hm_get i (file_handle_map s) = None \<and> (\<forall>q. has_file s q \<noteq> Some i)"
    if "store_inv s" "ids_left s" "add_file p h s = (i, s')"
    using that half_inv_fresh [OF store_inv_halves(1) [OF that(1)]]
    by (auto simp: add_file_def has_file_iff)
  show "hm_get j (file_handle_map s') = (if j = i then Some h else hm_get j (file_handle_map s))"
    if "add_file p h s = (i, s')"
    using that by (auto simp: add_file_def)
  show "has_file s' q = (if q = p then Some i else has_file s q)"
    if a: "store_inv s" "ids_left s" "has_file s p = None" "add_file p h s = (i, s')"
  proof (rule option_eqI)
    fix k
    have "has_file s' q = Some k \<longleftrightarrow> (if k = i then q = p else hm_get k (file_name_map s) = Some q)"
      unfolding has_file_iff [OF add_file_inv [OF a]] using a(4) by (auto simp: add_file_def)
    moreover have "hm_get i (file_name_map s) = None"
      using a(4) half_inv_fresh [OF store_inv_halves(1) [OF a(1)]] by (auto simp: add_file_def)
    moreover have "hm_get k (file_name_map s) \<noteq> Some p" using a(1,3) by (simp add: has_file_None)
    ultimately show "has_file s' q = Some k \<longleftrightarrow> (if q = p then Some i else has_file s q) = Some k"
      using has_file_iff [OF a(1)] by auto
  qed
  show "store_inv (remove_file i s)" if "store_inv s" using remove_file_inv that .
  show "hm_get j (file_handle_map (remove_file i s))
      = (if j = i then None else hm_get j (file_handle_map s))"
    by (simp add: remove_file_def)
  show "has_file (remove_file i s) q = (if has_file s q = Some i then None else has_file s q)"
    if "store_inv s"
  proof (rule option_eqI)
    fix k show "has_file (remove_file i s) q = Some k
        \<longleftrightarrow> (if has_file s q = Some i then None else has_file s q) = Some k"
      unfolding has_file_iff [OF remove_file_inv [OF that]] using has_file_iff [OF that]
      by (auto simp: remove_file_def) (metis option.inject)
  qed
qed

interpretation dirs: handle_table add_dir "\<lambda>st i. hm_get i (dir_handle_map st)" has_dir
  remove_dir store_inv ids_left
proof
  fix s :: "('f, 'd) id_store" and p q and h :: 'd and i s' j
  show "store_inv s'" if "store_inv s" "ids_left s" "has_dir s p = None" "add_dir p h s = (i, s')"
    by (rule add_dir_inv [OF that])
  show "hm_get i (dir_handle_map s) = None \<and> (\<forall>q. has_dir s q \<noteq> Some i)"
    if "store_inv s" "ids_left s" "add_dir p h s = (i, s')"
    using that half_inv_fresh [OF store_inv_halves(2) [OF that(1)]]
    by (auto simp: add_dir_def has_dir_iff)
  show "hm_get j (dir_handle_map s') = (if j = i then Some h else hm_get j (dir_handle_map s))"
    if "add_dir p h s = (i, s')"
    using that by (auto simp: add_dir_def)
  show "has_dir s' q = (if q = p then Some i else has_dir s q)"
    if a: "store_inv s" "ids_left s" "has_dir s p = None" "add_dir p h s = (i, s')"
  proof (rule option_eqI)
    fix k
    have "has_dir s' q = Some k \<longleftrightarrow> (if k = i then q = p else hm_get k (dir_name_map s) = Some q)"
      unfolding has_dir_iff [OF add_dir_inv [OF a]] using a(4) by (auto simp: add_dir_def)
    moreover have "hm_get i (dir_name_map s) = None"
      using a(4) half_inv_fresh [OF store_inv_halves(2) [OF a(1)]] by (auto simp: add_dir_def)
    moreover have "hm_get k (dir_name_map s) \<noteq> Some p" using a(1,3) by (simp add: has_dir_None)
    ultimately show "has_dir s' q = Some k \<longleftrightarrow> (if q = p then Some i else has_dir s q) = Some k"
      using has_dir_iff [OF a(1)] by auto
  qed
  show "store_inv (remove_dir i s)" if "store_inv s" using remove_dir_inv that .
  show "hm_get j (dir_handle_map (remove_dir i s))
      = (if j = i then None else hm_get j (dir_handle_map s))"
    by (simp add: remove_dir_def)
  show "has_dir (remove_dir i s) q = (if has_dir s q = Some i then None else has_dir s q)"
    if "store_inv s"
  proof (rule option_eqI)
    fix k show "has_dir (remove_dir i s) q = Some k
        \<longleftrightarrow> (if has_dir s q = Some i then None else has_dir s q) = Some k"
      unfolding has_dir_iff [OF remove_dir_inv [OF that]] using has_dir_iff [OF that]
      by (auto simp: remove_dir_def) (metis option.inject)
  qed
qed

end
