(* ===== verification/IdStoreThms.thy ===== *)
theory IdStoreThms
  imports IdStoreInv
begin

text \<open>
  The properties of the id table: the invariant, the life of an id, directory cursors and
  the lookup of paths.
\<close>

section \<open>An instance\<close>

text \<open>
  A crate whose files are their paths and whose directories are lists of entries; a flush
  succeeds when the world says so.
\<close>

definition toy_entry :: fat_dirent where
  "toy_entry = \<lparr>attr_directory = False, attr_read_only = False, attr_bits = 0x20,
     file_name = [0x62], ent_len = 9\<rparr>"

definition toy_crate :: "(bool, unit, rstr, fat_dirent list, fat_dirent list) fat_crate" where
  "toy_crate = \<lparr>
     fc_root_dir = (\<lambda>_. [toy_entry]),
     fc_open_file = (\<lambda>d p w. (Inr p, w)), fc_open_dir = (\<lambda>d p w. (Inr [toy_entry], w)),
     fc_create_file = (\<lambda>d p w. (Inr p, w)), fc_create_dir = (\<lambda>d p w. (Inr [], w)),
     fc_remove = (\<lambda>d p w. (Inr (), w)), fc_stats = (\<lambda>fs w. (Inr (512, 10, 4), w)),
     fc_read = (\<lambda>f buf w. (Inr 0, buf, f, w)), fc_write = (\<lambda>f buf w. (Inr (of_nat (length buf)), f, w)),
     fc_seek = (\<lambda>f p w. (Inr 0, f, w)),
     fc_flush = (\<lambda>f w. (if w then Inr () else Inl (io_error_from Other), f, w)),
     fc_truncate = (\<lambda>f w. (Inr (), f, w)),
     fc_drop_file = (\<lambda>f w. w), fc_drop_dir = (\<lambda>d w. w), fc_drop_fs = (\<lambda>f w. w),
     fc_iter = id,
     fc_next = (\<lambda>it w. case it of [] \<Rightarrow> (None, [], w) | e # es \<Rightarrow> (Some (Inr e), es, w))\<rparr>"

lemma toy_simps [simp]:
  "fc_root_dir toy_crate fs = [toy_entry]" "fc_open_file toy_crate d p w = (Inr p, w)"
  "fc_open_dir toy_crate d p w = (Inr [toy_entry], w)"
  "fc_flush toy_crate f w = (if w then Inr () else Inl (io_error_from Other), f, w)"
  "fc_drop_file toy_crate f w = w" "fc_drop_dir toy_crate d w = w" "fc_iter toy_crate d = d"
  "fc_next toy_crate [] w = (None, [], w)" "fc_next toy_crate (e # es) w = (Some (Inr e), es, w)"
  by (simp_all add: toy_crate_def)

definition toy_cell :: "unit cell" where
  "toy_cell = \<lparr>cell_ptr = Some (), poisoned = False\<rparr>"

lemma toy_cell_get [simp]: "get_cell toy_cell = Inr ()"
  by (simp add: get_cell_def toy_cell_def)

lemma new_simps [simp]: "has_file store_new p = None" "has_dir store_new p = None"
  "next_id store_new = 0" "ids_left store_new"
  by (simp_all add: has_file_def has_dir_def store_new_def ids_left_def)

section \<open>The invariant\<close>

text \<open>
  The table starts well formed and every operation keeps it so while ids are left: one id per
  open path, every handle has a name, a directory has a handle, a name and a cursor or none
  of them, no id is a file and a directory at once, and the next id is larger than all.
\<close>

theorem store_invariant:
  assumes "store_inv st" "ids_left st"
  shows "store_inv (store_new :: ('f, 'd) id_store)
    \<and> store_inv (fst (snd (store_open_file C fsc p st w)))
    \<and> store_inv (fst (snd (store_open_dir C fsc p st w)))
    \<and> store_inv (fst (snd (store_close_file C i st w)))
    \<and> store_inv (fst (snd (store_close_dir C i st w)))
    \<and> store_inv (fst (snd (read_next_dirent C i st w)))
    \<and> (get_file_handle st i = Inr f0 \<longrightarrow> store_inv (set_file_handle i f st))"
  using store_inv_new store_open_file_inv [OF assms] store_open_dir_inv [OF assms]
    store_close_file_inv [OF assms(1)] store_close_dir_inv [OF assms(1)]
    read_next_dirent_inv [OF assms(1)] set_file_handle_inv [OF assms(1)]
  by (metis prod.collapse)

theorem store_invariant_witness:
  "store_inv (fst (snd (store_open_file toy_crate toy_cell [0x61] store_new True)))"
proof -
  have "store_inv (store_new :: (rstr, fat_dirent list) id_store)" by (rule store_inv_new)
  from store_invariant [OF this, of toy_crate toy_cell "[0x61]" True 0 "[]" "[]"]
  show ?thesis by auto
qed

section \<open>The life of an id\<close>

lemma open_file_new:
  assumes "has_file st p = None" "get_cell fsc = Inr fs"
    and "fc_open_file C (fc_root_dir C fs) p w = (Inr f, w1)" "store_inv st"
  shows "store_open_file C fsc p st w = (case add_file p f st of (i, st1) \<Rightarrow> (Inr i, st1, w1))"
  using assms half_inv_fresh [OF store_inv_halves(1) [OF assms(4)]]
  by (simp add: store_open_file_def insert_file_add drop_old_def add_file_def)

lemma close_file_ok:
  assumes "hm_get i (file_handle_map st) = Some f" "fc_flush C f w = (Inr (), f', w')"
  shows "store_close_file C i st w = (Inr (), remove_file i st, fc_drop_file C f' w')"
  using assms by (simp add: store_close_file_def remove_file_def)

text \<open>
  Opening a path that is not open gives an id no handle had; the id then leads to the file
  and to its path, and opening the path again, whatever the state of the file system,
  returns the same id and touches nothing. Closing the id with a successful flush makes it
  invalid and the path free again.
\<close>

theorem file_id_lifecycle:
  assumes "store_inv st" "ids_left st" "has_file st p = None" "get_cell fsc = Inr fs"
    and "fc_open_file C (fc_root_dir C fs) p w = (Inr f, w1)"
    and "fc_flush C f w2 = (Inr (), f', w3)"
  shows "\<exists>i st1 st2. get_file_handle st i = Inl NX_FATDRIVE_ERR_FILE_NOT_FOUND
    \<and> store_open_file C fsc p st w = (Inr i, st1, w1)
    \<and> get_file_handle st1 i = Inr f \<and> get_path_for_id st1 i = Inr p
    \<and> (\<forall>fsc' w'. store_open_file C fsc' p st1 w' = (Inr i, st1, w'))
    \<and> store_close_file C i st1 w2 = (Inr (), st2, fc_drop_file C f' w3)
    \<and> get_file_handle st2 i = Inl NX_FATDRIVE_ERR_FILE_NOT_FOUND \<and> has_file st2 p = None"
proof -
  obtain i st1 where a: "add_file p f st = (i, st1)" by fastforce
  have o: "store_open_file C fsc p st w = (Inr i, st1, w1)"
    using open_file_new [OF assms(3-5,1)] a by simp
  have l: "hm_get i (file_handle_map st1) = Some f" "has_file st1 p = Some i"
    using files.ins_lookup [OF a] files.ins_find [OF assms(1-3) a] by simp_all
  have n: "hm_get i (file_name_map st1) = Some p"
    using l(2) has_file_iff [OF add_file_inv [OF assms(1-3) a]] by blast
  have fr: "hm_get i (file_handle_map st) = None"
    using files.ins_fresh [OF assms(1,2) a] by blast
  have c: "store_close_file C i st1 w2 = (Inr (), remove_file i st1, fc_drop_file C f' w3)"
    by (rule close_file_ok [OF l(1) assms(6)])
  have r: "has_file (remove_file i st1) p = None"
    using files.rem_find [OF add_file_inv [OF assms(1-3) a]] l(2) by simp
  show ?thesis
    using o l n fr c r
    by (intro exI [of _ i] exI [of _ st1] exI [of _ "remove_file i st1"])
      (simp add: get_file_handle_def get_path_for_id_def store_open_file_def files.rem_lookup)
qed

theorem file_id_lifecycle_witness:
  "\<exists>i st1. store_open_file toy_crate toy_cell [0x61] store_new True = (Inr i, st1, True)
    \<and> get_file_handle st1 i = Inr [0x61] \<and> get_path_for_id st1 i = Inr [0x61]"
proof -
  have "store_inv (store_new :: (rstr, fat_dirent list) id_store)" by (rule store_inv_new)
  from file_id_lifecycle [OF this, of "[0x61]" toy_cell "()" toy_crate True "[0x61]" True True "[0x61]" True]
  show ?thesis by auto
qed

text \<open>
  Two paths opened one after the other get different ids, each leading to its own file, and
  closing the first leaves the id and the file of the second as they are.
\<close>

theorem file_ids_independent:
  assumes "store_inv st" "ids_left st" "has_file st p = None" "has_file st q = None" "p \<noteq> q"
    and "get_cell fsc = Inr fs"
    and "fc_open_file C (fc_root_dir C fs) p w = (Inr f, w1)"
    and "fc_open_file C (fc_root_dir C fs) q w1 = (Inr g, w2)"
    and "fc_flush C f w2 = (Inr (), f', w3)" "next_id st + 1 \<noteq> - 1"
  shows "\<exists>i j st1 st2 st3. store_open_file C fsc p st w = (Inr i, st1, w1)
    \<and> store_open_file C fsc q st1 w1 = (Inr j, st2, w2) \<and> i \<noteq> j
    \<and> get_file_handle st2 i = Inr f \<and> get_file_handle st2 j = Inr g
    \<and> store_close_file C i st2 w2 = (Inr (), st3, fc_drop_file C f' w3)
    \<and> get_file_handle st3 j = Inr g \<and> has_file st3 q = Some j"
proof -
  obtain i st1 where a: "add_file p f st = (i, st1)" by fastforce
  obtain j st2 where b: "add_file q g st1 = (j, st2)" by fastforce
  have room: "ids_left st1"
    using a assms(2,10) by (auto simp: ids_left_def add_file_def id_after_def)
  note t = files.two_opens [OF assms(1-5) a room b]
  have inv1: "store_inv st1" by (rule add_file_inv [OF assms(1-3) a])
  have q: "has_file st1 q = None"
    using files.ins_find [OF assms(1-3) a] assms(4,5) by simp
  have o: "store_open_file C fsc p st w = (Inr i, st1, w1)"
    "store_open_file C fsc q st1 w1 = (Inr j, st2, w2)"
    using open_file_new [OF assms(3,6,7,1)] open_file_new [OF q assms(6,8) inv1] a b by simp_all
  have c: "store_close_file C i st2 w2 = (Inr (), remove_file i st2, fc_drop_file C f' w3)"
    using t by (intro close_file_ok [OF _ assms(9)]) blast
  have "hm_get j (file_handle_map (remove_file i st2)) = Some g \<and> has_file (remove_file i st2) q = Some j"
    using files.close_one [of st2 p i q j] t by simp
  with o c t show ?thesis
    by (intro exI [of _ i] exI [of _ j] exI [of _ st1] exI [of _ st2] exI [of _ "remove_file i st2"])
      (simp add: get_file_handle_def)
qed

theorem file_ids_independent_witness:
  "\<exists>i j st1 st2. store_open_file toy_crate toy_cell [0x61] store_new True = (Inr i, st1, True)
    \<and> store_open_file toy_crate toy_cell [0x62] st1 True = (Inr j, st2, True) \<and> i \<noteq> j"
proof -
  have "store_inv (store_new :: (rstr, fat_dirent list) id_store)" by (rule store_inv_new)
  from file_ids_independent [OF this, of "[0x61]" "[0x62]" toy_cell "()" toy_crate True "[0x61]" True
      "[0x62]" True "[0x61]" True]
  show ?thesis by auto
qed

text \<open>
  C37: When the flush of \<open>close_file\<close> fails, the handle is gone but its name stays: from then on
  opening the path succeeds and returns the dead id, on which every file operation and a
  second close answer that the file does not exist; the path cannot be opened again.
\<close>

theorem failed_close_kills_path:
  assumes "store_inv st" "hm_get i (file_name_map st) = Some p"
    and "get_file_handle st i = Inr f" "fc_flush C f w = (Inl e, f', w')"
  shows "\<exists>st'. store_close_file C i st w = (Inl (io_error_map e), st', fc_drop_file C f' w')
    \<and> (\<forall>fsc v. store_open_file C fsc p st' v = (Inr i, st', v))
    \<and> get_file_handle st' i = Inl NX_FATDRIVE_ERR_FILE_NOT_FOUND
    \<and> (\<forall>v. store_close_file C i st' v = (Inl NX_FATDRIVE_ERR_FILE_NOT_FOUND, st', v))"
proof -
  let ?st = "st\<lparr>file_handle_map := hm_remove i (file_handle_map st)\<rparr>"
  have f: "hm_get i (file_handle_map st) = Some f"
    using assms(3) by (auto simp: get_file_handle_def split: option.splits)
  have "has_file ?st p = Some i"
    using has_file_iff [OF assms(1)] assms(2) by (simp add: has_file_def)
  then show ?thesis
    using f assms(4)
    by (intro exI [of _ ?st]) (simp add: store_close_file_def store_open_file_def get_file_handle_def)
qed

theorem failed_close_kills_path_witness:
  "\<exists>st i st'. store_open_file toy_crate toy_cell [0x61] store_new True = (Inr i, st, True)
    \<and> store_close_file toy_crate i st False = (Inl (io_error_map (io_error_from Other)), st', False)
    \<and> store_open_file toy_crate toy_cell [0x61] st' True = (Inr i, st', True)
    \<and> get_file_handle st' i = Inl NX_FATDRIVE_ERR_FILE_NOT_FOUND"
proof -
  obtain st where o: "store_open_file toy_crate toy_cell [0x61] store_new True = (Inr 0, st, True)"
      and st: "add_file [0x61] [0x61] store_new = (0, st)"
    using open_file_new [of store_new "[0x61]" toy_cell "()" toy_crate True "[0x61]" True] store_inv_new
    by (auto simp: add_file_def)
  have "store_inv st" by (rule add_file_inv [OF store_inv_new _ _ st]) simp_all
  moreover have "hm_get 0 (file_name_map st) = Some [0x61]" "get_file_handle st 0 = Inr [0x61]"
    using st by (auto simp: add_file_def get_file_handle_def)
  ultimately show ?thesis
    using failed_close_kills_path [of st 0 "[0x61]" "[0x61]" toy_crate False "io_error_from Other" "[0x61]" False] o
    by fastforce
qed

section \<open>Directory cursors\<close>

text \<open>
  \<open>yields C w it es\<close>: the iterator produces the entries \<open>es\<close> and then ends, without an error
  and without an effect on the world.
\<close>

inductive yields :: "('w, 'fs, 'f, 'd, 'it) fat_crate \<Rightarrow> 'w \<Rightarrow> 'it \<Rightarrow> fat_dirent list \<Rightarrow> bool"
  for C w where
  yields_end: "fc_next C it w = (None, it', w) \<Longrightarrow> yields C w it []"
| yields_entry: "fc_next C it w = (Some (Inr e), it', w) \<Longrightarrow> yields C w it' es \<Longrightarrow> yields C w it (e # es)"

lemma toy_yields: "yields toy_crate w es es"
  by (induction es) (auto intro: yields_end yields_entry)

lemma iter_nth_yields:
  assumes "yields C w it es"
  shows "iter_nth C n it w = (if n < length es then Some (Inr (es ! n)) else None, w)"
  using assms
proof (induction arbitrary: n rule: yields.induct)
  case (yields_end it it')
  then show ?case by (cases n) simp_all
next
  case (yields_entry it e it' es)
  then show ?case by (cases n) simp_all
qed

text \<open>The results of \<open>n\<close> reads of the directory \<open>i\<close>.\<close>

fun read_n :: "('w, 'fs, 'f, 'd, 'it) fat_crate \<Rightarrow> u64 \<Rightarrow> nat \<Rightarrow> ('f, 'd) id_store \<Rightarrow> 'w
    \<Rightarrow> (u32 + dir_entry_info option) list" where
  "read_n C i 0 st w = []"
| "read_n C i (Suc n) st w =
     (case read_next_dirent C i st w of (r, st1, w1) \<Rightarrow> r # read_n C i n st1 w1)"

lemma read_n_from:
  assumes "hm_get i (dir_handle_map st) = Some d" "hm_get i (dir_iter_map st) = Some (of_nat k)"
    and "yields C w (fc_iter C d) es" "k + n < 2 ^ 64"
  shows "read_n C i n st w
    = List.map (\<lambda>j. Inr (if j < length es then Some (entry_info (es ! j)) else None)) [k ..< k + n]"
  using assms
proof (induction n arbitrary: st k)
  case (Suc n)
  let ?st = "st\<lparr>dir_iter_map := hm_insert i (of_nat k + 1) (dir_iter_map st)\<rparr>"
  have k: "unat (of_nat k :: u64) = k"
    using Suc.prems(4) by (simp add: unsigned_of_nat take_bit_nat_eq_self_iff)
  have "read_next_dirent C i st w
      = (Inr (if k < length es then Some (entry_info (es ! k)) else None), ?st, w)"
    using Suc.prems(1,2) iter_nth_yields [OF Suc.prems(3), of k]
    by (simp add: read_next_dirent_def k)
  moreover have "read_n C i n ?st w
      = List.map (\<lambda>j. Inr (if j < length es then Some (entry_info (es ! j)) else None)) [Suc k ..< Suc k + n]"
    using Suc.prems by (intro Suc.IH) (simp_all add: add.commute)
  ultimately show ?case by (simp add: upt_rec [of k "Suc (k + n)"] del: upt_Suc)
qed simp

text \<open>The table and the world after them.\<close>

fun after_reads :: "('w, 'fs, 'f, 'd, 'it) fat_crate \<Rightarrow> u64 \<Rightarrow> nat \<Rightarrow> ('f, 'd) id_store \<Rightarrow> 'w
    \<Rightarrow> ('f, 'd) id_store \<times> 'w" where
  "after_reads C i 0 st w = (st, w)"
| "after_reads C i (Suc n) st w = (case read_next_dirent C i st w of (r, st1, w1) \<Rightarrow> after_reads C i n st1 w1)"

lemma after_reads_from:
  assumes "hm_get i (dir_handle_map st) = Some d" "hm_get i (dir_iter_map st) = Some (of_nat k)"
    and "yields C w (fc_iter C d) es" "k + n < 2 ^ 64"
  shows "\<exists>st2. after_reads C i n st w = (st2, w) \<and> hm_get i (dir_handle_map st2) = Some d
    \<and> hm_get i (dir_iter_map st2) = Some (of_nat (k + n)) \<and> has_dir st2 p = has_dir st p"
  using assms
proof (induction n arbitrary: st k)
  case (Suc n)
  let ?st = "st\<lparr>dir_iter_map := hm_insert i (of_nat k + 1) (dir_iter_map st)\<rparr>"
  have k: "unat (of_nat k :: u64) = k"
    using Suc.prems(4) by (simp add: unsigned_of_nat take_bit_nat_eq_self_iff)
  have "read_next_dirent C i st w
      = (Inr (if k < length es then Some (entry_info (es ! k)) else None), ?st, w)"
    using Suc.prems(1,2) iter_nth_yields [OF Suc.prems(3), of k]
    by (simp add: read_next_dirent_def k)
  moreover have "\<exists>st2. after_reads C i n ?st w = (st2, w) \<and> hm_get i (dir_handle_map st2) = Some d
      \<and> hm_get i (dir_iter_map st2) = Some (of_nat (Suc k + n)) \<and> has_dir st2 p = has_dir ?st p"
    using Suc.prems by (intro Suc.IH) (simp_all add: add.commute)
  ultimately show ?case by (simp add: has_dir_def)
qed simp

text \<open>
  C19: When a path that is not open yet is opened as a directory (the root, \<open>/\<close> or the empty path,
  or another one), the first \<open>read_next_dirent\<close> calls on its id, fewer than $2^{64}$, return the
  entries of the directory one by one in the iterator's order, each exactly once, with name,
  size and kind, and \<open>None\<close> from then on, provided the crate produces the entries and ends without
  an error and without an effect on the world. Opening the path again after them gives the same
  id, which goes on where the reads stopped: after the end it lists nothing.
\<close>

theorem read_dir_enumerates:
  assumes "store_inv st" "ids_left st" "has_dir st p = None" "get_cell fsc = Inr fs"
    and "(if p = [0x2F] \<or> p = [] then (Inr (fc_root_dir C fs), w)
          else fc_open_dir C (fc_root_dir C fs) p w) = (Inr d, w1)"
    and "yields C w1 (fc_iter C d) es" "n + m < 2 ^ 64"
  shows "\<exists>i st1. store_open_dir C fsc p st w = (Inr i, st1, w1)
    \<and> read_n C i n st1 w1
      = List.map (\<lambda>j. Inr (if j < length es then Some (entry_info (es ! j)) else None)) [0 ..< n]
    \<and> (\<exists>st2. after_reads C i n st1 w1 = (st2, w1) \<and> store_open_dir C fsc p st2 w1 = (Inr i, st2, w1)
        \<and> read_n C i m st2 w1
          = List.map (\<lambda>j. Inr (if j < length es then Some (entry_info (es ! j)) else None)) [n ..< n + m])"
proof -
  obtain i st1 where a: "add_dir p d st = (i, st1)" by fastforce
  have "hm_get i (dir_handle_map st) = None"
    using dirs.ins_fresh [OF assms(1,2) a] by blast
  then have o: "store_open_dir C fsc p st w = (Inr i, st1, w1)"
    using assms(3-5) a by (simp add: store_open_dir_def insert_dir_add drop_old_def)
  have h: "hm_get i (dir_handle_map st1) = Some d" "hm_get i (dir_iter_map st1) = Some (of_nat 0)"
    using a by (auto simp: add_dir_def)
  have "has_dir st1 p = Some i" using dirs.ins_find [OF assms(1-3) a] by simp
  obtain st2 where st2: "after_reads C i n st1 w1 = (st2, w1)" "hm_get i (dir_handle_map st2) = Some d"
    "hm_get i (dir_iter_map st2) = Some (of_nat (0 + n))" "has_dir st2 p = has_dir st1 p"
    using after_reads_from [OF h assms(6), of n p] assms(7) by auto
  have "read_n C i n st1 w1
      = List.map (\<lambda>j. Inr (if j < length es then Some (entry_info (es ! j)) else None)) [0 ..< n]"
    using read_n_from [OF h assms(6), of n] assms(7) by simp
  moreover have "read_n C i m st2 w1
      = List.map (\<lambda>j. Inr (if j < length es then Some (entry_info (es ! j)) else None)) [n ..< n + m]"
    using read_n_from [OF st2(2,3) assms(6), of m] assms(7) by simp
  moreover have "store_open_dir C fsc p st2 w1 = (Inr i, st2, w1)"
    using st2(4) \<open>has_dir st1 p = Some i\<close> by (simp add: store_open_dir_def)
  ultimately show ?thesis using o st2(1) by blast
qed

theorem read_dir_enumerates_witness:
  "(\<exists>i st1. store_open_dir toy_crate toy_cell [0x61] store_new True = (Inr i, st1, True)
    \<and> read_n toy_crate i 2 st1 True = [Inr (Some \<lparr>dei_name = [0x62], dei_type = 1, dei_size = 9\<rparr>), Inr None])
   \<and> (\<exists>i st1 st2. store_open_dir toy_crate toy_cell [] store_new True = (Inr i, st1, True)
    \<and> read_n toy_crate i 1 st1 True = [Inr (Some \<lparr>dei_name = [0x62], dei_type = 1, dei_size = 9\<rparr>)]
    \<and> store_open_dir toy_crate toy_cell [] st2 True = (Inr i, st2, True)
    \<and> read_n toy_crate i 1 st2 True = [Inr None])"
proof -
  have inv: "store_inv (store_new :: (rstr, fat_dirent list) id_store)" by (rule store_inv_new)
  from read_dir_enumerates [OF inv, of "[0x61]" toy_cell "()" toy_crate True "[toy_entry]" True "[toy_entry]" 2 0]
    read_dir_enumerates [OF inv, of "[]" toy_cell "()" toy_crate True "[toy_entry]" True "[toy_entry]" 1 1]
    toy_yields [of True "[toy_entry]"]
  show ?thesis by (auto simp: entry_info_def toy_entry_def DT_REG_def upt_rec)
qed

section \<open>Looking a path up\<close>

text \<open>A path without an empty component.\<close>

fun no_double :: "rstr \<Rightarrow> bool" where
  "no_double (a # b # s) \<longleftrightarrow> \<not> (a = slash \<and> b = slash) \<and> no_double (b # s)"
| "no_double s \<longleftrightarrow> True"

lemma trim_slashes_only: "set s \<subseteq> {slash} \<Longrightarrow> trim_end_slashes s = []"
  by (auto simp: trim_end_slashes_def dropWhile_eq_Nil_conv)

lemma replace_slashes_only: "set s \<subseteq> {slash} \<Longrightarrow> set (replace_slashes s) \<subseteq> {slash}"
  by (induction s rule: replace_slashes.induct) auto

lemma trim_append_slashes:
  assumes "set s \<subseteq> {slash}" "p \<noteq> [] \<Longrightarrow> last p \<noteq> slash"
  shows "trim_end_slashes (p @ s) = p"
proof -
  have "dropWhile (\<lambda>b. b = slash) (rev s @ rev p) = dropWhile (\<lambda>b. b = slash) (rev p)"
    using assms(1) by (intro dropWhile_append2) auto
  also have "\<dots> = rev p"
    using assms(2) by (cases p rule: rev_cases) auto
  finally show ?thesis by (simp add: trim_end_slashes_def)
qed

text \<open>Trailing slashes, however many, are removed, and a clean path is left alone.\<close>

lemma replace_slashes_clean:
  assumes "no_double p" "p \<noteq> [] \<Longrightarrow> last p \<noteq> slash" "set s \<subseteq> {slash}"
  shows "\<exists>s'. replace_slashes (p @ s) = p @ s' \<and> set s' \<subseteq> {slash}"
  using assms
proof (induction p rule: no_double.induct)
  case (1 a b p)
  then show ?case by force
next
  case "2_1"
  then show ?case using replace_slashes_only by auto
next
  case "2_2"
  then show ?case using replace_slashes_only [of s] by (cases s) auto
qed

lemma normalise_path:
  assumes "no_double p" "p \<noteq> [] \<Longrightarrow> last p \<noteq> slash" "set s \<subseteq> {slash}"
  shows "trim_end_slashes (replace_slashes (p @ s)) = p"
  using replace_slashes_clean [OF assms] trim_append_slashes assms(2) by metis

lemma rsplit_slash_path:
  assumes "slash \<notin> set name"
  shows "rsplit_slash (parent @ slash # name) = (name, Some parent)"
    "rsplit_slash name = (name, None)"
proof -
  have "takeWhile (\<lambda>b. b \<noteq> slash) (rev name @ slash # rev parent) = rev name"
    using assms by (subst takeWhile_append2) auto
  then show "rsplit_slash (parent @ slash # name) = (name, Some parent)"
    by (simp add: rsplit_slash_def Let_def)
  have "takeWhile (\<lambda>b. b \<noteq> slash) (rev name) = rev name"
    using assms by (auto simp: takeWhile_eq_all_conv)
  then show "rsplit_slash name = (name, None)"
    using assms by (simp only: rsplit_slash_def Let_def rev_rev_ident if_False)
qed

definition entry_result :: "rstr \<Rightarrow> fat_dirent list \<Rightarrow> u32 + (u64 \<times> u64)" where
  "entry_result name es = (case find (\<lambda>e. trim_end_slashes (file_name e) = name) es of
      None \<Rightarrow> Inl NX_FATDRIVE_ERR_FILE_NOT_FOUND
    | Some e \<Rightarrow> Inr (ent_len e, ucast (attr_bits e)))"

lemma find_entry_yields:
  assumes "yields C w it es"
  shows "find_entry C name it w = Some (entry_result name es, w)"
  using assms
proof (induction rule: yields.induct)
  case (yields_end it it')
  then show ?case by (subst find_entry.simps) (simp add: entry_result_def)
next
  case (yields_entry it e it' es)
  then show ?case by (subst find_entry.simps) (simp add: entry_result_def)
qed

text \<open>
  C20: \<open>stat_path\<close> of a clean path \<open>parent/name\<close>, with any number of slashes at its end, returns:
  it answers with the size and attributes of the first entry of the parent's directory that
  has the name, and file-not-found if there is none; the parent is read through its open
  handle when its path is open, and otherwise opened afresh and dropped before the search.
\<close>

theorem stat_path_finds_entry:
  assumes "store_inv st" "no_double (parent @ slash # name)" "slash \<notin> set name" "name \<noteq> []"
    and "parent \<noteq> []" "set trailing \<subseteq> {slash}" "get_cell fsc = Inr fs"
    and "case has_dir st parent of
        Some i \<Rightarrow> hm_get i (dir_handle_map st) = Some d \<and> w1 = w
      | None \<Rightarrow> \<exists>w0. fc_open_dir C (fc_root_dir C fs) parent w = (Inr d, w0)
          \<and> w1 = fc_drop_dir C (fc_root_dir C fs) (fc_drop_dir C d w0)"
    and "yields C w1 (fc_iter C d) es"
  shows "stat_path C fsc (parent @ slash # name @ trailing) st w = Some (entry_result name es, w1)"
proof -
  have "last name \<noteq> slash" using assms(3) last_in_set [OF assms(4)] by auto
  then have "trim_end_slashes (replace_slashes ((parent @ slash # name) @ trailing)) = parent @ slash # name"
    using assms(2-4,6) by (intro normalise_path) auto
  then have n: "trim_end_slashes (replace_slashes (parent @ slash # name @ trailing)) = parent @ slash # name"
    by simp
  obtain b nm where p: "parent = b # nm" using assms(5) by (cases parent) auto
  show ?thesis
    unfolding stat_path_def Let_def n rsplit_slash_path(1) [OF assms(3)]
    using assms(7,8) find_entry_yields [OF assms(9), of name] p
    by (cases "has_dir st parent") (auto simp: Let_def)
qed

theorem stat_path_finds_entry_witness:
  "stat_path toy_crate toy_cell [0x61, 0x2F, 0x62, 0x2F] store_new True = Some (Inr (9, 0x20), True)"
proof -
  have "\<exists>w0. w0" by blast
  moreover have "store_inv (store_new :: (rstr, fat_dirent list) id_store)" by (rule store_inv_new)
  note stat_path_finds_entry [OF this, where parent = "[0x61]" and name = "[0x62]" and trailing = "[0x2F]"
      and fsc = toy_cell and fs = "()" and d = "[toy_entry]" and w = True and ?w1.0 = True
      and C = toy_crate and es = "[toy_entry]"]
  ultimately show ?thesis
    using toy_yields [of True "[toy_entry]"]
    by (simp add: slash_def entry_result_def toy_entry_def trim_end_slashes_def)
qed

text \<open>
  The root directory cannot be looked up: \<open>stat_path\<close> of a path of slashes only (or of the
  empty path) searches the root for an entry with an empty name, so it answers
  file-not-found on every file system whose entries have names.
\<close>

theorem stat_root_not_found:
  assumes "set path \<subseteq> {slash}" "get_cell fsc = Inr fs"
    and "w1 = fc_drop_dir C (fc_root_dir C fs) w" "yields C w1 (fc_iter C (fc_root_dir C fs)) es"
    and "\<And>e. e \<in> set es \<Longrightarrow> \<not> set (file_name e) \<subseteq> {slash}"
  shows "stat_path C fsc path st w = Some (Inl NX_FATDRIVE_ERR_FILE_NOT_FOUND, w1)"
proof -
  have n: "trim_end_slashes (replace_slashes path) = []"
    by (rule trim_slashes_only [OF replace_slashes_only [OF assms(1)]])
  have "trim_end_slashes (file_name e) \<noteq> []" if "e \<in> set es" for e
    using assms(5) [OF that] by (auto simp: trim_end_slashes_def dropWhile_eq_Nil_conv)
  then have "entry_result [] es = Inl NX_FATDRIVE_ERR_FILE_NOT_FOUND"
    by (simp add: entry_result_def find_None_iff [THEN iffD2])
  then show ?thesis
    unfolding stat_path_def Let_def n
    using assms(2,3) find_entry_yields [OF assms(4), of "[]"] rsplit_slash_path(2) [of "[]"]
    by (simp add: Let_def)
qed

theorem stat_root_not_found_witness:
  "stat_path toy_crate toy_cell [0x2F] store_new True = Some (Inl NX_FATDRIVE_ERR_FILE_NOT_FOUND, True)"
proof (rule stat_root_not_found)
  show "yields toy_crate True (fc_iter toy_crate (fc_root_dir toy_crate ())) [toy_entry]"
    using toy_yields [of True "[toy_entry]"] by simp
qed (auto simp: slash_def toy_entry_def)

end
