(* ===== verification/UsbFsInv.thy ===== *)
theory UsbFsInv
  imports UsbFsFiles IdStoreThms
begin

text \<open>
  The C interface as a state machine: its state-changing calls as steps on the globals, the
  states they can reach, and the invariant of those states.
\<close>

section \<open>Calls and steps\<close>

datatype api_call =
    OpenFile bytes u64 | CloseFile u64 | ReadFile u64 bytes | WriteFile u64 bytes
  | SeekFile u64 u64 u64 | SyncFile u64 | TruncateFile u64 u64 | DeleteFile bytes | CreateFile bytes
  | OpenDir bytes | ReadDir u64 bytes | CloseDir u64 | CreateDir bytes | DeleteDir bytes

fun run_call ::
  "('w, 'fs, 'f, 'd, 'it) fat_crate \<Rightarrow> api_call \<Rightarrow> ('u, 'info, 'fs, 'f, 'd) globals \<Rightarrow> 'w
     \<Rightarrow> ('u, 'info, 'fs, 'f, 'd) globals \<times> 'w" where
  "run_call C (OpenFile p m) g w = snd (usbFsOpenFile C p m g w)"
| "run_call C (CloseFile i) g w = snd (usbFsCloseFile C i g w)"
| "run_call C (ReadFile i b) g w = snd (usbFsReadFile C i b g w)"
| "run_call C (WriteFile i b) g w = snd (usbFsWriteFile C i b g w)"
| "run_call C (SeekFile i p wh) g w = snd (usbFsSeekFile C i p wh g w)"
| "run_call C (SyncFile i) g w = snd (usbFsSyncFile C i g w)"
| "run_call C (TruncateFile i n) g w = snd (usbFsTruncateFile C i n g w)"
| "run_call C (DeleteFile p) g w = snd (usbFsDeleteFile C p g w)"
| "run_call C (CreateFile p) g w = snd (usbFsCreateFile C p g w)"
| "run_call C (OpenDir p) g w = snd (usbFsOpenDir C p g w)"
| "run_call C (ReadDir i m) g w = snd (usbFsReadDir C i m g w)"
| "run_call C (CloseDir i) g w = snd (usbFsCloseDir C i g w)"
| "run_call C (CreateDir p) g w = snd (usbFsCreateDir C p g w)"
| "run_call C (DeleteDir p) g w = snd (usbFsDeleteDir C p g w)"

text \<open>The id counter of the table, if there is one, has not reached its maximum.\<close>

definition globals_room :: "('u, 'info, 'fs, 'f, 'd) globals \<Rightarrow> bool" where
  "globals_room g = (case cell_ptr (id_store_ptr g) of None \<Rightarrow> True | Some st \<Rightarrow> ids_left st)"

text \<open>
  A panic poisons every mutex the panicking call holds; which ones is left open. Nothing takes the
  poison off again.
\<close>

definition poison :: "bool \<Rightarrow> 'a cell \<Rightarrow> 'a cell" where
  "poison b c = c\<lparr>poisoned := poisoned c \<or> b\<rparr>"

inductive api_step ::
  "('w, 'fs, 'f, 'd, 'it) fat_crate \<Rightarrow> ('w, 'u, 'info, 'evt, 'h, 'ep, 'dev, 'fs) usb_sys
     \<Rightarrow> ('u, 'info, 'fs, 'f, 'd) globals \<times> 'w \<Rightarrow> ('u, 'info, 'fs, 'f, 'd) globals \<times> 'w \<Rightarrow> bool"
  for C U where
  step_init: "usbFsInitialize U g w = Some (r, g', w') \<Longrightarrow> api_step C U (g, w) (g', w')"
| step_exit: "usbFsExit C U g w = (g', w') \<Longrightarrow> api_step C U (g, w) (g', w')"
| step_call: "globals_room g \<Longrightarrow> run_call C c g w = (g', w') \<Longrightarrow> api_step C U (g, w) (g', w')"
| step_poison: "api_step C U (g, w) (g\<lparr>usb_hs_ctx_ptr := poison a (usb_hs_ctx_ptr g),
      fs_ptr := poison b (fs_ptr g), id_store_ptr := poison d (id_store_ptr g)\<rparr>, w)"

inductive_cases api_stepE: "api_step C U (g, w) (g', w')"

inductive reachable ::
  "('w, 'fs, 'f, 'd, 'it) fat_crate \<Rightarrow> ('w, 'u, 'info, 'evt, 'h, 'ep, 'dev, 'fs) usb_sys
     \<Rightarrow> ('u, 'info, 'fs, 'f, 'd) globals \<Rightarrow> 'w \<Rightarrow> bool"
  for C U where
  reach_init: "reachable C U globals_init w"
| reach_step: "reachable C U g w \<Longrightarrow> api_step C U (g, w) (g', w') \<Longrightarrow> reachable C U g' w'"

section \<open>The invariant\<close>

text \<open>
  The table exists only while the file system does, and that only while the USB context
  does: the handles of the table borrow the file system. A table is well formed.
\<close>

definition globals_inv :: "('u, 'info, 'fs, 'f, 'd) globals \<Rightarrow> bool" where
  "globals_inv g \<longleftrightarrow>
     (\<forall>st. cell_ptr (id_store_ptr g) = Some st \<longrightarrow> store_inv st \<and> cell_ptr (fs_ptr g) \<noteq> None)
     \<and> (cell_ptr (fs_ptr g) \<noteq> None \<longrightarrow> cell_ptr (usb_hs_ctx_ptr g) \<noteq> None)"

lemma get_cell_Inr_iff: "get_cell c = Inr r \<longleftrightarrow> \<not> poisoned c \<and> cell_ptr c = Some r"
  by (auto simp: get_cell_def split: option.splits)

lemma with_store_inv:
  assumes "globals_inv g"
    and "\<And>st. cell_ptr (id_store_ptr g) = Some st \<Longrightarrow> store_inv st \<Longrightarrow> store_inv (fst (snd (k st)))"
  shows "globals_inv (fst (snd (with_store g w k)))"
proof (cases "get_cell (id_store_ptr g)")
  case (Inr st)
  then have p: "cell_ptr (id_store_ptr g) = Some st" by (simp add: get_cell_Inr_iff)
  with assms have "store_inv (fst (snd (k st)))" by (simp add: globals_inv_def)
  with Inr p assms(1) show ?thesis
    by (auto simp: with_store_def globals_inv_def set_cell_def split: prod.splits)
qed (use assms(1) in \<open>simp add: with_store_def\<close>)

lemma with_path_inv:
  assumes "globals_inv (fst s)" "\<And>path. globals_inv (fst (snd (k path)))"
  shows "globals_inv (fst (snd (with_path mem k s)))"
  using assms by (simp add: with_path_def split: option.splits)

lemma with_file_inv:
  assumes "store_inv st"
  shows "store_inv (fst (snd (with_file i w k st)))"
  using assms set_file_handle_inv [OF assms]
  by (auto simp: with_file_def split: sum.splits prod.splits)

lemma in_root_store [simp]: "fst (snd (in_root C fsc k st w)) = st"
  by (simp add: in_root_def split: sum.splits prod.splits)

lemma globals_room_st: "globals_room g \<Longrightarrow> cell_ptr (id_store_ptr g) = Some st \<Longrightarrow> ids_left st"
  by (simp add: globals_room_def)

lemma call_inv_open_file:
  assumes "globals_inv g" "globals_room g"
  shows "globals_inv (fst (snd (usbFsOpenFile C p m g w)))"
  unfolding usbFsOpenFile_def
  by (intro with_path_inv with_store_inv)
    (use assms store_open_file_inv globals_room_st in \<open>fastforce split: prod.splits\<close>)+

lemma call_inv_open_dir:
  assumes "globals_inv g" "globals_room g"
  shows "globals_inv (fst (snd (usbFsOpenDir C p g w)))"
  unfolding usbFsOpenDir_def
  by (intro with_path_inv with_store_inv)
    (use assms store_open_dir_inv globals_room_st in \<open>fastforce split: prod.splits\<close>)+

lemma call_inv_file_ops:
  assumes "globals_inv g"
  shows "globals_inv (fst (snd (usbFsReadFile C i b g w)))"
    "globals_inv (fst (snd (usbFsWriteFile C i b g w)))"
    "globals_inv (fst (snd (usbFsSeekFile C i p wh g w)))"
    "globals_inv (fst (snd (usbFsSyncFile C i g w)))"
    "globals_inv (fst (snd (usbFsTruncateFile C i n g w)))"
  unfolding usbFsReadFile_def usbFsWriteFile_def usbFsSeekFile_def usbFsSyncFile_def usbFsTruncateFile_def
  by (rule with_store_inv [OF assms], erule with_file_inv)+

lemma call_inv_close:
  assumes "globals_inv g"
  shows "globals_inv (fst (snd (usbFsCloseFile C i g w)))"
    "globals_inv (fst (snd (usbFsCloseDir C i g w)))"
  unfolding usbFsCloseFile_def usbFsCloseDir_def
  by (rule with_store_inv [OF assms],
      use store_close_file_inv store_close_dir_inv in \<open>fastforce split: prod.splits\<close>)+

lemma call_inv_delete_file:
  assumes "globals_inv g"
  shows "globals_inv (fst (snd (usbFsDeleteFile C p g w)))"
  unfolding usbFsDeleteFile_def Let_def
  by (intro with_path_inv with_store_inv)
    (use assms store_close_file_inv in \<open>fastforce split: prod.splits option.splits sum.splits\<close>)+

lemma call_inv_delete_dir:
  assumes "globals_inv g"
  shows "globals_inv (fst (snd (usbFsDeleteDir C p g w)))"
  unfolding usbFsDeleteDir_def Let_def
  by (intro with_path_inv with_store_inv)
    (use assms store_close_dir_inv in \<open>fastforce split: prod.splits option.splits sum.splits\<close>)+

lemma call_inv_create:
  assumes "globals_inv g"
  shows "globals_inv (fst (snd (usbFsCreateFile C p g w)))"
    "globals_inv (fst (snd (usbFsCreateDir C p g w)))"
  unfolding usbFsCreateFile_def usbFsCreateDir_def
  by (intro with_path_inv with_store_inv;
      use assms in \<open>simp split: option.splits\<close>)+

lemma call_inv_read_dir:
  assumes "globals_inv g"
  shows "globals_inv (fst (snd (usbFsReadDir C i m g w)))"
proof -
  have "globals_inv (fst (snd (with_store g w (\<lambda>st.
        case read_next_dirent C i st w of (r, st1, w1) \<Rightarrow> (code_of r, st1, w1)))))"
    by (rule with_store_inv [OF assms]) (use read_next_dirent_inv in \<open>fastforce split: prod.splits\<close>)
  then show ?thesis
    by (auto simp: usbFsReadDir_def split: prod.splits option.splits)
qed

lemmas call_inv = call_inv_open_file call_inv_open_dir call_inv_file_ops call_inv_close
  call_inv_delete_file call_inv_delete_dir call_inv_create call_inv_read_dir

lemma run_call_inv:
  "globals_inv g \<Longrightarrow> globals_room g \<Longrightarrow> run_call C c g w = (g', w') \<Longrightarrow> globals_inv g'"
  by (cases c) (metis call_inv fst_conv run_call.simps)+

lemma exit_usb_inv:
  "globals_inv g \<Longrightarrow> cell_ptr (fs_ptr g) = None \<Longrightarrow> exit_usb U g w = (g', w') \<Longrightarrow> globals_inv g'"
  by (auto simp: exit_usb_def globals_inv_def set_cell_def split: if_splits option.splits)

lemma clear_fs_inv:
  "globals_inv g \<Longrightarrow> cell_ptr (id_store_ptr g) = None \<Longrightarrow>
    globals_inv (g\<lparr>fs_ptr := set_cell None (fs_ptr g)\<rparr>)"
  by (simp add: globals_inv_def set_cell_def)

lemma clear_store_inv:
  "globals_inv g \<Longrightarrow> globals_inv (g\<lparr>id_store_ptr := set_cell None (id_store_ptr g)\<rparr>)"
  by (simp add: globals_inv_def set_cell_def)

lemma exit_fs_inv:
  assumes "globals_inv g" "cell_ptr (id_store_ptr g) = None" "exit_fs C U g w = (g', w')"
  shows "globals_inv g'"
proof (cases "poisoned (fs_ptr g)")
  case False
  show ?thesis
  proof (cases "cell_ptr (fs_ptr g)")
    case None
    with False assms(3) have "exit_usb U g w = (g', w')" by (simp add: exit_fs_def)
    then show ?thesis by (rule exit_usb_inv [OF assms(1) None])
  next
    case (Some fs)
    with False assms(3) have "exit_usb U (g\<lparr>fs_ptr := set_cell None (fs_ptr g)\<rparr>) (fc_drop_fs C fs w) = (g', w')"
      by (simp add: exit_fs_def)
    from exit_usb_inv [OF clear_fs_inv [OF assms(1,2)] _ this] show ?thesis
      by (simp add: set_cell_def)
  qed
qed (use assms in \<open>simp add: exit_fs_def\<close>)

lemma exit_inv:
  assumes "globals_inv g" "usbFsExit C U g w = (g', w')"
  shows "globals_inv g'"
proof -
  obtain b w1 where l: "us_open_log U w = (b, w1)" by fastforce
  show ?thesis
  proof (cases "b \<and> \<not> poisoned (id_store_ptr g)")
    case True
    show ?thesis
    proof (cases "cell_ptr (id_store_ptr g)")
      case None
      with True l assms have "exit_fs C U g w1 = (g', w')" by (simp add: usbFsExit_def)
      then show ?thesis by (rule exit_fs_inv [OF assms(1) None])
    next
      case (Some st)
      with True l assms have e: "exit_fs C U (g\<lparr>id_store_ptr := set_cell None (id_store_ptr g)\<rparr>)
          (drop_store C st w1) = (g', w')" by (simp add: usbFsExit_def)
      show ?thesis
        by (rule exit_fs_inv [OF clear_store_inv [OF assms(1)] _ e]) (simp add: set_cell_def)
    qed
  qed (use l assms in \<open>auto simp: usbFsExit_def split: bool.splits if_splits\<close>)
qed

lemma mount_device_inv:
  assumes "globals_inv g" "mount_device U u h g w = Some (r, g', w')"
  shows "globals_inv g'"
  using assms
  by (auto simp: mount_device_def mount_fs_def mount_store_def globals_inv_def set_cell_def Let_def
      store_inv_new split: exec.splits sum.splits prod.splits option.splits)

lemma init_inv:
  assumes "globals_inv g" "usbFsInitialize U g w = Some (r, g', w')"
  shows "globals_inv g'"
  using assms mount_device_inv [OF assms(1)]
  by (auto simp: usbFsInitialize_def split: if_splits prod.splits sum.splits)

lemma step_inv: "globals_inv g \<Longrightarrow> api_step C U (g, w) (g', w') \<Longrightarrow> globals_inv g'"
  by (erule api_stepE) (auto intro: init_inv exit_inv run_call_inv, simp add: globals_inv_def poison_def)

lemma reachable_inv: "reachable C U g w \<Longrightarrow> globals_inv g"
proof (induction rule: reachable.induct)
  case (reach_init w)
  then show ?case by (simp add: globals_inv_def globals_init_def null_cell_def)
qed (rule step_inv)

end
