(* ===== verification/UsbFsThms.thy ===== *)
theory UsbFsThms
  imports UsbFsInv RamDisk
begin

text \<open>
  The properties of the C interface: reachable states, mounting and unmounting, the partition
  offset, and the argument handling of the calls.
\<close>

section \<open>An instance\<close>

text \<open>
  A bus with one drive: the interface is accepted, the disk is the one of \<open>RamDisk\<close> with
  blocks of 512 bytes, its boot sector lists one partition, and the log file opens.
\<close>

definition toy_iface :: usb_interface where
  "toy_iface = \<lparr>device_desc = \<lparr>class_of = 8, subclass_of = 6, protocol_of = 80\<rparr>,
     interface_desc = \<lparr>class_of = 8, subclass_of = 6, protocol_of = 80\<rparr>,
     input_endpoint_descs = [\<lparr>ep_address = 1, ep_direction = OUT\<rparr>],
     output_endpoint_descs = [\<lparr>ep_address = 0x81, ep_direction = IN\<rparr>]\<rparr>"

definition toy_scsi :: "bytes scsi_ops" where
  "toy_scsi = \<lparr>op_block_size = (\<lambda>_. 512),
     op_read = (\<lambda>d raw v. (Inr 512, d, v\<lparr>inner := take 512 (drop (unat raw) d)\<rparr>)),
     op_write = (\<lambda>d raw v. (Inr 512, take (unat raw) d @ inner v @ drop (unat raw + 512) d, v\<lparr>inner := []\<rparr>)),
     op_clear = (\<lambda>v. (Inr (), v\<lparr>inner := []\<rparr>)), op_is_empty = (\<lambda>v. inner v = []),
     op_is_connected = (\<lambda>_. True)\<rparr>"

definition toy_disk :: bytes where
  "toy_disk = replicate 512 0"

definition toy_spec :: "bytes disk_spec" where
  "toy_spec = \<lparr>spec_bs = 512, spec_size = 512, spec_content = (\<lambda>d a. if a < 512 then d ! a else 0),
     spec_ok = (\<lambda>d. length d = 512)\<rparr>"

lemma toy_disk_laws: "disk_laws toy_scsi toy_spec"
proof -
  have "read_law toy_scsi toy_spec"
    unfolding read_law_def toy_scsi_def toy_spec_def by (auto intro!: nth_equalityI)
  moreover have "write_law toy_scsi toy_spec"
    unfolding write_law_def toy_scsi_def toy_spec_def
    by (auto simp: fun_eq_iff nth_append nth_take nth_drop min_def)
  ultimately show ?thesis
    by (auto simp: disk_laws_def buffer_law_def) (simp_all add: toy_scsi_def toy_spec_def)
qed

definition toy_api :: "(unit, unit, libnx_error) usb_api" where
  "toy_api = \<lparr>open_endpoint = (\<lambda>h d. (Inr (), h)), ep_read = (\<lambda>ep sl. (Inr 0, ep, sl)),
     ep_write = (\<lambda>ep sl. (Inr 0, ep)), handle_is_connected = (\<lambda>_. Inr True),
     alloc_ok = (\<lambda>_. True), from_msg = (\<lambda>_. \<lparr>error_code = None\<rparr>)\<rparr>"

definition toy_usb :: "(bool, unit, usb_interface, unit, unit, unit, bytes, unit) usb_sys" where
  "toy_usb = \<lparr>us_api = toy_api, us_from_raw = (\<lambda>c. \<lparr>error_code = Some c\<rparr>),
     us_initialize = (\<lambda>w. (Inr (), w)), us_event_create = (\<lambda>f w. (Inr (), w)),
     us_event_wait = (\<lambda>e t w. (Inr (), w)), us_query_available = (\<lambda>u f n w. (Inr [toy_iface], w)),
     us_query_acquired = (\<lambda>u n w. (Inr [toy_iface], w)), us_acquire = (\<lambda>u i w. (Inr (), w)),
     us_interface = (\<lambda>_. toy_iface), us_info = id, us_drop_ctx = (\<lambda>u w. w),
     us_new_scsi = (\<lambda>c a b d w. (Inr toy_disk, w)), us_scsi = toy_scsi,
     us_parse_mbr = (\<lambda>_. Inr [\<lparr>partition_type = Fat32, logical_block_address = 2048, sector_count = 100\<rparr>]),
     us_new_fs = (\<lambda>d w. (Inr (), w)), us_open_log = (\<lambda>w. (w, w))\<rparr>"

lemma toy_scsi_simps [simp]: "op_block_size toy_scsi d = 512"
  by (simp add: toy_scsi_def)

lemma toy_usb_simps [simp]:
  "us_from_raw toy_usb c = \<lparr>error_code = Some c\<rparr>" "us_initialize toy_usb w = (Inr (), w)"
  "us_event_create toy_usb f w = (Inr (), w)" "us_event_wait toy_usb v t w = (Inr (), w)"
  "us_query_available toy_usb u f n w = (Inr [toy_iface], w)"
  "us_acquire toy_usb u i w = (Inr (), w)" "us_interface toy_usb h = toy_iface"
  "us_drop_ctx toy_usb u w = w" "us_new_scsi toy_usb cl x y z w = (Inr toy_disk, w)"
  "us_scsi toy_usb = toy_scsi"
  "us_parse_mbr toy_usb b
    = Inr [\<lparr>partition_type = Fat32, logical_block_address = 2048, sector_count = 100\<rparr>]"
  "us_new_fs toy_usb d w = (Inr (), w)" "us_open_log toy_usb w = (w, w)"
  by (simp_all add: toy_usb_def)

lemma toy_endpoints [simp]:
  "retrieve_iface_endpoints m toy_iface
    = Inr (\<lparr>ep_address = 0x81, ep_direction = IN\<rparr>, \<lparr>ep_address = 1, ep_direction = OUT\<rparr>)"
  by (simp add: retrieve_iface_endpoints_def toy_iface_def)

lemma toy_client [simp]:
  "usb_client_new (us_api toy_usb) h r w = Inr \<lparr>device_handle = (), read_endpoint = (), write_endpoint = ()\<rparr>"
  by (simp add: usb_client_new_def toy_usb_def toy_api_def)

section \<open>Reachable states\<close>

text \<open>
  C8: In every state the C interface can reach from the start, through any sequence of calls,
  failed mounts and poisoned mutexes included, the id table exists only while the file system
  its handles borrow exists, the file system only while the USB context exists, and the
  table is well formed.
\<close>

theorem reachable_globals:
  assumes "reachable C U g w"
  shows "(cell_ptr (id_store_ptr g) \<noteq> None \<longrightarrow> cell_ptr (fs_ptr g) \<noteq> None)
    \<and> (cell_ptr (fs_ptr g) \<noteq> None \<longrightarrow> cell_ptr (usb_hs_ctx_ptr g) \<noteq> None)
    \<and> (\<forall>st. cell_ptr (id_store_ptr g) = Some st \<longrightarrow> store_inv st)"
  using reachable_inv [OF assms] by (auto simp: globals_inv_def)

section \<open>Mounting\<close>

text \<open>The errors of libnx carry no code or a code that is not 0.\<close>

definition no_zero_codes :: "('w, 'u, 'info, 'evt, 'h, 'ep, 'dev, 'fs) usb_sys \<Rightarrow> bool" where
  "no_zero_codes U \<longleftrightarrow>
     (\<forall>m. error_code (from_msg (us_api U) m) \<noteq> Some 0)
     \<and> (\<forall>c. c \<noteq> 0 \<longrightarrow> error_code (us_from_raw U c) \<noteq> Some 0)
     \<and> (\<forall>w e w'. us_initialize U w = (Inl e, w') \<longrightarrow> error_code e \<noteq> Some 0)
     \<and> (\<forall>f w e w'. us_event_create U f w = (Inl e, w') \<longrightarrow> error_code e \<noteq> Some 0)
     \<and> (\<forall>v t w e w'. us_event_wait U v t w = (Inl e, w') \<longrightarrow> error_code e \<noteq> Some 0)
     \<and> (\<forall>u f n w e w'. us_query_available U u f n w = (Inl e, w') \<longrightarrow> error_code e \<noteq> Some 0)
     \<and> (\<forall>u i w e w'. us_acquire U u i w = (Inl e, w') \<longrightarrow> error_code e \<noteq> Some 0)
     \<and> (\<forall>h d e h'. open_endpoint (us_api U) h d = (Inl e, h') \<longrightarrow> error_code e \<noteq> Some 0)"

lemma no_zero_codesD:
  assumes "no_zero_codes U"
  shows "error_code (from_msg (us_api U) m) \<noteq> Some 0"
    "c \<noteq> 0 \<Longrightarrow> error_code (us_from_raw U c) \<noteq> Some 0"
    "us_initialize U w = (Inl e, w') \<Longrightarrow> error_code e \<noteq> Some 0"
    "us_event_create U f w = (Inl e, w') \<Longrightarrow> error_code e \<noteq> Some 0"
    "us_event_wait U v t w = (Inl e, w') \<Longrightarrow> error_code e \<noteq> Some 0"
    "us_query_available U u f n w = (Inl e, w') \<Longrightarrow> error_code e \<noteq> Some 0"
    "us_acquire U u i w = (Inl e, w') \<Longrightarrow> error_code e \<noteq> Some 0"
    "open_endpoint (us_api U) h d = (Inl e, h') \<Longrightarrow> error_code e \<noteq> Some 0"
  using assms unfolding no_zero_codes_def by metis+

lemma map_exec_Inr_not_Err [simp]: "map_exec Inr x \<noteq> Err e"
  by (cases x) auto

lemma mapped_nonzero: "io_error_map e \<noteq> 0" "scsi_error_map s \<noteq> 0" "mbr_error_map m \<noteq> 0"
  using io_mapper.not_success [of e] scsi_mapper.not_success [of s] mbr_mapper.not_success [of m]
  by (simp_all add: SUCCESS_def)

lemma libnx_nonzero: "error_code e \<noteq> Some 0 \<Longrightarrow> libnx_error_map e \<noteq> 0"
  using libnx_error_map_success_iff [of e] by (simp add: SUCCESS_def)

lemma lock_err_nonzero: "lock_err c = Some e \<Longrightarrow> e \<noteq> 0"
  by (auto simp: lock_err_def poison_error_map_def err_consts split: if_splits)

lemma initialized_iff: "usbFsIsInitialized g = 0 \<longleftrightarrow>
    \<not> poisoned (id_store_ptr g) \<and> \<not> poisoned (usb_hs_ctx_ptr g) \<and> \<not> poisoned (fs_ptr g)
    \<and> cell_ptr (id_store_ptr g) \<noteq> None \<and> cell_ptr (usb_hs_ctx_ptr g) \<noteq> None \<and> cell_ptr (fs_ptr g) \<noteq> None"
  by (auto simp: usbFsIsInitialized_def lock_err_def poison_error_map_def err_consts split: option.splits)

lemma wait_nonzero:
  assumes "no_zero_codes U" "wait_for_usb_drive U u t w = (Inl e, w')"
  shows "error_code e \<noteq> Some 0"
  using assms(2) no_zero_codesD(2) [OF assms(1), of NX_FATDRIVE_ERR_DRIVE_NOT_FOUND]
  by (auto simp: wait_for_usb_drive_def err_consts dest: no_zero_codesD(4-7) [OF assms(1)]
      split: prod.splits sum.splits if_splits)

lemma endpoints_error:
  "retrieve_iface_endpoints msg i = Inl e \<Longrightarrow> \<exists>m. e = msg m"
  by (auto simp: retrieve_iface_endpoints_def Let_def split: if_splits list.splits)

lemma client_nonzero:
  assumes "no_zero_codes U" "usb_client_new (us_api U) h r w = Inl e"
  shows "error_code e \<noteq> Some 0"
  using assms(2)
  by (auto simp: usb_client_new_def dest: no_zero_codesD(8) [OF assms(1)] split: prod.splits sum.splits)

lemma parse_nonzero:
  assumes "no_zero_codes U" "parse_drive U h w = (Err e, w')"
  shows "error_code e \<noteq> Some 0"
proof (cases "retrieve_iface_endpoints (from_msg (us_api U)) (us_interface U h)")
  case (Inl e')
  with assms(2) have "e = e'" by (simp add: parse_drive_def)
  with assms(1) endpoints_error [OF Inl] show ?thesis by (auto simp: no_zero_codesD(1))
next
  case (Inr eps)
  have z: "error_code (us_from_raw U (scsi_error_map x)) \<noteq> Some 0" for x
    by (rule no_zero_codesD(2) [OF assms(1) mapped_nonzero(2)])
  show ?thesis
    using Inr assms(2) z client_nonzero [OF assms(1)]
    by (auto simp: parse_drive_def vec_new_eq split: prod.splits sum.splits)
qed

lemma open_partition_nonzero:
  assumes "no_zero_codes U" "open_partition U dev i = Some (Err e)"
  shows "error_code e \<noteq> Some 0"
proof -
  have z: "error_code (us_from_raw U (scsi_error_map x)) \<noteq> Some 0"
    "error_code (us_from_raw U (mbr_error_map y)) \<noteq> Some 0" for x y
    by (rule no_zero_codesD(2) [OF assms(1)], rule mapped_nonzero)+
  show ?thesis
    using assms(2) z
    by (auto simp: open_partition_def Let_def split: exec.splits option.splits prod.splits sum.splits if_splits)
qed

lemma mount_ok:
  assumes "no_zero_codes U" "mount_device U u h g w = Some (Ret 0, g', w')"
  shows "usbFsIsInitialized g' = 0 \<and> cell_ptr (id_store_ptr g') = Some store_new"
proof -
  have e: "libnx_error_map e \<noteq> 0" if "parse_drive U h w = (Err e, v)" for e v
    using libnx_nonzero [OF parse_nonzero [OF assms(1) that]] .
  have o: "libnx_error_map e \<noteq> 0" if "open_partition U d i = Some (Err e)" for d i e
    using libnx_nonzero [OF open_partition_nonzero [OF assms(1) that]] .
  obtain dev w1 part where p: "parse_drive U h w = (Ok dev, w1)" "lock_err (usb_hs_ctx_ptr g) = None"
      "open_partition U dev 0 = Some (Ok part)"
    using assms(2)
    by (auto simp: mount_device_def Let_def dest: e o lock_err_nonzero
        split: exec.splits prod.splits sum.splits option.splits)
  let ?g = "g\<lparr>usb_hs_ctx_ptr := set_cell (Some \<lparr>usb_hs_ctx = u,
      device_info = us_info U (us_interface U h)\<rparr>) (usb_hs_ctx_ptr g)\<rparr>"
  have m: "mount_fs U part ?g w1 = (0, g', w')"
    using assms(2) p by (auto simp: mount_device_def Let_def split: prod.splits)
  show ?thesis
    using m p(2)
    by (auto simp: mapped_nonzero mount_fs_def mount_store_def initialized_iff set_cell_def lock_err_def
        poison_error_map_def err_consts split: prod.splits sum.splits option.splits if_splits)
qed

lemma initialize_ok:
  assumes "no_zero_codes U" "usbFsInitialize U g w = Some (Ret 0, g', w')"
  shows "usbFsIsInitialized g' = SUCCESS
    \<and> (if usbFsIsInitialized g = SUCCESS then g' = g \<and> w' = w
       else cell_ptr (id_store_ptr g') = Some store_new)"
proof (cases "usbFsIsInitialized g = 0")
  case True
  with assms(2) show ?thesis by (simp add: usbFsInitialize_def SUCCESS_def)
next
  case False
  obtain x w1 where i: "us_initialize U w = (x, w1)" by fastforce
  obtain u where u: "x = Inr u"
    using assms(2) False i
    by (cases x) (auto simp: usbFsInitialize_def dest: no_zero_codesD(3) [OF assms(1)] libnx_nonzero)
  obtain y w2 where wt: "wait_for_usb_drive U u 1000 w1 = (y, w2)" by fastforce
  obtain h where "y = Inr h"
    using assms(2) False i u wt
    by (cases y) (auto simp: usbFsInitialize_def dest: wait_nonzero [OF assms(1)] libnx_nonzero)
  then have m: "mount_device U u h g w2 = Some (Ret 0, g', w')"
    using assms(2) False i u wt by (simp add: usbFsInitialize_def)
  show ?thesis
    using mount_ok [OF assms(1) m] False by (simp add: SUCCESS_def)
qed

text \<open>
  C14: If no error of libnx carries the code 0, then whenever \<open>usbFsInitialize\<close> returns 0 the file
  system is mounted: \<open>usbFsIsInitialized\<close> says so, and the id table is new unless the call
  found everything mounted and changed nothing.
\<close>

theorem initialize_success_mounts:
  assumes "no_zero_codes U" "usbFsInitialize U g w = Some (Ret 0, g', w')"
  shows "usbFsIsInitialized g' = SUCCESS
    \<and> (if usbFsIsInitialized g = SUCCESS then g' = g \<and> w' = w
       else cell_ptr (id_store_ptr g') = Some store_new)"
  by (rule initialize_ok [OF assms])

lemma mbr_loop_toy:
  "mbr_loop toy_scsi toy_disk \<lparr>inner = [], fake_size = n\<rparr>
    = Some (Inr (), toy_disk, \<lparr>inner = replicate 512 0, fake_size = n\<rparr>)"
  by (subst mbr_loop.simps, simp add: toy_scsi_def toy_disk_def) (subst mbr_loop.simps, simp)

lemma toy_partition: "\<exists>part. open_partition toy_usb toy_disk 0 = Some (Ok part)"
  by (simp add: open_partition_def with_fake_capacity_def mbr_loop_toy offset_scsi_new_def)

text \<open>Mounting the drive succeeds and leaves all three globals set.\<close>

lemma toy_mount:
  "\<exists>g' :: (unit, usb_interface, unit, rstr, fat_dirent list) globals.
    usbFsInitialize toy_usb globals_init True = Some (Ret 0, g', True) \<and> cell_ptr (id_store_ptr g') \<noteq> None"
proof -
  obtain part where "open_partition toy_usb toy_disk 0 = Some (Ok part)" using toy_partition by blast
  then show ?thesis
    by (simp add: usbFsInitialize_def usbFsIsInitialized_def globals_init_def null_cell_def lock_err_def
        wait_for_usb_drive_def mount_device_def Let_def parse_drive_def vec_new_eq
        mount_fs_def mount_store_def SUCCESS_def NX_FATDRIVE_ERR_NOT_INITIALIZED_def set_cell_def)
qed

theorem initialize_success_mounts_witness:
  "\<exists>g' :: (unit, usb_interface, unit, rstr, fat_dirent list) globals.
    usbFsInitialize toy_usb globals_init True = Some (Ret 0, g', True)
    \<and> usbFsIsInitialized g' = SUCCESS"
proof -
  obtain g' :: "(unit, usb_interface, unit, rstr, fat_dirent list) globals"
    where g: "usbFsInitialize toy_usb globals_init True = Some (Ret 0, g', True)"
    using toy_mount by blast
  moreover have "no_zero_codes toy_usb"
    by (simp add: no_zero_codes_def) (simp add: toy_usb_def toy_api_def)
  ultimately show ?thesis using initialize_success_mounts [OF _ g] by auto
qed

theorem reachable_globals_witness:
  "\<exists>g :: (unit, usb_interface, unit, rstr, fat_dirent list) globals.
    reachable toy_crate toy_usb g True \<and> cell_ptr (id_store_ptr g) \<noteq> None \<and> cell_ptr (fs_ptr g) \<noteq> None"
proof -
  obtain g :: "(unit, usb_interface, unit, rstr, fat_dirent list) globals"
    where g: "usbFsInitialize toy_usb globals_init True = Some (Ret 0, g, True)"
      and s: "cell_ptr (id_store_ptr g) \<noteq> None"
    using toy_mount by blast
  from g have r: "reachable toy_crate toy_usb g True"
    by (rule reach_step [OF reach_init step_init])
  show ?thesis using s r reachable_globals [OF r] by blast
qed

section \<open>The partition\<close>

text \<open>
  C30: On a working disk with blocks of at least 512 bytes, \<open>open_partition\<close> reads the boot sector
  in one step, and the partition it opens starts at block address times block size modulo
  4 GiB, with an empty clean cache over the unchanged bytes of the disk.
\<close>

theorem open_partition_offset:
  assumes "disk_laws (us_scsi U) D" "spec_ok D dev" "512 \<le> spec_bs D" "0 < spec_size D"
    and "us_parse_mbr U (List.map (spec_content D dev) [0 ..< spec_bs D]) = Inr entries"
    and "idx < length entries"
  shows "\<exists>s. open_partition U dev idx = Some (Ok s)
    \<and> unat (partition_start s) = (unat (logical_block_address (entries ! idx)) * spec_bs D) mod 2 ^ 32
    \<and> osd_inv (us_scsi U) D s \<and> osd_view D s = spec_content D dev
    \<and> partition_idx s = 0 \<and> \<not> needs_flush s"
proof -
  let ?ops = "us_scsi U"
  have bs: "unat (op_block_size ?ops d) = spec_bs D" if "spec_ok D d" for d
    using assms(1) that by (simp add: disk_laws_def)
  have cap: "max 512 (ucast (op_block_size ?ops dev) :: usize) = ucast (op_block_size ?ops dev)"
    using bs [OF assms(2)] assms(3) by (simp add: max_def word_le_nat_alt)
  obtain v where v: "with_fake_capacity (max 512 (ucast (op_block_size ?ops dev))) = Ret v"
      "inner v = []" "unat (fake_size v) = spec_bs D"
    using unat32_less [of "op_block_size ?ops dev"] bs [OF assms(2)]
    by (simp add: cap with_fake_capacity_def)
  have "spec_bs D dvd spec_size D" using assms(1) by (simp add: disk_laws_def)
  then have "spec_bs D \<le> spec_size D" using assms(4) by (simp add: dvd_imp_le)
  then obtain n d v' where rd: "op_read ?ops dev 0 v = (Inr n, d, v')" "spec_ok D d"
      "spec_content D d = spec_content D dev"
      "inner v' = List.map (spec_content D dev) [0 ..< spec_bs D]"
    using read_lawD [of ?ops D dev v 0] assms(1,2) v(2,3) by (auto simp: disk_laws_def)
  have len: "length (inner v') = spec_bs D" using rd(4) by simp
  have "mbr_loop ?ops d v' = Some (Inr (), d, v')"
    using len assms(3) by (subst mbr_loop.simps) simp
  then have l: "mbr_loop ?ops dev v = Some (Inr (), d, v')"
    using rd(1) v(2) by (subst mbr_loop.simps) simp
  let ?start = "ucast (logical_block_address (entries ! idx) * op_block_size ?ops d) :: usize"
  obtain s where s: "offset_scsi_new ?ops d ?start = Ret s" "osd_inv ?ops D s"
      "osd_view D s = spec_content D d" "partition_start s = ?start"
    using offset_scsi_new_inv [OF assms(1) rd(2)] by blast
  have "partition_idx s = 0 \<and> \<not> needs_flush s"
    using s(1) by (auto simp: offset_scsi_new_def with_fake_capacity_def split: if_splits)
  moreover have "unat ?start = (unat (logical_block_address (entries ! idx)) * spec_bs D) mod 2 ^ 32"
    using bs [OF rd(2)] by (simp add: unat_word_ariths)
  moreover have "open_partition U dev idx = Some (Ok s)"
    using v(1) l rd(4) assms(5,6) s(1) by (simp add: open_partition_def Let_def)
  ultimately show ?thesis using s rd(3) by auto
qed

theorem open_partition_offset_witness:
  "\<exists>s. open_partition toy_usb toy_disk 0 = Some (Ok s) \<and> unat (partition_start s) = 2048 * 512"
proof -
  have l: "disk_laws (us_scsi toy_usb) toy_spec" using toy_disk_laws by simp
  show ?thesis
    using open_partition_offset [OF l, of toy_disk
        "[\<lparr>partition_type = Fat32, logical_block_address = 2048, sector_count = 100\<rparr>]" 0]
    by (auto simp: toy_spec_def toy_disk_def)
qed

lemma mbr_loop_hangs:
  assumes "mbr_loop ops d v = Some z" "length (inner v) < 512"
    "\<And>d raw v. \<exists>n d'. op_read ops d raw v = (Inr n, d', v)"
  shows False
  using assms
proof (induction ops d v z rule: mbr_loop.raw_induct [rotated, consumes 1])
  case (1 mbr_loop ops d v z)
  obtain n d' where "op_read ops d (of_nat (length (inner v))) v = (Inr n, d', v)"
    using 1(4) by blast
  with 1(2,3) have "mbr_loop ops d' v = Some z" by simp
  then show ?case using 1(1) [OF _ 1(3,4)] by (metis prod_cases3)
qed

text \<open>
  C31: The loop that fills the boot-sector buffer has no bound: on a device whose reads succeed
  without delivering bytes, \<open>open_partition\<close> does not return.
\<close>

theorem open_partition_hangs:
  assumes "\<And>d raw v. \<exists>n d'. op_read (us_scsi U) d raw v = (Inr n, d', v)"
  shows "open_partition U dev idx = None"
proof -
  have "unat (max 512 (ucast (op_block_size (us_scsi U) dev) :: usize)) < 2 ^ 63"
    using unat32_less [of "op_block_size (us_scsi U) dev"] by (simp add: max_def)
  then obtain v where v: "with_fake_capacity (max 512 (ucast (op_block_size (us_scsi U) dev))) = Ret v"
      "inner v = []"
    by (simp add: with_fake_capacity_def)
  have "mbr_loop (us_scsi U) dev v = None"
    using mbr_loop_hangs [OF _ _ assms, of dev v] v(2) by (cases "mbr_loop (us_scsi U) dev v") auto
  with v show ?thesis by (simp add: open_partition_def)
qed

theorem open_partition_hangs_witness:
  "open_partition (toy_usb\<lparr>us_scsi := toy_scsi\<lparr>op_read := \<lambda>d raw v. (Inr 0, d, v)\<rparr>\<rparr>) toy_disk 0 = None"
  by (rule open_partition_hangs) simp

section \<open>Unmounting\<close>

lemma exit_usb_state:
  "\<not> poisoned (usb_hs_ctx_ptr g) \<Longrightarrow>
     fst (exit_usb U g w) = g\<lparr>usb_hs_ctx_ptr := set_cell None (usb_hs_ctx_ptr g)\<rparr>"
  by (cases "cell_ptr (usb_hs_ctx_ptr g)") (simp_all add: exit_usb_def set_cell_def)

lemma exit_fs_state:
  assumes "\<not> poisoned (fs_ptr g)" "\<not> poisoned (usb_hs_ctx_ptr g)"
  shows "fst (exit_fs C U g w) = g\<lparr>usb_hs_ctx_ptr := set_cell None (usb_hs_ctx_ptr g),
    fs_ptr := set_cell None (fs_ptr g)\<rparr>"
  using assms
  by (cases "cell_ptr (fs_ptr g)") (simp_all add: exit_fs_def exit_usb_state, simp add: set_cell_def)

text \<open>
  When no mutex is poisoned, \<open>usbFsExit\<close> clears all three globals if its log file opens, so
  that \<open>usbFsIsInitialized\<close> says not initialised; if the log file cannot be created it returns
  having unmounted nothing.
\<close>

theorem exit_unmounts_iff_log:
  assumes "\<not> poisoned (id_store_ptr g)" "\<not> poisoned (fs_ptr g)" "\<not> poisoned (usb_hs_ctx_ptr g)"
  shows "if fst (us_open_log U w)
    then cell_ptr (id_store_ptr (fst (usbFsExit C U g w))) = None
      \<and> cell_ptr (fs_ptr (fst (usbFsExit C U g w))) = None
      \<and> cell_ptr (usb_hs_ctx_ptr (fst (usbFsExit C U g w))) = None
      \<and> usbFsIsInitialized (fst (usbFsExit C U g w)) = NX_FATDRIVE_ERR_NOT_INITIALIZED
    else fst (usbFsExit C U g w) = g"
proof -
  obtain b w1 where l: "us_open_log U w = (b, w1)" by fastforce
  show ?thesis
    using assms l
    by (cases "cell_ptr (id_store_ptr g)"; cases b)
      (simp_all add: usbFsExit_def exit_fs_state usbFsIsInitialized_def lock_err_def, simp_all add: set_cell_def)
qed

theorem exit_unmounts_iff_log_witness:
  "\<exists>g' :: (unit, usb_interface, unit, rstr, fat_dirent list) globals.
    fst (usbFsExit toy_crate toy_usb globals_init True) = g'
    \<and> usbFsIsInitialized g' = NX_FATDRIVE_ERR_NOT_INITIALIZED"
  using exit_unmounts_iff_log [of "globals_init :: (unit, usb_interface, unit, rstr, fat_dirent list) globals"
      toy_usb True toy_crate]
  by (simp add: globals_init_def null_cell_def toy_usb_def)

section \<open>Arguments\<close>

text \<open>
  C36: A relative seek by a negative offset is one short: for an offset at or above \<open>2 ^ 63\<close>, the
  two's-complement form of a negative number, the file is asked to move by that number plus
  one, so that seeking by -1 does not move; other offsets are passed as they are.
\<close>

theorem seek_negative_off_by_one:
  "sint (seek_rel pos) = (if sint pos < 0 then sint pos + 1 else sint pos)
    \<and> seek_target pos 1 = Some (Current (seek_rel pos))
    \<and> seek_target (- 1) 1 = Some (Current 0)"
proof -
  have rel: "seek_rel pos = (if 0x7FFFFFFFFFFFFFFF < pos then pos + 1 else pos)"
    by (simp add: seek_rel_def)
  have "sint (seek_rel pos) = (if sint pos < 0 then sint pos + 1 else sint pos)"
  proof (cases "0x7FFFFFFFFFFFFFFF < pos")
    case True
    show ?thesis
    proof (cases "pos = - 1")
      case True
      then show ?thesis by (simp add: seek_rel_def)
    next
      case no_max: False
      obtain n where n: "unat pos = n" by simp
      have big: "2 ^ 63 \<le> n" using True n by (simp add: word_less_nat_alt)
      have m: "unat (pos + 1) = Suc n"
        using no_max n unatSuc [of pos] by (auto simp: add.commute eq_neg_iff_add_eq_0)
      have lt: "n < 2 ^ 64" using unat64_less [of pos] n by simp
      have "seek_rel pos = pos + 1" using True rel by simp
      then show ?thesis
        using big lt by (simp only: sint64_unat n m) simp
    qed
  next
    case False
    then have "unat pos < 2 ^ 63" by (simp add: word_less_nat_alt)
    with False show ?thesis by (simp add: rel sint64_unat)
  qed
  moreover have "seek_rel (- 1) = 0" by (simp add: seek_rel_def)
  ultimately show ?thesis by (simp add: seek_target_def)
qed

text \<open>
  C35: \<open>usbFsReadDir\<close> with a buffer of at least one byte stores at most that many bytes: the name
  cut to one byte less than the buffer, a NUL, and the rest of the buffer as it was; at the
  end of the directory it stores kind 15 and the empty name. With a buffer of no bytes every
  entry and the end are stored past its end.
\<close>

theorem readdir_name_in_bounds:
  assumes "length mem < 2 ^ 64" "\<And>e. ent = Some e \<Longrightarrow> length (dei_name e) < 2 ^ 64"
  shows "(mem = [] \<longrightarrow> dirent_out mem ent = None)
    \<and> (mem \<noteq> [] \<longrightarrow> (\<exists>k sz out. dirent_out mem ent = Some (k, sz, out) \<and> length out = length mem
         \<and> (case ent of
              None \<Rightarrow> k = 15 \<and> sz = 0 \<and> out = 0 # tl mem
            | Some e \<Rightarrow> k = dei_type e \<and> sz = dei_size e
                \<and> (let n = min (length mem - 1) (length (dei_name e)) in
                   out = take n (dei_name e) @ [0] @ drop (Suc n) mem))))"
proof (cases ent)
  case None
  then show ?thesis by (cases mem) (simp_all add: dirent_out_def)
next
  case (Some e)
  have len: "unat (of_nat (length (dei_name e)) :: usize) = length (dei_name e)"
    "unat (of_nat (length mem) :: usize) = length mem"
    using assms(1) assms(2) [OF Some] by (simp_all add: unat_length)
  show ?thesis
  proof (cases "mem = []")
    case True
    have "min (- 1) (of_nat (length (dei_name e)) :: usize) = of_nat (length (dei_name e))"
      by (rule min.absorb2 [OF word_n1_ge])
    with True Some show ?thesis by (simp add: dirent_out_def copy_name_def)
  next
    case False
    then have "1 \<le> (of_nat (length mem) :: usize)"
      using len(2) by (simp add: word_le_nat_alt Suc_le_eq)
    then have "unat (of_nat (length mem) - 1 :: usize) = length mem - 1"
      using len(2) by (simp add: unat_sub)
    then have n: "unat (min (of_nat (length mem) - 1) (of_nat (length (dei_name e)) :: usize))
        = min (length mem - 1) (length (dei_name e))"
      using len(1) by (simp add: min_def word_le_nat_alt)
    have "min (length mem - 1) (length (dei_name e)) < length mem" using False by (simp add: min_less_iff_disj)
    then have "copy_name mem (dei_name e) = Some (take (min (length mem - 1) (length (dei_name e))) (dei_name e)
        @ [0] @ drop (Suc (min (length mem - 1) (length (dei_name e)))) mem)"
      unfolding copy_name_def Let_def n by simp
    with False Some show ?thesis by (cases mem) (simp_all add: dirent_out_def Let_def)
  qed
qed

theorem readdir_name_in_bounds_witness:
  "dirent_out [9, 9, 9] (Some \<lparr>dei_name = [0x61, 0x62, 0x63], dei_type = 1, dei_size = 5\<rparr>)
      = Some (1, 5, [0x61, 0x62, 0])
    \<and> dirent_out [] None = None"
  using readdir_name_in_bounds [of "[9, 9, 9]" "Some \<lparr>dei_name = [0x61, 0x62, 0x63], dei_type = 1, dei_size = 5\<rparr>"]
    readdir_name_in_bounds [of "[]" None]
  by (auto simp: Let_def)

text \<open>
  \<open>usbFsStatFilesystem\<close> reports exact sizes: the products of the cluster size with the total
  and free cluster counts cannot overflow 64 bits.
\<close>

theorem statfs_exact:
  assumes "get_cell (fs_ptr g) = Inr fs" "fc_stats C fs w = (Inr (csize, ntotal, nfree), w')"
  shows "\<exists>total free. usbFsStatFilesystem C g w = ((SUCCESS, Some (total, free)), w')
    \<and> unat total = unat csize * unat ntotal \<and> unat free = unat csize * unat nfree"
proof -
  have "unat (ucast csize * ucast n :: u64) = unat csize * unat n" for n :: u32
  proof -
    have "unat csize * unat n < 2 ^ 32 * 2 ^ 32"
      using unat32_less by (intro mult_strict_mono) auto
    then show ?thesis by (subst unat_mult_small) simp_all
  qed
  with assms show ?thesis by (simp add: usbFsStatFilesystem_def)
qed

theorem statfs_exact_witness:
  "\<exists>total free. usbFsStatFilesystem toy_crate \<lparr>usb_hs_ctx_ptr = (null_cell :: (unit, unit) service_ctx cell),
      fs_ptr = toy_cell, id_store_ptr = null_cell\<rparr> True = ((SUCCESS, Some (total, free)), True)
    \<and> unat total = 5120 \<and> unat free = 2048"
  using statfs_exact [of "\<lparr>usb_hs_ctx_ptr = (null_cell :: (unit, unit) service_ctx cell),
      fs_ptr = toy_cell, id_store_ptr = null_cell\<rparr>" "()" toy_crate True 512 10 4 True]
  by (simp add: toy_crate_def)

section \<open>Deleting and creating\<close>

text \<open>
  \<open>usbFsDeleteFile\<close> of a file that is open first closes it: if that succeeds, its id is
  invalid, its path is no longer open and the result is that of removing the path from the
  file system; if the flush of the close fails, the file is not removed, and its id is lost
  all the same.
\<close>

theorem delete_open_file:
  assumes "cstr_to_str mem = Some p" "get_cell (id_store_ptr g) = Inr st" "get_cell (fs_ptr g) = Inr fs"
    and "store_inv st" "has_file st p = Some i" "get_file_handle st i = Inr f"
  shows "\<exists>st' w'. snd (usbFsDeleteFile C mem g w)
      = (g\<lparr>id_store_ptr := set_cell (Some st') (id_store_ptr g)\<rparr>, w')
    \<and> get_file_handle st' i = Inl NX_FATDRIVE_ERR_FILE_NOT_FOUND
    \<and> (case fc_flush C f w of
         (Inr _, f1, w1) \<Rightarrow> has_file st' p = None
           \<and> (case fc_remove C (fc_root_dir C fs) p (fc_drop_file C f1 w1) of
                (r, w2) \<Rightarrow> w' = w2 \<and> fst (usbFsDeleteFile C mem g w) = io_code_of r)
       | (Inl e, f1, w1) \<Rightarrow> w' = fc_drop_file C f1 w1 \<and> has_file st' p = Some i
           \<and> fst (usbFsDeleteFile C mem g w) = (io_error_map e, None))"
proof -
  have f: "hm_get i (file_handle_map st) = Some f"
    using assms(6) by (auto simp: get_file_handle_def split: option.splits)
  obtain r f1 w1 where fl: "fc_flush C f w = (r, f1, w1)" by (metis prod_cases3)
  show ?thesis
  proof (cases r)
    case (Inl e)
    let ?st = "st\<lparr>file_handle_map := hm_remove i (file_handle_map st)\<rparr>"
    have "store_close_file C i st w = (Inl (io_error_map e), ?st, fc_drop_file C f1 w1)"
      using f fl Inl by (simp add: store_close_file_def)
    moreover have "has_file ?st p = Some i" using assms(5) by (simp add: has_file_def)
    ultimately show ?thesis
      using assms(1,2,5) fl Inl
      by (intro exI [of _ ?st]) (simp add: usbFsDeleteFile_def with_path_def with_store_def Let_def
          get_file_handle_def u32_map_def)
  next
    case (Inr u)
    have c: "store_close_file C i st w = (Inr (), remove_file i st, fc_drop_file C f1 w1)"
      using close_file_ok [OF f] fl Inr by simp
    have n: "has_file (remove_file i st) p = None"
      using files.rem_find [OF assms(4)] assms(5) by simp
    obtain q w2 where r: "fc_remove C (fc_root_dir C fs) p (fc_drop_file C f1 w1) = (q, w2)" by fastforce
    have "map_sum id (\<lambda>_. ()) q = q" by (cases q) simp_all
    then show ?thesis
      using assms(1,2,3,5) fl Inr c n r
      by (intro exI [of _ "remove_file i st"]) (simp add: usbFsDeleteFile_def with_path_def with_store_def
          Let_def in_root_def get_file_handle_def files.rem_lookup)
  qed
qed

theorem delete_open_file_witness:
  "\<exists>(g :: (unit, usb_interface, unit, rstr, fat_dirent list) globals) st' w'.
    snd (usbFsDeleteFile toy_crate [0x61, 0] g True)
      = (g\<lparr>id_store_ptr := set_cell (Some st') (id_store_ptr g)\<rparr>, w')
    \<and> get_file_handle st' 0 = Inl NX_FATDRIVE_ERR_FILE_NOT_FOUND"
proof -
  obtain st :: "(rstr, fat_dirent list) id_store" where st: "add_file [0x61] [0x61] store_new = (0, st)"
    by (simp add: add_file_def)
  have inv: "store_inv st" by (rule add_file_inv [OF store_inv_new _ _ st]) simp_all
  have h: "has_file st [0x61] = Some 0"
    using files.ins_find [OF store_inv_new _ _ st] by simp
  have f: "get_file_handle st 0 = Inr [0x61]"
    using st by (auto simp: add_file_def get_file_handle_def)
  let ?g = "\<lparr>usb_hs_ctx_ptr = null_cell, fs_ptr = toy_cell,
    id_store_ptr = \<lparr>cell_ptr = Some st, poisoned = False\<rparr>\<rparr> :: (unit, usb_interface, unit, rstr, fat_dirent list) globals"
  have "cstr_to_str [0x61, 0] = Some [0x61]" by (simp add: cstr_to_str_def)
  moreover have "get_cell \<lparr>cell_ptr = Some st, poisoned = False\<rparr> = Inr st" by (simp add: get_cell_def)
  ultimately show ?thesis
    using delete_open_file [OF _ _ _ inv h f, of "[0x61, 0]" ?g "()" toy_crate True]
    by (intro exI [of _ ?g]) auto
qed

end
