(* ===== verification/UsbFsStable.thy ===== *)
theory UsbFsStable
  imports UsbFsThms
begin

text \<open>
  Two facts that hold along every run of the C interface: a poisoned mutex stays poisoned, so what
  it guards is out of reach for good; and every path in the id table is a string of Rust.
\<close>

section \<open>Poison\<close>

definition same_poison :: "('u, 'info, 'fs, 'f, 'd) globals \<Rightarrow> ('u, 'info, 'fs, 'f, 'd) globals \<Rightarrow> bool" where
  "same_poison g g' \<longleftrightarrow> poisoned (usb_hs_ctx_ptr g') = poisoned (usb_hs_ctx_ptr g)
     \<and> poisoned (fs_ptr g') = poisoned (fs_ptr g) \<and> poisoned (id_store_ptr g') = poisoned (id_store_ptr g)"

lemma same_poison_refl [simp]: "same_poison g g"
  by (simp add: same_poison_def)

lemma set_cell_poisoned [simp]: "poisoned (set_cell p c) = poisoned c"
  by (simp add: set_cell_def)

lemma with_store_poison [simp]: "same_poison g (fst (snd (with_store g w k)))"
  by (simp add: with_store_def same_poison_def split: sum.split prod.split)

lemma with_store_poisonD: "with_store g w k = (r, g', w') \<Longrightarrow> same_poison g g'"
  using with_store_poison [of g w k] by simp

lemma with_path_poison: "(\<And>p. same_poison g (fst (snd (k p)))) \<Longrightarrow> same_poison g (fst (snd (with_path mem k (g, w))))"
  by (simp add: with_path_def split: option.split)

lemma read_dir_poison: "same_poison g (fst (snd (usbFsReadDir C i m g w)))"
  by (auto simp: usbFsReadDir_def dest: with_store_poisonD split: prod.split option.split)

lemma run_call_poison: "same_poison g (fst (run_call C c g w))"
  by (cases c)
    (simp_all add: usbFsOpenFile_def usbFsCloseFile_def usbFsReadFile_def usbFsWriteFile_def usbFsSeekFile_def
      usbFsSyncFile_def usbFsTruncateFile_def usbFsDeleteFile_def usbFsCreateFile_def usbFsOpenDir_def
      usbFsCloseDir_def usbFsCreateDir_def usbFsDeleteDir_def with_path_poison read_dir_poison)

lemma exit_poison: "usbFsExit C U g w = (g', w') \<Longrightarrow> same_poison g g'"
  by (auto simp: usbFsExit_def exit_fs_def exit_usb_def same_poison_def
      split: prod.splits bool.splits if_splits option.splits)

lemma init_poison: "usbFsInitialize U g w = Some (r, g', w') \<Longrightarrow> same_poison g g'"
  by (auto simp: usbFsInitialize_def mount_device_def mount_fs_def mount_store_def same_poison_def Let_def
      split: if_splits exec.splits sum.splits prod.splits option.splits)

lemma step_poisoned:
  assumes "api_step C U (g, w) (g', w')" "poisoned (id_store_ptr g)"
  shows "poisoned (id_store_ptr g')"
  using assms(1)
proof cases
  case (step_init r)
  then show ?thesis using assms(2) init_poison [of U g w r g' w'] by (simp add: same_poison_def)
next
  case step_exit
  then show ?thesis using assms(2) exit_poison [of C U g w g' w'] by (simp add: same_poison_def)
next
  case (step_call c)
  then show ?thesis using assms(2) run_call_poison [of g C c w] by (simp add: same_poison_def)
next
  case (step_poison a b d)
  then show ?thesis using assms(2) by (simp add: poison_def)
qed

lemma run_poisoned:
  "(api_step C U)\<^sup>*\<^sup>* (g, w) (g', w') \<Longrightarrow> poisoned (id_store_ptr g) \<Longrightarrow> poisoned (id_store_ptr g')"
  by (induction rule: rtranclp_induct2) (auto dest: step_poisoned)

lemma poisoned_store: "poisoned (id_store_ptr g) \<Longrightarrow> with_store g w k = ((NX_FATDRIVE_ERR_POISSENED_MUTEX, None), g, w)"
  by (simp add: with_store_def get_cell_def poison_error_map_def u32_map_def)

text \<open>A call with a path reads the path first.\<close>

lemma refused_path:
  "with_path mem (\<lambda>p. ((NX_FATDRIVE_ERR_POISSENED_MUTEX, None), s)) s
     = ((if cstr_to_str mem = None then NX_FATDRIVE_ERR_UNKNOWN else NX_FATDRIVE_ERR_POISSENED_MUTEX, None), s)"
  by (simp add: with_path_def split: option.split)

text \<open>
  C10: A poisoned id table is lost for good: whatever is called or goes wrong afterwards, the table
  can never be reached again. The status call and every call on an open file or directory
  answer \<open>POISSENED_MUTEX\<close> and change nothing; so does every call with a path, if the path is
  UTF-8 (otherwise the answer is \<open>UNKNOWN\<close>); \<open>usbFsInitialize\<close> never succeeds (if no error of libnx
  carries the code 0), and \<open>usbFsExit\<close> unmounts nothing.
\<close>

theorem poison_is_permanent:
  assumes "poisoned (id_store_ptr g)" "(api_step C U)\<^sup>*\<^sup>* (g, w) (g', w')"
  shows "let refused = (if cstr_to_str path = None then NX_FATDRIVE_ERR_UNKNOWN else NX_FATDRIVE_ERR_POISSENED_MUTEX) in
    usbFsIsInitialized g' = NX_FATDRIVE_ERR_POISSENED_MUTEX
    \<and> usbFsReadFile C i buf g' w' = ((NX_FATDRIVE_ERR_POISSENED_MUTEX, None), g', w')
    \<and> usbFsWriteFile C i buf g' w' = ((NX_FATDRIVE_ERR_POISSENED_MUTEX, None), g', w')
    \<and> usbFsSeekFile C i pos wh g' w' = ((NX_FATDRIVE_ERR_POISSENED_MUTEX, None), g', w')
    \<and> usbFsSyncFile C i g' w' = ((NX_FATDRIVE_ERR_POISSENED_MUTEX, None), g', w')
    \<and> usbFsTruncateFile C i n g' w' = ((NX_FATDRIVE_ERR_POISSENED_MUTEX, None), g', w')
    \<and> usbFsStatFile C i g' w' = Some ((NX_FATDRIVE_ERR_POISSENED_MUTEX, None), w')
    \<and> usbFsCloseFile C i g' w' = ((NX_FATDRIVE_ERR_POISSENED_MUTEX, None), g', w')
    \<and> usbFsCloseDir C i g' w' = ((NX_FATDRIVE_ERR_POISSENED_MUTEX, None), g', w')
    \<and> usbFsReadDir C i buf g' w' = (Ret (NX_FATDRIVE_ERR_POISSENED_MUTEX, None), g', w')
    \<and> usbFsOpenFile C path m g' w' = ((refused, None), g', w')
    \<and> usbFsOpenDir C path g' w' = ((refused, None), g', w')
    \<and> usbFsCreateFile C path g' w' = ((refused, None), g', w')
    \<and> usbFsCreateDir C path g' w' = ((refused, None), g', w')
    \<and> usbFsDeleteFile C path g' w' = ((refused, None), g', w')
    \<and> usbFsDeleteDir C path g' w' = ((refused, None), g', w')
    \<and> usbFsStatPath C path g' w' = Some ((refused, None), w')
    \<and> (no_zero_codes U \<longrightarrow> (\<forall>g2 w2. usbFsInitialize U g' w' \<noteq> Some (Ret 0, g2, w2)))
    \<and> fst (usbFsExit C U g' w') = g'"
proof -
  have p: "poisoned (id_store_ptr g')" by (rule run_poisoned [OF assms(2,1)])
  have "usbFsIsInitialized g2 \<noteq> SUCCESS" if "usbFsInitialize U g' w' = Some (Ret 0, g2, w2)" for g2 w2
    using p init_poison [OF that] initialized_iff [of g2] by (auto simp: same_poison_def SUCCESS_def)
  then have "no_zero_codes U \<longrightarrow> usbFsInitialize U g' w' \<noteq> Some (Ret 0, g2, w2)" for g2 w2
    using initialize_ok [of U g' w'] by blast
  moreover have "usbFsStatFile C i g' w' = Some ((NX_FATDRIVE_ERR_POISSENED_MUTEX, None), w')"
    "usbFsStatPath C path g' w' = Some ((if cstr_to_str path = None then NX_FATDRIVE_ERR_UNKNOWN
      else NX_FATDRIVE_ERR_POISSENED_MUTEX, None), w')"
    using p by (simp_all add: usbFsStatFile_def usbFsStatPath_def get_cell_def poison_error_map_def u32_map_def
        split: option.split)
  moreover have "fst (usbFsExit C U g' w') = g'"
    using p by (simp add: usbFsExit_def split: prod.split bool.split)
  moreover have "usbFsIsInitialized g' = NX_FATDRIVE_ERR_POISSENED_MUTEX"
    using p by (simp add: usbFsIsInitialized_def lock_err_def poison_error_map_def)
  ultimately show ?thesis
    by (simp add: usbFsReadFile_def usbFsWriteFile_def usbFsSyncFile_def usbFsCloseFile_def usbFsCloseDir_def
        usbFsReadDir_def usbFsSeekFile_def usbFsTruncateFile_def poisoned_store [OF p] usbFsOpenFile_def
        usbFsOpenDir_def usbFsCreateFile_def usbFsCreateDir_def usbFsDeleteFile_def usbFsDeleteDir_def
        refused_path)
qed

text \<open>A drive mounted over a poisoned table.\<close>

definition poisoned_start :: "(unit, usb_interface, unit, rstr, fat_dirent list) globals" where
  "poisoned_start = globals_init\<lparr>id_store_ptr := poison True null_cell\<rparr>"

theorem poison_is_permanent_witness:
  "\<exists>g'. (api_step toy_crate toy_usb)\<^sup>*\<^sup>* (poisoned_start, True) (g', True)
    \<and> cell_ptr (fs_ptr g') = Some () \<and> usbFsIsInitialized g' = NX_FATDRIVE_ERR_POISSENED_MUTEX
    \<and> usbFsReadFile toy_crate 0 [1, 2] g' True = ((NX_FATDRIVE_ERR_POISSENED_MUTEX, None), g', True)"
proof -
  obtain part where part: "open_partition toy_usb toy_disk 0 = Some (Ok part)" using toy_partition by blast
  obtain r g' where i: "usbFsInitialize toy_usb poisoned_start True = Some (r, g', True)"
    and fs: "cell_ptr (fs_ptr g') = Some ()"
    by (simp add: usbFsInitialize_def poisoned_start_def globals_init_def null_cell_def poison_def
        usbFsIsInitialized_def lock_err_def poison_error_map_def err_consts wait_for_usb_drive_def
        mount_device_def parse_drive_def vec_new_eq part mount_fs_def mount_store_def set_cell_def)
  have run: "(api_step toy_crate toy_usb)\<^sup>*\<^sup>* (poisoned_start, True) (g', True)"
    by (rule r_into_rtranclp [of "api_step toy_crate toy_usb", OF step_init [OF i]])
  have "poisoned (id_store_ptr poisoned_start)" by (simp add: poisoned_start_def poison_def)
  from poison_is_permanent [OF this run, of "[47, 0]" 0 "[1, 2]"] run fs show ?thesis
    by (simp only: Let_def) blast
qed

section \<open>Paths\<close>

text \<open>A \<open>str\<close> is valid UTF-8; one that came from a C string has no NUL.\<close>

definition is_path :: "rstr \<Rightarrow> bool" where
  "is_path p \<longleftrightarrow> utf8_valid p \<and> 0 \<notin> set p"

definition store_paths :: "('f, 'd) id_store \<Rightarrow> rstr set" where
  "store_paths st = {p. \<exists>i. hm_get i (file_name_map st) = Some p \<or> hm_get i (dir_name_map st) = Some p}"

definition paths_ok :: "('f, 'd) id_store \<Rightarrow> bool" where
  "paths_ok st \<longleftrightarrow> (\<forall>p \<in> store_paths st. is_path p)"

lemma cstr_is_path: "cstr_to_str mem = Some p \<Longrightarrow> is_path p"
  using cstr_to_str_no_nul [of mem p] by (auto simp: is_path_def cstr_to_str_def Let_def split: if_splits)

lemma paths_ok_def2: "paths_ok st \<longleftrightarrow>
    (\<forall>i p. hm_get i (file_name_map st) = Some p \<longrightarrow> is_path p) \<and> (\<forall>i p. hm_get i (dir_name_map st) = Some p \<longrightarrow> is_path p)"
  by (auto simp: paths_ok_def store_paths_def)

lemma paths_new: "paths_ok store_new"
  by (simp add: paths_ok_def2 store_new_def hm_get_def)

lemma paths_open_file:
  assumes "paths_ok st" "is_path p"
  shows "paths_ok (fst (snd (store_open_file C fsc p st w)))"
  using assms
  by (auto simp: paths_ok_def2 store_open_file_def insert_file_def Let_def split: option.splits sum.splits prod.splits)

lemma paths_open_dir:
  assumes "paths_ok st" "is_path p"
  shows "paths_ok (fst (snd (store_open_dir C fsc p st w)))"
  using assms
  by (auto simp: paths_ok_def2 store_open_dir_def insert_dir_def Let_def split: option.splits sum.splits prod.splits)

lemma paths_close_file: "paths_ok st \<Longrightarrow> paths_ok (fst (snd (store_close_file C i st w)))"
  by (auto simp: paths_ok_def2 store_close_file_def Let_def split: option.splits sum.splits prod.splits if_splits)

lemma paths_close_dir: "paths_ok st \<Longrightarrow> paths_ok (fst (snd (store_close_dir C i st w)))"
  by (auto simp: paths_ok_def2 store_close_dir_def Let_def split: option.splits if_splits)

lemma paths_next: "paths_ok st \<Longrightarrow> paths_ok (fst (snd (read_next_dirent C i st w)))"
  by (auto simp: paths_ok_def2 read_next_dirent_def Let_def split: option.splits sum.splits prod.splits)

lemma paths_with_file: "paths_ok st \<Longrightarrow> paths_ok (fst (snd (with_file i w k st)))"
  by (auto simp: paths_ok_def2 with_file_def set_file_handle_def split: sum.splits prod.splits)

definition globals_paths_ok :: "('u, 'info, 'fs, 'f, 'd) globals \<Rightarrow> bool" where
  "globals_paths_ok g = (case cell_ptr (id_store_ptr g) of None \<Rightarrow> True | Some st \<Rightarrow> paths_ok st)"

lemma with_store_paths:
  assumes "globals_paths_ok g" "\<And>st. paths_ok st \<Longrightarrow> paths_ok (fst (snd (k st)))"
  shows "globals_paths_ok (fst (snd (with_store g w k)))"
proof (cases "get_cell (id_store_ptr g)")
  case (Inr st)
  then have "paths_ok (fst (snd (k st)))"
    using assms by (simp add: get_cell_Inr_iff globals_paths_ok_def)
  with Inr show ?thesis by (auto simp: with_store_def globals_paths_ok_def set_cell_def split: prod.splits)
qed (use assms(1) in \<open>simp add: with_store_def\<close>)

lemma with_path_paths:
  assumes "globals_paths_ok g" "\<And>p. is_path p \<Longrightarrow> globals_paths_ok (fst (snd (k p)))"
  shows "globals_paths_ok (fst (snd (with_path mem k (g, w))))"
  using assms cstr_is_path [of mem] by (auto simp: with_path_def split: option.split)

lemma paths_opD:
  "store_open_file C fsc p st w = (r, st', w') \<Longrightarrow> paths_ok st \<Longrightarrow> is_path p \<Longrightarrow> paths_ok st'"
  "store_open_dir C fsc p st w = (r, st', w') \<Longrightarrow> paths_ok st \<Longrightarrow> is_path p \<Longrightarrow> paths_ok st'"
  "store_close_file C i st w = (u, st', w') \<Longrightarrow> paths_ok st \<Longrightarrow> paths_ok st'"
  "store_close_dir C i st w = (u, st', w') \<Longrightarrow> paths_ok st \<Longrightarrow> paths_ok st'"
  "read_next_dirent C i st w = (e, st', w') \<Longrightarrow> paths_ok st \<Longrightarrow> paths_ok st'"
  using paths_open_file [of st p C fsc w] paths_open_dir [of st p C fsc w] paths_close_file [of st C i w]
    paths_close_dir [of st C i w] paths_next [of st C i w] by simp_all

lemma call_paths_open:
  assumes "globals_paths_ok g"
  shows "globals_paths_ok (fst (snd (usbFsOpenFile C p m g w)))" "globals_paths_ok (fst (snd (usbFsOpenDir C p g w)))"
  unfolding usbFsOpenFile_def usbFsOpenDir_def
  by (intro with_path_paths with_store_paths assms; auto dest: paths_opD split: prod.split)+

lemma call_paths_file_ops:
  assumes "globals_paths_ok g"
  shows "globals_paths_ok (fst (snd (usbFsReadFile C i b g w)))" "globals_paths_ok (fst (snd (usbFsWriteFile C i b g w)))"
    "globals_paths_ok (fst (snd (usbFsSeekFile C i p wh g w)))" "globals_paths_ok (fst (snd (usbFsSyncFile C i g w)))"
    "globals_paths_ok (fst (snd (usbFsTruncateFile C i n g w)))"
  unfolding usbFsReadFile_def usbFsWriteFile_def usbFsSeekFile_def usbFsSyncFile_def usbFsTruncateFile_def
  by (rule with_store_paths [OF assms], erule paths_with_file)+

lemma call_paths_close:
  assumes "globals_paths_ok g"
  shows "globals_paths_ok (fst (snd (usbFsCloseFile C i g w)))" "globals_paths_ok (fst (snd (usbFsCloseDir C i g w)))"
  unfolding usbFsCloseFile_def usbFsCloseDir_def
  by (rule with_store_paths [OF assms]; auto dest: paths_opD split: prod.split)+

lemma call_paths_delete:
  assumes "globals_paths_ok g"
  shows "globals_paths_ok (fst (snd (usbFsDeleteFile C p g w)))" "globals_paths_ok (fst (snd (usbFsDeleteDir C p g w)))"
  unfolding usbFsDeleteFile_def usbFsDeleteDir_def Let_def
  by (intro with_path_paths with_store_paths assms;
      auto dest: paths_opD split: prod.split option.split sum.split)+

lemma call_paths_create:
  assumes "globals_paths_ok g"
  shows "globals_paths_ok (fst (snd (usbFsCreateFile C p g w)))" "globals_paths_ok (fst (snd (usbFsCreateDir C p g w)))"
  unfolding usbFsCreateFile_def usbFsCreateDir_def
  by (intro with_path_paths with_store_paths assms; simp split: option.split)+

lemma call_paths_read_dir:
  assumes "globals_paths_ok g"
  shows "globals_paths_ok (fst (snd (usbFsReadDir C i m g w)))"
proof -
  have "globals_paths_ok (fst (snd (with_store g w (\<lambda>st. case read_next_dirent C i st w of
      (r, st1, w1) \<Rightarrow> (code_of r, st1, w1)))))"
    by (rule with_store_paths [OF assms]) (auto dest: paths_opD split: prod.split)
  then show ?thesis by (auto simp: usbFsReadDir_def split: prod.split option.split)
qed

lemmas call_paths = call_paths_open call_paths_file_ops call_paths_close call_paths_delete call_paths_create
  call_paths_read_dir

lemma run_call_paths: "globals_paths_ok g \<Longrightarrow> globals_paths_ok (fst (run_call C c g w))"
  by (cases c) (simp_all add: call_paths)

lemma exit_paths: "usbFsExit C U g w = (g', w') \<Longrightarrow> globals_paths_ok g \<Longrightarrow> globals_paths_ok g'"
  by (auto simp: usbFsExit_def exit_fs_def exit_usb_def globals_paths_ok_def set_cell_def
      split: prod.splits bool.splits if_splits option.splits)

lemma init_paths: "usbFsInitialize U g w = Some (r, g', w') \<Longrightarrow> globals_paths_ok g \<Longrightarrow> globals_paths_ok g'"
  by (auto simp: usbFsInitialize_def mount_device_def mount_fs_def mount_store_def globals_paths_ok_def set_cell_def
      paths_new Let_def split: if_splits exec.splits sum.splits prod.splits option.splits)

lemma step_paths:
  assumes "api_step C U (g, w) (g', w')" "globals_paths_ok g"
  shows "globals_paths_ok g'"
  using assms(1)
proof cases
  case (step_init r)
  show ?thesis by (rule init_paths [OF step_init assms(2)])
next
  case step_exit
  show ?thesis by (rule exit_paths [OF step_exit assms(2)])
next
  case (step_call c)
  then show ?thesis using run_call_paths [OF assms(2), of C c w] by simp
next
  case (step_poison a b d)
  then show ?thesis using assms(2) by (simp add: globals_paths_ok_def poison_def)
qed

lemma reachable_paths: "reachable C U g w \<Longrightarrow> globals_paths_ok g"
proof (induction rule: reachable.induct)
  case (reach_init w)
  then show ?case by (simp add: globals_paths_ok_def globals_init_def null_cell_def)
qed (rule step_paths)

text \<open>
  C9: Every path the C interface keeps is a string of Rust: in every reachable state, whatever bytes
  the callers passed, \<open>get_path_for_id\<close> yields only valid UTF-8 without a NUL, and so do the
  lookups by path, which are what the file system is given on later calls.
\<close>

theorem stored_paths_are_strs:
  assumes "reachable C U g w" "cell_ptr (id_store_ptr g) = Some st"
    and "get_path_for_id st i = Inr p \<or> has_file st p = Some i \<or> has_dir st p = Some i"
  shows "utf8_valid p \<and> 0 \<notin> set p"
proof -
  have ok: "paths_ok st" using reachable_paths [OF assms(1)] assms(2) by (simp add: globals_paths_ok_def)
  have inv: "store_inv st" using reachable_inv [OF assms(1)] assms(2) by (simp add: globals_inv_def)
  have "hm_get i (file_name_map st) = Some p \<or> hm_get i (dir_name_map st) = Some p"
    using assms(3) has_file_iff [OF inv] has_dir_iff [OF inv]
    by (auto simp: get_path_for_id_def split: option.splits)
  with ok show ?thesis by (auto simp: paths_ok_def2 is_path_def)
qed

text \<open>The first open after a mount.\<close>

lemma open_after_mount:
  fixes g :: "(unit, usb_interface, unit, rstr, fat_dirent list) globals"
  assumes "usbFsInitialize toy_usb globals_init True = Some (Ret 0, g, True)" "cstr_to_str mem = Some p"
  shows "\<exists>g' st. reachable toy_crate toy_usb g' True \<and> cell_ptr (id_store_ptr g') = Some st
    \<and> get_path_for_id st 0 = Inr p \<and> usbFsOpenFile toy_crate mem 0 g True = ((SUCCESS, Some 0), g', True)"
proof -
  have "no_zero_codes toy_usb"
    by (simp add: no_zero_codes_def) (simp add: toy_usb_def toy_api_def)
  from initialize_ok [OF this assms(1)] have g: "usbFsIsInitialized g = 0" "cell_ptr (id_store_ptr g) = Some store_new"
    by (simp_all add: usbFsIsInitialized_def globals_init_def null_cell_def lock_err_def err_consts split: if_splits)
  then have c: "get_cell (id_store_ptr g) = Inr store_new" "get_cell (fs_ptr g) = Inr ()"
    by (auto simp: initialized_iff get_cell_def split: option.split)
  obtain st :: "(rstr, fat_dirent list) id_store" where st: "add_file p p store_new = (0, st)" by (simp add: add_file_def)
  let ?g = "g\<lparr>id_store_ptr := set_cell (Some st) (id_store_ptr g)\<rparr>"
  have o: "usbFsOpenFile toy_crate mem 0 g True = ((SUCCESS, Some 0), ?g, True)"
    using st assms(2) c open_file_new [OF _ c(2), of store_new p toy_crate True p True]
    by (simp add: usbFsOpenFile_def with_path_def with_store_def store_inv_new)
  then have "run_call toy_crate (OpenFile mem 0) g True = (?g, True)" by simp
  then have "api_step toy_crate toy_usb (g, True) (?g, True)"
    by (rule step_call [rotated]) (use g(2) in \<open>simp add: globals_room_def\<close>)
  then have "reachable toy_crate toy_usb ?g True"
    by (rule reach_step [OF reach_step [OF reach_init step_init [OF assms(1)]]])
  moreover have "get_path_for_id st 0 = Inr p" using st by (auto simp: add_file_def get_path_for_id_def)
  ultimately show ?thesis using o by (intro exI [of _ ?g] exI [of _ st]) (simp add: set_cell_def)
qed

theorem stored_paths_are_strs_witness:
  "\<exists>(g :: (unit, usb_interface, unit, rstr, fat_dirent list) globals) st. reachable toy_crate toy_usb g True
    \<and> cell_ptr (id_store_ptr g) = Some st \<and> get_path_for_id st 0 = Inr [0xC3, 0xA9]
    \<and> utf8_valid [0xC3, 0xA9]"
proof -
  obtain g :: "(unit, usb_interface, unit, rstr, fat_dirent list) globals"
    where g: "usbFsInitialize toy_usb globals_init True = Some (Ret 0, g, True)"
    using toy_mount by blast
  have "cstr_to_str [0xC3, 0xA9, 0, 0xFF] = Some [0xC3, 0xA9]" by (simp add: cstr_to_str_def cont_def)
  from open_after_mount [OF g this] obtain g' :: "(unit, usb_interface, unit, rstr, fat_dirent list) globals" and st
    where s: "reachable toy_crate toy_usb g' True" "cell_ptr (id_store_ptr g') = Some st"
      "get_path_for_id st 0 = Inr [0xC3, 0xA9]" by blast
  show ?thesis using s stored_paths_are_strs [OF s(1,2), of 0 "[0xC3, 0xA9]"] by blast
qed

end
