(* ===== verification/IdStoreSpec.thy ===== *)
theory IdStoreSpec
  imports IdStoreThms
begin

text \<open>
  What the id table of \<open>src/capi_helpers/idstore.rs\<close> promises, apart from handles and hash maps:
  an abstract table of open files and directories with a step relation, and the proof that
  every sequence of calls on the code's table is a run of it.
\<close>

section \<open>Calls\<close>

datatype table_op = OpenF rstr | OpenD rstr | CloseF u64 | CloseD u64 | NextD u64 | UseF u64 | PathOf u64

datatype table_out = Id u64 | Entry "dir_entry_info option" | Path rstr | Done

text \<open>
  One call on the code's table. \<open>work\<close> is what the caller does to a file handle it looked up.
\<close>

fun store_do ::
  "('w, 'fs, 'f, 'd, 'it) fat_crate \<Rightarrow> 'fs cell \<Rightarrow> ('f \<Rightarrow> 'w \<Rightarrow> 'f \<times> 'w) \<Rightarrow> table_op \<Rightarrow> ('f, 'd) id_store \<Rightarrow> 'w
     \<Rightarrow> (u32 + table_out) \<times> ('f, 'd) id_store \<times> 'w" where
  "store_do C fsc work (OpenF p) st w = apfst (map_sum id Id) (store_open_file C fsc p st w)"
| "store_do C fsc work (OpenD p) st w = apfst (map_sum id Id) (store_open_dir C fsc p st w)"
| "store_do C fsc work (CloseF i) st w = apfst (map_sum id (\<lambda>_. Done)) (store_close_file C i st w)"
| "store_do C fsc work (CloseD i) st w = apfst (map_sum id (\<lambda>_. Done)) (store_close_dir C i st w)"
| "store_do C fsc work (NextD i) st w = apfst (map_sum id Entry) (read_next_dirent C i st w)"
| "store_do C fsc work (UseF i) st w =
     (case get_file_handle st i of
        Inl e \<Rightarrow> (Inl e, st, w)
      | Inr f \<Rightarrow> (case work f w of (f1, w1) \<Rightarrow> (Inr Done, set_file_handle i f1 st, w1)))"
| "store_do C fsc work (PathOf i) st w = (map_sum id Path (get_path_for_id st i), st, w)"

fun store_run ::
  "('w, 'fs, 'f, 'd, 'it) fat_crate \<Rightarrow> 'fs cell \<Rightarrow> ('f \<Rightarrow> 'w \<Rightarrow> 'f \<times> 'w) \<Rightarrow> table_op list \<Rightarrow> ('f, 'd) id_store \<Rightarrow> 'w
     \<Rightarrow> (u32 + table_out) list \<times> ('f, 'd) id_store \<times> 'w" where
  "store_run C fsc work [] st w = ([], st, w)"
| "store_run C fsc work (x # xs) st w =
     (case store_do C fsc work x st w of
        (r, st1, w1) \<Rightarrow> (case store_run C fsc work xs st1 w1 of (rs, st2, w2) \<Rightarrow> (r # rs, st2, w2)))"

section \<open>The abstract table\<close>

text \<open>
  A file has its path and whether its handle is alive, a directory its path and its cursor.
\<close>

record id_table =
  t_next :: u64
  t_files :: "u64 \<rightharpoonup> rstr \<times> bool"
  t_dirs :: "u64 \<rightharpoonup> rstr \<times> u64"

definition table_new :: id_table where
  "table_new = \<lparr>t_next = 0, t_files = Map.empty, t_dirs = Map.empty\<rparr>"

text \<open>
  What the file system answers is left open: an open of a path that is not open succeeds or
  fails, a close of a live file succeeds or kills its handle, a directory is at its end or not.
\<close>

inductive table_step :: "id_table \<Rightarrow> table_op \<Rightarrow> u32 + table_out \<Rightarrow> id_table \<Rightarrow> bool" where
  known_file: "t_files t i = Some (p, a) \<Longrightarrow> table_step t (OpenF p) (Inr (Id i)) t"
| new_file: "\<forall>i a. t_files t i \<noteq> Some (p, a) \<Longrightarrow> table_step t (OpenF p) (Inr (Id (t_next t)))
    (t\<lparr>t_next := t_next t + 1, t_files := (t_files t)(t_next t \<mapsto> (p, True))\<rparr>)"
| no_file: "\<forall>i a. t_files t i \<noteq> Some (p, a) \<Longrightarrow> table_step t (OpenF p) (Inl e) t"
| known_dir: "t_dirs t i = Some (p, k) \<Longrightarrow> table_step t (OpenD p) (Inr (Id i)) t"
| new_dir: "\<forall>i k. t_dirs t i \<noteq> Some (p, k) \<Longrightarrow> table_step t (OpenD p) (Inr (Id (t_next t)))
    (t\<lparr>t_next := t_next t + 1, t_dirs := (t_dirs t)(t_next t \<mapsto> (p, 0))\<rparr>)"
| no_dir: "\<forall>i k. t_dirs t i \<noteq> Some (p, k) \<Longrightarrow> table_step t (OpenD p) (Inl e) t"
| close_file: "t_files t i = Some (p, True) \<Longrightarrow>
    table_step t (CloseF i) (Inr Done) (t\<lparr>t_files := (t_files t)(i := None)\<rparr>)"
| kill_file: "t_files t i = Some (p, True) \<Longrightarrow>
    table_step t (CloseF i) (Inl e) (t\<lparr>t_files := (t_files t)(i \<mapsto> (p, False))\<rparr>)"
| close_dead: "\<forall>p. t_files t i \<noteq> Some (p, True) \<Longrightarrow>
    table_step t (CloseF i) (Inl NX_FATDRIVE_ERR_FILE_NOT_FOUND) t"
| close_dir: "t_dirs t i = Some (p, k) \<Longrightarrow>
    table_step t (CloseD i) (Inr Done) (t\<lparr>t_dirs := (t_dirs t)(i := None)\<rparr>)"
| close_no_dir: "t_dirs t i = None \<Longrightarrow> table_step t (CloseD i) (Inl NX_FATDRIVE_ERR_FILE_NOT_FOUND) t"
| next_entry: "t_dirs t i = Some (p, k) \<Longrightarrow> (\<forall>o'. r = Inr o' \<longrightarrow> (\<exists>e. o' = Entry e)) \<Longrightarrow>
    table_step t (NextD i) r (t\<lparr>t_dirs := (t_dirs t)(i \<mapsto> (p, k + 1))\<rparr>)"
| next_no_dir: "t_dirs t i = None \<Longrightarrow> table_step t (NextD i) (Inl NX_FATDRIVE_ERR_FILE_NOT_FOUND) t"
| use_file: "t_files t i = Some (p, True) \<Longrightarrow> table_step t (UseF i) (Inr Done) t"
| use_dead: "\<forall>p. t_files t i \<noteq> Some (p, True) \<Longrightarrow>
    table_step t (UseF i) (Inl NX_FATDRIVE_ERR_FILE_NOT_FOUND) t"
| path_file: "t_files t i = Some (p, a) \<Longrightarrow> table_step t (PathOf i) (Inr (Path p)) t"
| path_dir: "t_dirs t i = Some (p, k) \<Longrightarrow> table_step t (PathOf i) (Inr (Path p)) t"
| path_none: "t_files t i = None \<Longrightarrow> t_dirs t i = None \<Longrightarrow>
    table_step t (PathOf i) (Inl NX_FATDRIVE_ERR_FILE_NOT_FOUND) t"

inductive table_run :: "id_table \<Rightarrow> table_op list \<Rightarrow> (u32 + table_out) list \<Rightarrow> id_table \<Rightarrow> bool" where
  run_Nil: "table_run t [] [] t"
| run_Cons: "table_step t x r t1 \<Longrightarrow> table_run t1 xs rs t2 \<Longrightarrow> table_run t (x # xs) (r # rs) t2"

section \<open>Abstraction\<close>

definition files_of :: "('f, 'd) id_store \<Rightarrow> u64 \<rightharpoonup> rstr \<times> bool" where
  "files_of st i = map_option (\<lambda>p. (p, hm_get i (file_handle_map st) \<noteq> None)) (hm_get i (file_name_map st))"

definition dirs_of :: "('f, 'd) id_store \<Rightarrow> u64 \<rightharpoonup> rstr \<times> u64" where
  "dirs_of st i = (case hm_get i (dir_name_map st) of
      None \<Rightarrow> None | Some p \<Rightarrow> map_option (Pair p) (hm_get i (dir_iter_map st)))"

definition table_of :: "('f, 'd) id_store \<Rightarrow> id_table" where
  "table_of st = \<lparr>t_next = next_id st, t_files = files_of st, t_dirs = dirs_of st\<rparr>"

lemma table_of_simps [simp]:
  "t_next (table_of st) = next_id st" "t_files (table_of st) = files_of st" "t_dirs (table_of st) = dirs_of st"
  by (simp_all add: table_of_def)

lemma table_of_new: "table_of store_new = table_new"
  by (simp add: table_of_def table_new_def store_new_def files_of_def dirs_of_def fun_eq_iff hm_get_def)

lemma files_of_Some: "files_of st i = Some (p, a) \<longleftrightarrow>
    hm_get i (file_name_map st) = Some p \<and> a = (hm_get i (file_handle_map st) \<noteq> None)"
  by (auto simp: files_of_def)

lemma dirs_of_Some: "dirs_of st i = Some (p, k) \<longleftrightarrow>
    hm_get i (dir_name_map st) = Some p \<and> hm_get i (dir_iter_map st) = Some k"
  by (auto simp: dirs_of_def split: option.splits)

lemma files_of_None: "files_of st i = None \<longleftrightarrow> hm_get i (file_name_map st) = None"
  by (simp add: files_of_def)

text \<open>The three maps of a directory have the same keys.\<close>

lemma dir_keys:
  assumes "store_inv st"
  shows "hm_get i (dir_name_map st) = None \<longleftrightarrow> hm_get i (dir_handle_map st) = None"
    "hm_get i (dir_iter_map st) = None \<longleftrightarrow> hm_get i (dir_handle_map st) = None"
  using assms unfolding store_inv_def same_keys_def by blast+

lemma dirs_of_None: "store_inv st \<Longrightarrow> dirs_of st i = None \<longleftrightarrow> hm_get i (dir_handle_map st) = None"
  using dir_keys [of st i] by (auto simp: dirs_of_def split: option.split)

lemmas table_of_Some = files_of_Some dirs_of_Some files_of_None

text \<open>A handle is there exactly for a live file, and for every directory.\<close>

lemma live_file: "store_inv st \<Longrightarrow> hm_get i (file_handle_map st) = Some f \<Longrightarrow> \<exists>p. files_of st i = Some (p, True)"
  using store_inv_halves(1) [of st] by (auto simp: files_of_Some half_inv_def)

lemma dead_file: "hm_get i (file_handle_map st) = None \<Longrightarrow> \<forall>p. files_of st i \<noteq> Some (p, True)"
  by (auto simp: files_of_Some)

lemma some_dir:
  assumes "store_inv st" "hm_get i (dir_handle_map st) = Some d"
  obtains p k where "dirs_of st i = Some (p, k)" "hm_get i (dir_name_map st) = Some p"
    "hm_get i (dir_iter_map st) = Some k"
  using assms dirs_of_None [OF assms(1), of i] dirs_of_Some [of st i] by fastforce

text \<open>How the abstract table changes with the maps.\<close>

lemma table_of_add_file: "add_file p f st = (i, st') \<Longrightarrow> ids_left st \<Longrightarrow>
    i = next_id st \<and> table_of st' = (table_of st)\<lparr>t_next := next_id st + 1, t_files := (files_of st)(i \<mapsto> (p, True))\<rparr>"
  by (auto simp: add_file_def table_of_def ids_left_def id_after_def files_of_def dirs_of_def fun_eq_iff split: option.split)

lemma table_of_add_dir: "add_dir p d st = (i, st') \<Longrightarrow> ids_left st \<Longrightarrow>
    i = next_id st \<and> table_of st' = (table_of st)\<lparr>t_next := next_id st + 1, t_dirs := (dirs_of st)(i \<mapsto> (p, 0))\<rparr>"
  by (auto simp: add_dir_def table_of_def ids_left_def id_after_def files_of_def dirs_of_def fun_eq_iff split: option.split)

lemma table_of_remove_file:
  "table_of (remove_file i st) = (table_of st)\<lparr>t_files := (files_of st)(i := None)\<rparr>"
  by (auto simp: remove_file_def table_of_def files_of_def dirs_of_def fun_eq_iff split: option.split)

lemma table_of_remove_dir:
  "table_of (remove_dir i st) = (table_of st)\<lparr>t_dirs := (dirs_of st)(i := None)\<rparr>"
  by (auto simp: remove_dir_def table_of_def files_of_def dirs_of_def fun_eq_iff split: option.split)

lemma table_of_kill: "files_of st i = Some (p, True) \<Longrightarrow>
    table_of (st\<lparr>file_handle_map := hm_remove i (file_handle_map st)\<rparr>)
      = (table_of st)\<lparr>t_files := (files_of st)(i \<mapsto> (p, False))\<rparr>"
  by (auto simp: table_of_def files_of_def dirs_of_def fun_eq_iff split: option.split)

lemma table_of_advance: "dirs_of st i = Some (p, k) \<Longrightarrow>
    table_of (st\<lparr>dir_iter_map := hm_insert i k' (dir_iter_map st)\<rparr>)
      = (table_of st)\<lparr>t_dirs := (dirs_of st)(i \<mapsto> (p, k'))\<rparr>"
  by (auto simp: table_of_def files_of_def dirs_of_def fun_eq_iff split: option.splits)

lemma table_of_set_handle: "files_of st i = Some (p, True) \<Longrightarrow> table_of (set_file_handle i f st) = table_of st"
  by (auto simp: set_file_handle_def table_of_def files_of_def dirs_of_def fun_eq_iff split: option.split)

section \<open>The simulation\<close>

lemma sim_open_file:
  assumes "store_inv st" "ids_left st" "store_open_file C fsc p st w = (r, st', w')"
  shows "table_step (table_of st) (OpenF p) (map_sum id Id r) (table_of st')"
proof (cases "has_file st p")
  case (Some i)
  then have "files_of st i = Some (p, hm_get i (file_handle_map st) \<noteq> None)"
    using has_file_iff [OF assms(1)] by (simp add: files_of_Some)
  with Some assms(3) known_file [of "table_of st" i p] show ?thesis by (auto simp: store_open_file_def)
next
  case None
  then have new: "\<forall>i a. t_files (table_of st) i \<noteq> Some (p, a)"
    using has_file_None [OF assms(1)] by (simp add: files_of_Some)
  show ?thesis
    using None assms(3) new_file [OF new] no_file [OF new] table_of_add_file [OF _ assms(2), of p]
    by (auto simp: store_open_file_def insert_file_add split: sum.splits prod.splits)
qed

lemma sim_open_dir:
  assumes "store_inv st" "ids_left st" "store_open_dir C fsc p st w = (r, st', w')"
  shows "table_step (table_of st) (OpenD p) (map_sum id Id r) (table_of st')"
proof (cases "has_dir st p")
  case (Some i)
  then have n: "hm_get i (dir_name_map st) = Some p" using has_dir_iff [OF assms(1)] by simp
  then have "hm_get i (dir_iter_map st) \<noteq> None" using dir_keys [OF assms(1), of i] by simp
  with n obtain k where "dirs_of st i = Some (p, k)" by (auto simp: dirs_of_Some)
  with Some assms(3) known_dir [of "table_of st" i p k] show ?thesis by (auto simp: store_open_dir_def)
next
  case None
  then have new: "\<forall>i k. t_dirs (table_of st) i \<noteq> Some (p, k)"
    using has_dir_None [OF assms(1)] by (simp add: dirs_of_Some)
  show ?thesis
    using None assms(3) new_dir [OF new] no_dir [OF new] table_of_add_dir [OF _ assms(2), of p]
    by (auto simp: store_open_dir_def insert_dir_add split: sum.splits prod.splits if_splits)
qed

lemma sim_close_file:
  assumes "store_inv st" "store_close_file C i st w = (r, st', w')"
  shows "table_step (table_of st) (CloseF i) (map_sum id (\<lambda>_. Done) r) (table_of st')"
proof (cases "hm_get i (file_handle_map st)")
  case None
  with assms(2) dead_file [OF None] close_dead [of "table_of st" i] show ?thesis
    by (auto simp: store_close_file_def)
next
  case (Some f)
  obtain p where p: "files_of st i = Some (p, True)" using live_file [OF assms(1) Some] by blast
  have steps: "table_step (table_of st) (CloseF i) (Inr Done) (table_of (remove_file i st))"
    "table_step (table_of st) (CloseF i) (Inl e)
       (table_of (st\<lparr>file_handle_map := hm_remove i (file_handle_map st)\<rparr>))" for e
    using close_file [of "table_of st" i p] kill_file [of "table_of st" i p e] p
    by (simp_all add: table_of_remove_file table_of_kill)
  show ?thesis
    using assms(2) Some steps
    by (auto simp: store_close_file_def Let_def remove_file_def split: sum.splits prod.splits)
qed

lemma sim_close_dir:
  assumes "store_inv st" "store_close_dir C i st w = (r, st', w')"
  shows "table_step (table_of st) (CloseD i) (map_sum id (\<lambda>_. Done) r) (table_of st')"
proof (cases "hm_get i (dir_handle_map st)")
  case None
  with assms(2) dirs_of_None [OF assms(1), of i] close_no_dir [of "table_of st" i] show ?thesis
    by (auto simp: store_close_dir_def)
next
  case (Some d)
  obtain p k where "dirs_of st i = Some (p, k)" by (rule some_dir [OF assms(1) Some])
  then have "table_step (table_of st) (CloseD i) (Inr Done) (table_of (remove_dir i st))"
    using close_dir [of "table_of st" i p k] by (simp add: table_of_remove_dir)
  then show ?thesis using assms(2) Some by (auto simp: store_close_dir_def remove_dir_def)
qed

lemma sim_next:
  assumes "store_inv st" "read_next_dirent C i st w = (r, st', w')"
  shows "table_step (table_of st) (NextD i) (map_sum id Entry r) (table_of st')"
proof (cases "hm_get i (dir_handle_map st)")
  case None
  with assms(2) dirs_of_None [OF assms(1), of i] next_no_dir [of "table_of st" i] show ?thesis
    by (auto simp: read_next_dirent_def)
next
  case (Some d)
  obtain p k where d: "dirs_of st i = Some (p, k)" "hm_get i (dir_iter_map st) = Some k"
    by (rule some_dir [OF assms(1) Some])
  have "st' = st\<lparr>dir_iter_map := hm_insert i (k + 1) (dir_iter_map st)\<rparr>"
    using assms(2) Some d(2) by (auto simp: read_next_dirent_def Let_def split: option.splits sum.splits prod.splits)
  moreover have "table_step (table_of st) (NextD i) (map_sum id Entry r)
      (table_of (st\<lparr>dir_iter_map := hm_insert i (k + 1) (dir_iter_map st)\<rparr>))"
    using next_entry [of "table_of st" i p k "map_sum id Entry r"] d(1)
    by (cases r) (simp_all add: table_of_advance)
  ultimately show ?thesis by simp
qed

lemma sim_use:
  assumes "store_inv st" "store_do C fsc work (UseF i) st w = (r, st', w')"
  shows "table_step (table_of st) (UseF i) r (table_of st')"
proof (cases "hm_get i (file_handle_map st)")
  case None
  with assms(2) dead_file [OF None] use_dead [of "table_of st" i] show ?thesis
    by (auto simp: get_file_handle_def)
next
  case (Some f)
  obtain p where p: "files_of st i = Some (p, True)" using live_file [OF assms(1) Some] by blast
  with assms(2) Some use_file [of "table_of st" i p] show ?thesis
    by (auto simp: get_file_handle_def table_of_set_handle split: prod.splits)
qed

lemma sim_path: "table_step (table_of st) (PathOf i) (map_sum id Path (get_path_for_id st i)) (table_of st)"
  if "store_inv st"
proof (cases "files_of st i")
  case None
  show ?thesis
  proof (cases "dirs_of st i")
    case N: None
    have "hm_get i (dir_name_map st) = None" using N dirs_of_None [OF that] dir_keys [OF that] by simp
    with N None path_none [of "table_of st" i] show ?thesis by (auto simp: get_path_for_id_def files_of_None)
  next
    case (Some pk)
    obtain p k where "pk = (p, k)" by (cases pk)
    with Some None path_dir [of "table_of st" i p k] show ?thesis
      by (auto simp: get_path_for_id_def files_of_None dirs_of_Some)
  qed
next
  case (Some pa)
  obtain p a where "pa = (p, a)" by (cases pa)
  with Some path_file [of "table_of st" i p a] show ?thesis
    by (auto simp: get_path_for_id_def files_of_Some)
qed

lemma store_do_sim:
  assumes "store_inv st" "ids_left st" "store_do C fsc work x st w = (r, st', w')"
  shows "table_step (table_of st) x r (table_of st')"
proof (cases x)
  case (OpenF p) with assms sim_open_file [OF assms(1,2)] show ?thesis
    by (auto simp: apfst_def map_prod_def split: prod.splits)
next
  case (OpenD p) with assms sim_open_dir [OF assms(1,2)] show ?thesis
    by (auto simp: apfst_def map_prod_def split: prod.splits)
next
  case (CloseF i) with assms sim_close_file [OF assms(1)] show ?thesis
    by (auto simp: apfst_def map_prod_def split: prod.splits)
next
  case (CloseD i) with assms sim_close_dir [OF assms(1)] show ?thesis
    by (auto simp: apfst_def map_prod_def split: prod.splits)
next
  case (NextD i) with assms sim_next [OF assms(1)] show ?thesis
    by (auto simp: apfst_def map_prod_def split: prod.splits)
next
  case (UseF i) with sim_use [OF assms(1), of C fsc work i w] assms(3) show ?thesis by simp
next
  case (PathOf i) with assms sim_path [OF assms(1)] show ?thesis by auto
qed

lemma store_do_inv:
  assumes "store_inv st" "ids_left st" "store_do C fsc work x st w = (r, st', w')"
  shows "store_inv st'"
proof (cases x)
  case (UseF i)
  with assms set_file_handle_inv [OF assms(1)] show ?thesis by (auto split: sum.splits prod.splits)
qed (use assms store_open_file_inv [OF assms(1,2)] store_open_dir_inv [OF assms(1,2)]
    store_close_file_inv [OF assms(1)] store_close_dir_inv [OF assms(1)] read_next_dirent_inv [OF assms(1)]
    in \<open>auto simp: apfst_def map_prod_def split: prod.splits\<close>)

text \<open>A step takes at most one id.\<close>

lemma step_next: "table_step t x r t' \<Longrightarrow> t_next t' = t_next t \<or> t_next t' = t_next t + 1"
  by (induction rule: table_step.induct) auto

lemma next_room: "unat (n :: u64) + Suc k < 2 ^ 64 \<Longrightarrow> n' = n \<or> n' = n + 1 \<Longrightarrow> unat n' + k < 2 ^ 64"
  using unat_plus_small [of n 1] by auto

lemma store_run_sim:
  assumes "store_inv st" "unat (next_id st) + length xs < 2 ^ 64"
    and "store_run C fsc work xs st w = (rs, st', w')"
  shows "table_run (table_of st) xs rs (table_of st') \<and> store_inv st'"
  using assms
proof (induction xs arbitrary: st w rs)
  case Nil
  then show ?case by (auto intro: run_Nil)
next
  case (Cons x xs)
  have room: "ids_left st"
    using unat_plus_small [of "next_id st" 1] Cons.prems(2) by (auto simp: ids_left_def)
  obtain r st1 w1 where d: "store_do C fsc work x st w = (r, st1, w1)" by (rule prod_cases3)
  note s = store_do_sim [OF Cons.prems(1) room d]
  have "unat (next_id st1) + length xs < 2 ^ 64"
    using next_room [OF _ step_next [OF s, simplified], of "length xs"] Cons.prems(2) by simp
  from Cons.IH [OF store_do_inv [OF Cons.prems(1) room d] this] Cons.prems(3) d s
  show ?case by (auto split: prod.splits intro: run_Cons)
qed

section \<open>Properties\<close>

text \<open>
  C4: The id table refines the abstract table: every sequence of fewer than \<open>2 ^ 64\<close> calls on a new
  table (opens, closes, uses and path lookups, with any file system underneath and any of its
  answers) gives results that the abstract table gives as well, and ends in a well-formed table
  whose paths, live handles and cursors are those of the abstract one.
\<close>

theorem store_refines_table:
  assumes "length xs < 2 ^ 64" "store_run C fsc work xs store_new w = (rs, st, w')"
  shows "table_run table_new xs rs (table_of st) \<and> store_inv st"
  using store_run_sim [OF store_inv_new _ assms(2)] assms(1)
  by (simp add: table_of_new)

theorem store_refines_table_witness:
  "\<exists>st :: (rstr, fat_dirent list) id_store. table_run table_new [OpenF [0x61], OpenF [0x61], CloseF 0, OpenF [0x61], UseF 0]
     [Inr (Id 0), Inr (Id 0), Inr Done, Inr (Id 1), Inl NX_FATDRIVE_ERR_FILE_NOT_FOUND] (table_of st)"
proof -
  let ?xs = "[OpenF [0x61], OpenF [0x61], CloseF 0, OpenF [0x61], UseF 0]"
  let ?rs = "[Inr (Id 0), Inr (Id 0), Inr Done, Inr (Id 1), Inl NX_FATDRIVE_ERR_FILE_NOT_FOUND]"
  have rs: "fst (store_run toy_crate toy_cell Pair ?xs store_new True) = ?rs"
    by code_simp
  obtain st w' where "store_run toy_crate toy_cell Pair ?xs store_new True = (?rs, st, w')"
    using rs by (metis prod.collapse)
  from store_refines_table [OF _ this] show ?thesis by (auto simp: exI [of _ st])
qed

section \<open>Ids are never reused\<close>

text \<open>What an open asks for: a file or a directory of some path.\<close>

datatype target = FileAt rstr | DirAt rstr

fun target_of :: "table_op \<Rightarrow> target option" where
  "target_of (OpenF p) = Some (FileAt p)"
| "target_of (OpenD p) = Some (DirAt p)"
| "target_of _ = None"

text \<open>\<open>H\<close> remembers what every id handed out so far was opened for.\<close>

definition history :: "id_table \<Rightarrow> (u64 \<rightharpoonup> target) \<Rightarrow> bool" where
  "history t H \<longleftrightarrow> (\<forall>i p a. t_files t i = Some (p, a) \<longrightarrow> H i = Some (FileAt p))
     \<and> (\<forall>i p k. t_dirs t i = Some (p, k) \<longrightarrow> H i = Some (DirAt p)) \<and> (\<forall>i. H i \<noteq> None \<longrightarrow> i < t_next t)"

lemma history_fresh: "history t H \<Longrightarrow> H (t_next t) = None"
  by (auto simp: history_def)

lemma history_new:
  assumes "history t H" "t_next t < t_next t + 1"
  shows "history (t\<lparr>t_next := t_next t + 1, t_files := (t_files t)(t_next t \<mapsto> (p, a))\<rparr>) (H(t_next t \<mapsto> FileAt p))"
    "history (t\<lparr>t_next := t_next t + 1, t_dirs := (t_dirs t)(t_next t \<mapsto> (p, k))\<rparr>) (H(t_next t \<mapsto> DirAt p))"
    "H \<subseteq>\<^sub>m H(t_next t \<mapsto> x)"
  using assms history_fresh [OF assms(1)]
  by (auto simp: history_def map_le_def)

lemma step_history:
  assumes "table_step t x r t'" "history t H" "t_next t < t_next t + 1"
  shows "\<exists>H'. H \<subseteq>\<^sub>m H' \<and> history t' H' \<and> (\<forall>i. r = Inr (Id i) \<longrightarrow> target_of x \<noteq> None \<and> H' i = target_of x)"
proof -
  have keep: ?thesis if "history t' H" "\<forall>i. r = Inr (Id i) \<longrightarrow> target_of x \<noteq> None \<and> H i = target_of x"
    using that by (intro exI [of _ H]) simp
  from assms(1) show ?thesis
  proof cases
    case (new_file p)
    with history_new [OF assms(2,3)] show ?thesis by (intro exI [of _ "H(t_next t \<mapsto> FileAt p)"]) auto
  next
    case (new_dir p)
    with history_new [OF assms(2,3)] show ?thesis by (intro exI [of _ "H(t_next t \<mapsto> DirAt p)"]) auto
  qed (rule keep; use assms(2) in \<open>auto simp: history_def\<close>)+
qed

lemma run_history:
  assumes "table_run t xs rs t'" "history t H" "unat (t_next t) + length xs < 2 ^ 64"
  shows "\<exists>H'. H \<subseteq>\<^sub>m H' \<and> (\<forall>a i. a < length xs \<longrightarrow> rs ! a = Inr (Id i) \<longrightarrow> target_of (xs ! a) \<noteq> None \<and> H' i = target_of (xs ! a))"
  using assms
proof (induction arbitrary: H rule: table_run.induct)
  case (run_Cons t x r t1 xs rs t2)
  have lt: "t_next t < t_next t + 1"
    using unat_plus_small [of "t_next t" 1] run_Cons.prems(2) by (simp add: word_less_nat_alt)
  obtain H1 where 1: "H \<subseteq>\<^sub>m H1" "history t1 H1"
    "\<forall>i. r = Inr (Id i) \<longrightarrow> target_of x \<noteq> None \<and> H1 i = target_of x"
    using step_history [OF run_Cons.hyps(1) run_Cons.prems(1) lt] by blast
  have "unat (t_next t1) + length xs < 2 ^ 64"
    using next_room [OF _ step_next [OF run_Cons.hyps(1)], of "length xs"] run_Cons.prems(2) by simp
  from run_Cons.IH [OF 1(2) this] obtain H2 where 2: "H1 \<subseteq>\<^sub>m H2"
    "\<forall>a i. a < length xs \<longrightarrow> rs ! a = Inr (Id i) \<longrightarrow> target_of (xs ! a) \<noteq> None \<and> H2 i = target_of (xs ! a)"
    by blast
  have "H2 i = target_of x" if "r = Inr (Id i)" for i
    using that 1(3) 2(1) by (metis domIff map_le_def)
  with 1 2 map_le_trans [OF 1(1) 2(1)] show ?case
    by (intro exI [of _ H2]) (auto simp: nth_Cons split: nat.splits)
next
  case (run_Nil t)
  show ?case by (intro exI [of _ H]) simp
qed

text \<open>
  C5: An id never changes its meaning: in any sequence of fewer than \<open>2 ^ 64\<close> calls on a new table,
  whatever is closed in between and whatever the file system answers, two opens that return
  the same id were asked for the same path, and both for a file or both for a directory.
\<close>

theorem id_names_one_path:
  assumes "length xs < 2 ^ 64" "store_run C fsc work xs store_new w = (rs, st, w')"
    and "a < length xs" "b < length xs" "rs ! a = Inr (Id i)" "rs ! b = Inr (Id i)"
  shows "target_of (xs ! a) = target_of (xs ! b) \<and> target_of (xs ! a) \<noteq> None"
proof -
  have r: "table_run table_new xs rs (table_of st)"
    using store_run_sim [OF store_inv_new _ assms(2)] assms(1) by (simp add: table_of_new)
  have "history table_new Map.empty" by (simp add: history_def table_new_def)
  from run_history [OF r this] assms(1) obtain H' where
    "\<forall>a i. a < length xs \<longrightarrow> rs ! a = Inr (Id i) \<longrightarrow> target_of (xs ! a) \<noteq> None \<and> H' i = target_of (xs ! a)"
    by (auto simp: table_new_def)
  then show ?thesis using assms(3-6) by metis
qed

theorem id_names_one_path_witness:
  "\<exists>rs st w. store_run toy_crate toy_cell Pair [OpenF [0x61], OpenD [0x2F], OpenF [0x61]] store_new True = (rs, st, w)
     \<and> rs = [Inr (Id 0), Inr (Id 1), Inr (Id 0)]
     \<and> target_of ([OpenF [0x61], OpenD [0x2F], OpenF [0x61]] ! 0) = target_of ([OpenF [0x61], OpenD [0x2F], OpenF [0x61]] ! 2)"
proof -
  let ?xs = "[OpenF [0x61], OpenD [0x2F], OpenF [0x61]]" and ?rs = "[Inr (Id 0), Inr (Id 1), Inr (Id 0)]"
  have rs: "fst (store_run toy_crate toy_cell Pair ?xs store_new True) = ?rs" by code_simp
  obtain st w' where s: "store_run toy_crate toy_cell Pair ?xs store_new True = (?rs, st, w')"
    using rs by (metis prod.collapse)
  from id_names_one_path [OF _ s, of 0 2 0] s show ?thesis by simp
qed

end
