(* ===== verification/FileSpec.thy ===== *)
theory FileSpec
  imports UsbFsStable IdStoreSpec
begin

text \<open>
  The contract of the file calls of the C interface: a file system of named byte arrays and a table
  of open files with positions. Over a working crate \<open>fatfs\<close> every sequence of the calls of
  \<open>src/capi_helpers/usbfs.rs\<close> on files gives results of this abstract file system.
\<close>

section \<open>Calls\<close>

datatype file_call =
    FOpen bytes u64 | FClose u64 | FRead u64 bytes | FWrite u64 bytes | FSeek u64 u64 u64 | FSync u64
  | FTruncate u64 u64 | FCreate bytes | FDelete bytes

datatype file_out = File_id u64 | Bytes usize bytes | Count u64 | All_done

text \<open>One call of the C interface, its code and what it stored.\<close>

fun file_do ::
  "('w, 'fs, 'f, 'd, 'it) fat_crate \<Rightarrow> file_call \<Rightarrow> ('u, 'info, 'fs, 'f, 'd) globals \<Rightarrow> 'w
     \<Rightarrow> (u32 \<times> file_out option) \<times> ('u, 'info, 'fs, 'f, 'd) globals \<times> 'w" where
  "file_do C (FOpen p m) g w = apfst (map_prod id (map_option File_id)) (usbFsOpenFile C p m g w)"
| "file_do C (FClose i) g w = apfst (map_prod id (map_option (\<lambda>_. All_done))) (usbFsCloseFile C i g w)"
| "file_do C (FRead i b) g w = apfst (map_prod id (map_option (\<lambda>(n, out). Bytes n out))) (usbFsReadFile C i b g w)"
| "file_do C (FWrite i b) g w = apfst (map_prod id (map_option Count)) (usbFsWriteFile C i b g w)"
| "file_do C (FSeek i p wh) g w = apfst (map_prod id (map_option Count)) (usbFsSeekFile C i p wh g w)"
| "file_do C (FSync i) g w = apfst (map_prod id (map_option (\<lambda>_. All_done))) (usbFsSyncFile C i g w)"
| "file_do C (FTruncate i n) g w = apfst (map_prod id (map_option (\<lambda>_. All_done))) (usbFsTruncateFile C i n g w)"
| "file_do C (FCreate p) g w = apfst (map_prod id (map_option (\<lambda>_. All_done))) (usbFsCreateFile C p g w)"
| "file_do C (FDelete p) g w = apfst (map_prod id (map_option (\<lambda>_. All_done))) (usbFsDeleteFile C p g w)"

fun file_run ::
  "('w, 'fs, 'f, 'd, 'it) fat_crate \<Rightarrow> file_call list \<Rightarrow> ('u, 'info, 'fs, 'f, 'd) globals \<Rightarrow> 'w
     \<Rightarrow> (u32 \<times> file_out option) list \<times> ('u, 'info, 'fs, 'f, 'd) globals \<times> 'w" where
  "file_run C [] g w = ([], g, w)"
| "file_run C (x # xs) g w =
     (case file_do C x g w of
        (r, g1, w1) \<Rightarrow> (case file_run C xs g1 w1 of (rs, g2, w2) \<Rightarrow> (r # rs, g2, w2)))"

fun call_path :: "file_call \<Rightarrow> rstr option" where
  "call_path (FOpen p m) = cstr_to_str p"
| "call_path (FCreate p) = cstr_to_str p"
| "call_path (FDelete p) = cstr_to_str p"
| "call_path _ = None"

section \<open>The abstract file system\<close>

text \<open>
  Files have names of type \<open>'n\<close>; \<open>canon\<close> says which file a path names (FAT ignores case, so several
  paths may name one file). An open file has its path and its position.
\<close>

record 'n files =
  a_content :: "'n \<rightharpoonup> bytes"
  a_open :: "u64 \<rightharpoonup> rstr \<times> nat"
  a_next :: u64

text \<open>The position a seek asks for, in the wrapping 64-bit arithmetic of the crate.\<close>

fun seek_goal :: "seek_from \<Rightarrow> nat \<Rightarrow> nat \<Rightarrow> i64" where
  "seek_goal (Start p) q len = p"
| "seek_goal (Current d) q len = of_nat q + d"
| "seek_goal (End d) q len = of_nat len + d"

definition not_open :: "'n files \<Rightarrow> rstr \<Rightarrow> bool" where
  "not_open A p \<longleftrightarrow> (\<forall>i q. a_open A i \<noteq> Some (p, q))"

definition moved :: "u64 \<Rightarrow> nat \<Rightarrow> 'n files \<Rightarrow> 'n files" where
  "moved i q A = A\<lparr>a_open := (a_open A)(i := map_option (\<lambda>(p, _). (p, q)) (a_open A i))\<rparr>"

definition stored :: "'n \<Rightarrow> bytes option \<Rightarrow> 'n files \<Rightarrow> 'n files" where
  "stored n b A = A\<lparr>a_content := (a_content A)(n := b)\<rparr>"

text \<open>What a handle is at: the path, the position and the bytes of its file.\<close>

definition at :: "(rstr \<Rightarrow> 'n) \<Rightarrow> 'n files \<Rightarrow> u64 \<Rightarrow> rstr \<Rightarrow> nat \<Rightarrow> bytes \<Rightarrow> bool" where
  "at canon A i p q b \<longleftrightarrow> a_open A i = Some (p, q) \<and> a_content A (canon p) = Some b \<and> q \<le> length b"

fun uses_id :: "file_call \<Rightarrow> u64 option" where
  "uses_id (FClose i) = Some i"
| "uses_id (FRead i _) = Some i"
| "uses_id (FWrite i _) = Some i"
| "uses_id (FSeek i _ _) = Some i"
| "uses_id (FSync i) = Some i"
| "uses_id (FTruncate i _) = Some i"
| "uses_id _ = None"

inductive file_step ::
  "(rstr \<Rightarrow> 'n) \<Rightarrow> 'n files \<Rightarrow> file_call \<Rightarrow> u32 \<times> file_out option \<Rightarrow> 'n files \<Rightarrow> bool" for canon where
  bad_path: "uses_id c = None \<Longrightarrow> call_path c = None \<Longrightarrow> file_step canon A c (NX_FATDRIVE_ERR_UNKNOWN, None) A"
| bad_id: "uses_id c = Some i \<Longrightarrow> a_open A i = None \<Longrightarrow> file_step canon A c (NX_FATDRIVE_ERR_FILE_NOT_FOUND, None) A"
| open_known: "cstr_to_str mem = Some p \<Longrightarrow> a_open A i = Some (p, q) \<Longrightarrow>
    file_step canon A (FOpen mem m) (SUCCESS, Some (File_id i)) A"
| open_new: "cstr_to_str mem = Some p \<Longrightarrow> not_open A p \<Longrightarrow> a_content A (canon p) = Some b \<Longrightarrow>
    file_step canon A (FOpen mem m) (SUCCESS, Some (File_id (a_next A)))
      (A\<lparr>a_open := (a_open A)(a_next A \<mapsto> (p, 0)), a_next := a_next A + 1\<rparr>)"
| open_missing: "cstr_to_str mem = Some p \<Longrightarrow> not_open A p \<Longrightarrow> a_content A (canon p) = None \<Longrightarrow>
    file_step canon A (FOpen mem m) (io_error_map (io_error_from NotFound), None) A"
| closing: "at canon A i p q b \<Longrightarrow>
    file_step canon A (FClose i) (SUCCESS, Some All_done) (A\<lparr>a_open := (a_open A)(i := None)\<rparr>)"
| reading: "at canon A i p q b \<Longrightarrow> unat n \<le> min (length buf) (length b - q) \<Longrightarrow>
    (n = 0 \<longrightarrow> buf = [] \<or> q = length b) \<Longrightarrow>
    file_step canon A (FRead i buf) (SUCCESS, Some (Bytes n (take (unat n) (drop q b) @ drop (unat n) buf)))
      (moved i (q + unat n) A)"
| writing: "at canon A i p q b \<Longrightarrow> unat n \<le> length buf \<Longrightarrow> (n = 0 \<longrightarrow> buf = []) \<Longrightarrow>
    file_step canon A (FWrite i buf) (SUCCESS, Some (Count n))
      (stored (canon p) (Some (take q b @ take (unat n) buf @ drop (q + unat n) b)) (moved i (q + unat n) A))"
| write_fails: "at canon A i p q b \<Longrightarrow> file_step canon A (FWrite i buf) (io_error_map e, None) A"
| seeking: "at canon A i p q b \<Longrightarrow> seek_target pos wh = Some sf \<Longrightarrow> 0 \<le> sint (seek_goal sf q (length b)) \<Longrightarrow>
    q' = min (nat (sint (seek_goal sf q (length b)))) (length b) \<Longrightarrow>
    file_step canon A (FSeek i pos wh) (SUCCESS, Some (Count (of_nat q'))) (moved i q' A)"
| seek_before: "at canon A i p q b \<Longrightarrow> seek_target pos wh = Some sf \<Longrightarrow> sint (seek_goal sf q (length b)) < 0 \<Longrightarrow>
    file_step canon A (FSeek i pos wh) (io_error_map (io_error_from InvalidInput), None) A"
| seek_whence: "at canon A i p q b \<Longrightarrow> seek_target pos wh = None \<Longrightarrow>
    file_step canon A (FSeek i pos wh)
      (push_bit 8 NX_FATDRIVE_ERR_NOT_IMPLEMENTED + NX_FATDRIVE_ERR_MODULE, None) A"
| syncing: "at canon A i p q b \<Longrightarrow> file_step canon A (FSync i) (SUCCESS, Some All_done) A"
| truncating: "at canon A i p q b \<Longrightarrow>
    file_step canon A (FTruncate i sz) (SUCCESS, Some All_done) (stored (canon p) (Some (take q b)) A)"
| create_there: "cstr_to_str mem = Some p \<Longrightarrow> a_content A (canon p) = Some b \<Longrightarrow>
    file_step canon A (FCreate mem) (SUCCESS, Some All_done) A"
| create_new: "cstr_to_str mem = Some p \<Longrightarrow> a_content A (canon p) = None \<Longrightarrow>
    file_step canon A (FCreate mem) (SUCCESS, Some All_done) (stored (canon p) (Some []) A)"
| create_fails: "cstr_to_str mem = Some p \<Longrightarrow> a_content A (canon p) = None \<Longrightarrow>
    file_step canon A (FCreate mem) (io_error_map e, None) A"
| deleting: "cstr_to_str mem = Some p \<Longrightarrow> a_content A (canon p) = Some b \<Longrightarrow>
    file_step canon A (FDelete mem) (SUCCESS, Some All_done)
      (stored (canon p) None (A\<lparr>a_open := (\<lambda>i. case a_open A i of
         Some (p', q) \<Rightarrow> if p' = p then None else Some (p', q) | None \<Rightarrow> None)\<rparr>))"
| delete_missing: "cstr_to_str mem = Some p \<Longrightarrow> a_content A (canon p) = None \<Longrightarrow>
    file_step canon A (FDelete mem) (io_error_map (io_error_from NotFound), None) A"

inductive file_steps ::
  "(rstr \<Rightarrow> 'n) \<Rightarrow> 'n files \<Rightarrow> file_call list \<Rightarrow> (u32 \<times> file_out option) list \<Rightarrow> 'n files \<Rightarrow> bool" for canon where
  steps_Nil: "file_steps canon A [] [] A"
| steps_Cons: "file_step canon A x r A1 \<Longrightarrow> file_steps canon A1 xs rs A2 \<Longrightarrow> file_steps canon A (x # xs) (r # rs) A2"

section \<open>A working crate\<close>

text \<open>
  How the objects of the crate are read: the contents of the files of a world, the file a path
  names, the file and the position of a handle, and whether the handle is up to date (opening a
  file twice makes two handles of which only the one used is). \<open>v_paths\<close> are paths that name a file
  or nothing in a directory that exists, never a directory.
\<close>

record ('w, 'f, 'n) fat_view =
  v_content :: "'w \<Rightarrow> 'n \<rightharpoonup> bytes"
  v_canon :: "rstr \<Rightarrow> 'n"
  v_file :: "'f \<Rightarrow> 'n"
  v_pos :: "'f \<Rightarrow> nat"
  v_valid :: "'f \<Rightarrow> 'w \<Rightarrow> bool"
  v_paths :: "rstr set"

text \<open>Between two worlds, the handles on other files than \<open>n\<close> stay up to date.\<close>

definition keeps :: "('w, 'f, 'n) fat_view \<Rightarrow> 'n \<Rightarrow> 'w \<Rightarrow> 'w \<Rightarrow> bool" where
  "keeps V n w w' \<longleftrightarrow> (\<forall>h. v_valid V h w \<longrightarrow> v_file V h \<noteq> n \<longrightarrow> v_valid V h w')"

text \<open>An operation on the handle \<open>f\<close> leaves \<open>f'\<close> on the same file, at \<open>q\<close>, and the contents \<open>m\<close>.\<close>

definition after_op :: "('w, 'f, 'n) fat_view \<Rightarrow> 'f \<Rightarrow> 'w \<Rightarrow> nat \<Rightarrow> ('n \<rightharpoonup> bytes) \<Rightarrow> 'f \<Rightarrow> 'w \<Rightarrow> bool" where
  "after_op V f w q m f' w' \<longleftrightarrow> v_file V f' = v_file V f \<and> v_pos V f' = q \<and> v_valid V f' w'
     \<and> v_content V w' = m \<and> keeps V (v_file V f) w w'"

definition open_law :: "('w, 'fs, 'f, 'd, 'it) fat_crate \<Rightarrow> 'fs \<Rightarrow> ('w, 'f, 'n) fat_view \<Rightarrow> bool" where
  "open_law C fs V \<longleftrightarrow> (\<forall>p \<in> v_paths V. \<forall>w. case v_content V w (v_canon V p) of
      Some b \<Rightarrow> \<exists>f w'. fc_open_file C (fc_root_dir C fs) p w = (Inr f, w') \<and> v_file V f = v_canon V p
        \<and> v_pos V f = 0 \<and> v_valid V f w' \<and> v_content V w' = v_content V w \<and> keeps V (v_canon V p) w w'
    | None \<Rightarrow> \<exists>e w'. fc_open_file C (fc_root_dir C fs) p w = (Inl e, w') \<and> io_kind e = NotFound
        \<and> v_content V w' = v_content V w \<and> keeps V (v_canon V p) w w')"

definition handle_law :: "('w, 'fs, 'f, 'd, 'it) fat_crate \<Rightarrow> ('w, 'f, 'n) fat_view \<Rightarrow> bool" where
  "handle_law C V \<longleftrightarrow> (\<forall>f w b. v_valid V f w \<and> v_content V w (v_file V f) = Some b \<longrightarrow>
     (v_pos V f \<le> length b
       \<and> (\<forall>buf. \<exists>n f' w'. fc_read C f buf w
             = (Inr n, take (unat n) (drop (v_pos V f) b) @ drop (unat n) buf, f', w')
           \<and> unat n \<le> min (length buf) (length b - v_pos V f) \<and> (n = 0 \<longrightarrow> buf = [] \<or> v_pos V f = length b)
           \<and> after_op V f w (v_pos V f + unat n) (v_content V w) f' w')
       \<and> (\<forall>buf. (\<exists>n f' w'. fc_write C f buf w = (Inr n, f', w') \<and> unat n \<le> length buf \<and> (n = 0 \<longrightarrow> buf = [])
             \<and> after_op V f w (v_pos V f + unat n) ((v_content V w)(v_file V f \<mapsto>
                 take (v_pos V f) b @ take (unat n) buf @ drop (v_pos V f + unat n) b)) f' w')
           \<or> (\<exists>e f' w'. fc_write C f buf w = (Inl e, f', w') \<and> after_op V f w (v_pos V f) (v_content V w) f' w'))
       \<and> (\<forall>sf. sint (seek_goal sf (v_pos V f) (length b)) < 0 \<longrightarrow>
           (\<exists>e f' w'. fc_seek C f sf w = (Inl e, f', w') \<and> io_kind e = InvalidInput
             \<and> after_op V f w (v_pos V f) (v_content V w) f' w'))
       \<and> (\<forall>sf q. 0 \<le> sint (seek_goal sf (v_pos V f) (length b)) \<and>
             q = min (nat (sint (seek_goal sf (v_pos V f) (length b)))) (length b) \<longrightarrow>
           (\<exists>f' w'. fc_seek C f sf w = (Inr (of_nat q), f', w') \<and> after_op V f w q (v_content V w) f' w'))
       \<and> (\<exists>f' w'. fc_flush C f w = (Inr (), f', w') \<and> after_op V f w (v_pos V f) (v_content V w) f' w')
       \<and> (\<exists>f' w'. fc_truncate C f w = (Inr (), f', w')
           \<and> after_op V f w (v_pos V f) ((v_content V w)(v_file V f \<mapsto> take (v_pos V f) b)) f' w')
       \<and> v_content V (fc_drop_file C f w) = v_content V w \<and> keeps V (v_file V f) w (fc_drop_file C f w)))"

definition entry_law :: "('w, 'fs, 'f, 'd, 'it) fat_crate \<Rightarrow> 'fs \<Rightarrow> ('w, 'f, 'n) fat_view \<Rightarrow> bool" where
  "entry_law C fs V \<longleftrightarrow> (\<forall>p \<in> v_paths V. \<forall>w.
     (case v_content V w (v_canon V p) of
        Some b \<Rightarrow> (\<exists>w'. fc_remove C (fc_root_dir C fs) p w = (Inr (), w')
            \<and> v_content V w' = (v_content V w)(v_canon V p := None) \<and> keeps V (v_canon V p) w w')
          \<and> (\<exists>f w'. fc_create_file C (fc_root_dir C fs) p w = (Inr f, w') \<and> v_file V f = v_canon V p
            \<and> v_valid V f w' \<and> v_content V w' = v_content V w \<and> keeps V (v_canon V p) w w')
      | None \<Rightarrow> (\<exists>e w'. fc_remove C (fc_root_dir C fs) p w = (Inl e, w') \<and> io_kind e = NotFound
            \<and> v_content V w' = v_content V w \<and> keeps V (v_canon V p) w w')
          \<and> ((\<exists>f w'. fc_create_file C (fc_root_dir C fs) p w = (Inr f, w') \<and> v_file V f = v_canon V p
              \<and> v_valid V f w' \<and> v_content V w' = (v_content V w)(v_canon V p \<mapsto> []) \<and> keeps V (v_canon V p) w w')
            \<or> (\<exists>e w'. fc_create_file C (fc_root_dir C fs) p w = (Inl e, w')
              \<and> v_content V w' = v_content V w \<and> keeps V (v_canon V p) w w'))))"

definition fat_laws :: "('w, 'fs, 'f, 'd, 'it) fat_crate \<Rightarrow> 'fs \<Rightarrow> ('w, 'f, 'n) fat_view \<Rightarrow> bool" where
  "fat_laws C fs V \<longleftrightarrow> open_law C fs V \<and> handle_law C V \<and> entry_law C fs V
     \<and> (\<forall>f w. v_valid V f w \<longrightarrow> v_content V w (v_file V f) \<noteq> None)"

lemma open_lawD:
  assumes "fat_laws C fs V" "p \<in> v_paths V"
  shows "v_content V w (v_canon V p) = Some b \<Longrightarrow> \<exists>f w'. fc_open_file C (fc_root_dir C fs) p w = (Inr f, w')
      \<and> v_file V f = v_canon V p \<and> v_pos V f = 0 \<and> v_valid V f w' \<and> v_content V w' = v_content V w
      \<and> keeps V (v_canon V p) w w'"
    and "v_content V w (v_canon V p) = None \<Longrightarrow> \<exists>e w'. fc_open_file C (fc_root_dir C fs) p w = (Inl e, w')
      \<and> io_kind e = NotFound \<and> v_content V w' = v_content V w \<and> keeps V (v_canon V p) w w'"
  using assms unfolding fat_laws_def open_law_def by (auto split: option.splits dest!: bspec spec [of _ w])

lemma handle_lawD:
  assumes "fat_laws C fs V" "v_valid V f w" "v_content V w (v_file V f) = Some b"
  shows "v_pos V f \<le> length b"
    and "\<exists>n f' w'. fc_read C f buf w = (Inr n, take (unat n) (drop (v_pos V f) b) @ drop (unat n) buf, f', w')
      \<and> unat n \<le> min (length buf) (length b - v_pos V f) \<and> (n = 0 \<longrightarrow> buf = [] \<or> v_pos V f = length b)
      \<and> after_op V f w (v_pos V f + unat n) (v_content V w) f' w'"
    and "(\<exists>n f' w'. fc_write C f buf w = (Inr n, f', w') \<and> unat n \<le> length buf \<and> (n = 0 \<longrightarrow> buf = [])
        \<and> after_op V f w (v_pos V f + unat n) ((v_content V w)(v_file V f \<mapsto>
            take (v_pos V f) b @ take (unat n) buf @ drop (v_pos V f + unat n) b)) f' w')
      \<or> (\<exists>e f' w'. fc_write C f buf w = (Inl e, f', w') \<and> after_op V f w (v_pos V f) (v_content V w) f' w')"
    and "sint (seek_goal sf (v_pos V f) (length b)) < 0 \<Longrightarrow> \<exists>e f' w'. fc_seek C f sf w = (Inl e, f', w')
      \<and> io_kind e = InvalidInput \<and> after_op V f w (v_pos V f) (v_content V w) f' w'"
    and "0 \<le> sint (seek_goal sf (v_pos V f) (length b)) \<Longrightarrow>
      q = min (nat (sint (seek_goal sf (v_pos V f) (length b)))) (length b) \<Longrightarrow>
      \<exists>f' w'. fc_seek C f sf w = (Inr (of_nat q), f', w') \<and> after_op V f w q (v_content V w) f' w'"
    and "\<exists>f' w'. fc_flush C f w = (Inr (), f', w') \<and> after_op V f w (v_pos V f) (v_content V w) f' w'"
    and "\<exists>f' w'. fc_truncate C f w = (Inr (), f', w')
      \<and> after_op V f w (v_pos V f) ((v_content V w)(v_file V f \<mapsto> take (v_pos V f) b)) f' w'"
    and "v_content V (fc_drop_file C f w) = v_content V w" "keeps V (v_file V f) w (fc_drop_file C f w)"
  using assms(1) [unfolded fat_laws_def handle_law_def, THEN conjunct2, THEN conjunct1, rule_format, OF conjI, OF assms(2,3)]
  by blast+

lemma valid_content: "fat_laws C fs V \<Longrightarrow> v_valid V f w \<Longrightarrow> \<exists>b. v_content V w (v_file V f) = Some b"
  by (auto simp: fat_laws_def)

lemma remove_lawD:
  assumes "fat_laws C fs V" "p \<in> v_paths V"
  shows "v_content V w (v_canon V p) = Some b \<Longrightarrow> \<exists>w'. fc_remove C (fc_root_dir C fs) p w = (Inr (), w')
      \<and> v_content V w' = (v_content V w)(v_canon V p := None) \<and> keeps V (v_canon V p) w w'"
    and "v_content V w (v_canon V p) = None \<Longrightarrow> \<exists>e w'. fc_remove C (fc_root_dir C fs) p w = (Inl e, w')
      \<and> io_kind e = NotFound \<and> v_content V w' = v_content V w \<and> keeps V (v_canon V p) w w'"
  using assms unfolding fat_laws_def entry_law_def by (auto split: option.splits dest!: bspec spec [of _ w])

lemma create_lawD:
  assumes "fat_laws C fs V" "p \<in> v_paths V"
  shows "v_content V w (v_canon V p) = Some b \<Longrightarrow> \<exists>f w'. fc_create_file C (fc_root_dir C fs) p w = (Inr f, w')
      \<and> v_file V f = v_canon V p \<and> v_valid V f w' \<and> v_content V w' = v_content V w \<and> keeps V (v_canon V p) w w'"
    and "v_content V w (v_canon V p) = None \<Longrightarrow>
      (\<exists>f w'. fc_create_file C (fc_root_dir C fs) p w = (Inr f, w') \<and> v_file V f = v_canon V p
        \<and> v_valid V f w' \<and> v_content V w' = (v_content V w)(v_canon V p \<mapsto> []) \<and> keeps V (v_canon V p) w w')
      \<or> (\<exists>e w'. fc_create_file C (fc_root_dir C fs) p w = (Inl e, w')
        \<and> v_content V w' = v_content V w \<and> keeps V (v_canon V p) w w')"
  using assms unfolding fat_laws_def entry_law_def by (auto split: option.splits dest!: bspec spec [of _ w])

section \<open>The simulation\<close>

text \<open>
  An id of the table and of the abstract one: nothing, or a path with an up-to-date handle on its
  file at the position.
\<close>

definition slot_rel ::
  "('w, 'f, 'n) fat_view \<Rightarrow> 'w \<Rightarrow> rstr option \<Rightarrow> 'f option \<Rightarrow> (rstr \<times> nat) option \<Rightarrow> bool" where
  "slot_rel V w nm h s \<longleftrightarrow> (case s of
      None \<Rightarrow> nm = None \<and> h = None
    | Some (p, q) \<Rightarrow> nm = Some p \<and> p \<in> v_paths V
        \<and> (\<exists>f. h = Some f \<and> v_file V f = v_canon V p \<and> v_pos V f = q \<and> v_valid V f w))"

definition files_rel :: "('w, 'f, 'n) fat_view \<Rightarrow> ('f, 'd) id_store \<Rightarrow> 'w \<Rightarrow> 'n files \<Rightarrow> bool" where
  "files_rel V st w A \<longleftrightarrow> store_inv st \<and> inj_on (v_canon V) (v_paths V)
     \<and> a_content A = v_content V w \<and> a_next A = next_id st
     \<and> (\<forall>i. slot_rel V w (hm_get i (file_name_map st)) (hm_get i (file_handle_map st)) (a_open A i))"

lemma files_relD:
  assumes "files_rel V st w A"
  shows "store_inv st" "inj_on (v_canon V) (v_paths V)" "a_content A = v_content V w" "a_next A = next_id st"
    "slot_rel V w (hm_get i (file_name_map st)) (hm_get i (file_handle_map st)) (a_open A i)"
  using assms by (simp_all add: files_rel_def)

lemma slot_None: "files_rel V st w A \<Longrightarrow> a_open A i = None \<Longrightarrow>
    hm_get i (file_handle_map st) = None \<and> hm_get i (file_name_map st) = None"
  using files_relD(5) [of V st w A i] by (simp add: slot_rel_def)

lemma slot_Some:
  assumes "files_rel V st w A" "a_open A i = Some (p, q)"
  obtains f where "hm_get i (file_name_map st) = Some p" "p \<in> v_paths V" "hm_get i (file_handle_map st) = Some f"
    "v_file V f = v_canon V p" "v_pos V f = q" "v_valid V f w"
  using files_relD(5) [OF assms(1), of i] assms(2) by (auto simp: slot_rel_def)

text \<open>Two ids of open files name different files.\<close>

lemma other_file:
  assumes "files_rel V st w A" "a_open A i = Some (p, q)" "a_open A j = Some (p', q')" "i \<noteq> j"
  shows "v_canon V p' \<noteq> v_canon V p"
proof -
  have n: "hm_get i (file_name_map st) = Some p" "hm_get j (file_name_map st) = Some p'" "p \<in> v_paths V" "p' \<in> v_paths V"
    using slot_Some [OF assms(1,2)] slot_Some [OF assms(1,3)] by metis+
  then have "has_file st p = Some i" "has_file st p' = Some j"
    using has_file_iff [OF files_relD(1) [OF assms(1)]] by simp_all
  with assms(4) have "p \<noteq> p'" by auto
  with n(3,4) files_relD(2) [OF assms(1)] show ?thesis by (auto simp: inj_on_def)
qed

lemma has_file_open:
  assumes "files_rel V st w A"
  shows "has_file st p = Some i \<longleftrightarrow> (\<exists>q. a_open A i = Some (p, q))"
  using has_file_iff [OF files_relD(1) [OF assms], of p i] files_relD(5) [OF assms, of i]
  by (auto simp: slot_rel_def split: option.splits)

lemma has_file_not_open: "files_rel V st w A \<Longrightarrow> has_file st p = None \<longleftrightarrow> not_open A p"
  using has_file_open [of V st w A p] by (metis not_None_eq not_open_def)

text \<open>A slot stays related while the handles on its file stay up to date.\<close>

lemma slot_keep:
  assumes "slot_rel V w nm h s" "keeps V n w w'" "\<And>p q. s = Some (p, q) \<Longrightarrow> v_canon V p \<noteq> n"
  shows "slot_rel V w' nm h s"
  using assms by (fastforce simp: slot_rel_def keeps_def split: option.splits)

text \<open>What remains to show after an operation on a file: its own slot.\<close>

lemma files_rel_step:
  assumes "files_rel V st w A" "keeps V n w w'" "store_inv st'" "a_next A' = next_id st'"
    and "a_content A' = v_content V w'"
    and "\<And>i p q. a_open A i = Some (p, q) \<Longrightarrow> v_canon V p = n \<or> i = k \<Longrightarrow> i = k"
    and "\<And>i. i \<noteq> k \<Longrightarrow> hm_get i (file_name_map st') = hm_get i (file_name_map st)
      \<and> hm_get i (file_handle_map st') = hm_get i (file_handle_map st) \<and> a_open A' i = a_open A i"
    and "slot_rel V w' (hm_get k (file_name_map st')) (hm_get k (file_handle_map st')) (a_open A' k)"
  shows "files_rel V st' w' A'"
proof -
  have "slot_rel V w' (hm_get i (file_name_map st')) (hm_get i (file_handle_map st')) (a_open A' i)" for i
  proof (cases "i = k")
    case False
    with assms(7) [OF False] slot_keep [OF files_relD(5) [OF assms(1), of i] assms(2)] assms(6) [of i]
    show ?thesis by auto
  qed (use assms(8) in simp)
  with assms show ?thesis by (simp add: files_rel_def)
qed

lemma rel_after_op:
  assumes "files_rel V st w A" "a_open A i = Some (p, q)" "hm_get i (file_handle_map st) = Some f"
    and "v_file V f = v_canon V p" "after_op V f w q' m f' w'"
  shows "files_rel V (set_file_handle i f' st) w' (A\<lparr>a_content := m, a_open := (a_open A)(i \<mapsto> (p, q'))\<rparr>)"
proof (rule files_rel_step [OF assms(1), where k = i and n = "v_canon V p"])
  have n: "hm_get i (file_name_map st) = Some p" "p \<in> v_paths V" using slot_Some [OF assms(1,2)] by metis+
  show "keeps V (v_canon V p) w w'" "a_content (A\<lparr>a_content := m, a_open := (a_open A)(i \<mapsto> (p, q'))\<rparr>) = v_content V w'"
    using assms(4,5) by (simp_all add: after_op_def)
  show "store_inv (set_file_handle i f' st)"
    using set_file_handle_inv [OF files_relD(1) [OF assms(1)], of i f] assms(3) by (simp add: get_file_handle_def)
  show "a_next (A\<lparr>a_content := m, a_open := (a_open A)(i \<mapsto> (p, q'))\<rparr>) = next_id (set_file_handle i f' st)"
    using files_relD(4) [OF assms(1)] by (simp add: set_file_handle_def)
  show "j = i" if "a_open A j = Some (p', r)" "v_canon V p' = v_canon V p \<or> j = i" for j p' r
    using other_file [OF assms(1,2) that(1)] that(2) by auto
  show "slot_rel V w' (hm_get i (file_name_map (set_file_handle i f' st))) (hm_get i (file_handle_map (set_file_handle i f' st)))
      (a_open (A\<lparr>a_content := m, a_open := (a_open A)(i \<mapsto> (p, q'))\<rparr>) i)"
    using n assms(4,5) by (simp add: slot_rel_def set_file_handle_def after_op_def)
qed (simp add: set_file_handle_def)

text \<open>The interface is mounted and its table is related to the abstract one.\<close>

definition mounted_rel ::
  "('w, 'f, 'n) fat_view \<Rightarrow> 'fs \<Rightarrow> ('u, 'info, 'fs, 'f, 'd) globals \<Rightarrow> 'w \<Rightarrow> 'n files \<Rightarrow> bool" where
  "mounted_rel V fs g w A \<longleftrightarrow> get_cell (fs_ptr g) = Inr fs
     \<and> (\<exists>st. get_cell (id_store_ptr g) = Inr st \<and> files_rel V st w A)"

lemma with_store_sim:
  assumes "mounted_rel V fs g w A"
    and "\<And>st. files_rel V st w A \<Longrightarrow> get_cell (fs_ptr g) = Inr fs \<Longrightarrow>
      \<exists>r st' w' A'. k st = (r, st', w') \<and> P r A' \<and> files_rel V st' w' A'"
  shows "\<exists>r g' w' A'. with_store g w k = (r, g', w') \<and> P r A' \<and> mounted_rel V fs g' w' A'"
proof -
  obtain st where st: "get_cell (id_store_ptr g) = Inr st" "files_rel V st w A" "get_cell (fs_ptr g) = Inr fs"
    using assms(1) by (auto simp: mounted_rel_def)
  obtain r st' w' A' where "k st = (r, st', w')" "P r A'" "files_rel V st' w' A'"
    using assms(2) [OF st(2,3)] by blast
  with st show ?thesis
    by (intro exI [of _ r] exI [of _ "g\<lparr>id_store_ptr := set_cell (Some st') (id_store_ptr g)\<rparr>"] exI [of _ w'] exI [of _ A'])
      (auto simp: with_store_def mounted_rel_def get_cell_def set_cell_def split: if_splits option.splits)
qed

lemma with_file_sim:
  assumes laws: "fat_laws C fs V" and rel: "files_rel V st w A"
    and "a_open A i = None \<Longrightarrow> P (NX_FATDRIVE_ERR_FILE_NOT_FOUND, None) A"
    and "\<And>f p b. at (v_canon V) A i p (v_pos V f) b \<Longrightarrow> a_open A i = Some (p, v_pos V f) \<Longrightarrow> v_valid V f w \<Longrightarrow>
      v_file V f = v_canon V p \<Longrightarrow> v_content V w (v_file V f) = Some b \<Longrightarrow>
      \<exists>r f' w' q' m. k f = (r, f', w') \<and> after_op V f w q' m f' w'
        \<and> P r (A\<lparr>a_content := m, a_open := (a_open A)(i \<mapsto> (p, q'))\<rparr>)"
  shows "\<exists>r st' w' A'. with_file i w k st = (r, st', w') \<and> P r A' \<and> files_rel V st' w' A'"
proof (cases "a_open A i")
  case None
  with slot_None [OF rel None] assms(3) rel show ?thesis
    by (auto simp: with_file_def get_file_handle_def u32_map_def intro: exI [of _ A])
next
  case (Some pq)
  obtain p q where pq: "a_open A i = Some (p, q)" using Some by (cases pq) auto
  obtain f where f: "hm_get i (file_handle_map st) = Some f" "v_file V f = v_canon V p" "v_pos V f = q" "v_valid V f w"
    using slot_Some [OF rel pq] by metis
  obtain b where b: "v_content V w (v_file V f) = Some b" using valid_content [OF laws f(4)] by blast
  have "at (v_canon V) A i p (v_pos V f) b"
    using pq b f(2,3) files_relD(3) [OF rel] handle_lawD(1) [OF laws f(4) b] by (simp add: at_def)
  then obtain r f' w' q' m where k: "k f = (r, f', w')" "after_op V f w q' m f' w'"
    "P r (A\<lparr>a_content := m, a_open := (a_open A)(i \<mapsto> (p, q'))\<rparr>)"
    using assms(4) pq f b by blast
  show ?thesis
    using f(1) k rel_after_op [OF rel pq f(1,2) k(2)] by (auto simp: with_file_def get_file_handle_def)
qed

text \<open>The result of a call, in the shape of \<open>file_do\<close>.\<close>

definition stepped :: "(rstr \<Rightarrow> 'n) \<Rightarrow> 'n files \<Rightarrow> file_call \<Rightarrow> ('o \<Rightarrow> file_out) \<Rightarrow> u32 \<times> 'o option \<Rightarrow> 'n files \<Rightarrow> bool" where
  "stepped canon A c out r A' \<longleftrightarrow> file_step canon A c (map_prod id (map_option out) r) A'"

lemma sim_by_id:
  assumes "fat_laws C fs V" "mounted_rel V fs g w A" "uses_id c = Some i"
    and "\<And>f p b. at (v_canon V) A i p (v_pos V f) b \<Longrightarrow> a_open A i = Some (p, v_pos V f) \<Longrightarrow> v_valid V f w \<Longrightarrow>
      v_file V f = v_canon V p \<Longrightarrow> v_content V w (v_file V f) = Some b \<Longrightarrow> a_content A = v_content V w \<Longrightarrow>
      \<exists>r f' w' q' m. k f = (r, f', w') \<and> after_op V f w q' m f' w'
        \<and> stepped (v_canon V) A c out r (A\<lparr>a_content := m, a_open := (a_open A)(i \<mapsto> (p, q'))\<rparr>)"
  shows "\<exists>r g' w' A'. with_store g w (with_file i w k) = (r, g', w')
    \<and> stepped (v_canon V) A c out r A' \<and> mounted_rel V fs g' w' A'"
  using assms(2)
proof (rule with_store_sim)
  fix st assume rel: "files_rel V st w A"
  show "\<exists>r st' w' A'. with_file i w k st = (r, st', w') \<and> stepped (v_canon V) A c out r A' \<and> files_rel V st' w' A'"
    using assms(1) rel
  proof (rule with_file_sim)
    show "stepped (v_canon V) A c out (NX_FATDRIVE_ERR_FILE_NOT_FOUND, None) A" if "a_open A i = None"
      using bad_id [OF assms(3) that, of "v_canon V"] by (simp add: stepped_def)
  qed (use assms(4) files_relD(3) [OF rel] in blast)
qed

lemma open_unchanged: "at canon A i p q b \<Longrightarrow> A\<lparr>a_content := a_content A, a_open := (a_open A)(i \<mapsto> (p, q))\<rparr> = A"
  by (simp add: at_def fun_upd_idem)

lemma open_moved: "at canon A i p q b \<Longrightarrow> A\<lparr>a_content := a_content A, a_open := (a_open A)(i \<mapsto> (p, q'))\<rparr> = moved i q' A"
  by (simp add: at_def moved_def)

lemma open_stored: "at canon A i p q b \<Longrightarrow>
    A\<lparr>a_content := (a_content A)(n := x), a_open := (a_open A)(i \<mapsto> (p, q'))\<rparr> = stored n x (moved i q' A)"
  by (simp add: at_def moved_def stored_def)

lemma stored_here: "at canon A i p q b \<Longrightarrow> stored n x (moved i q A) = stored n x A"
  by (simp add: at_def moved_def stored_def fun_upd_idem)

lemma sim_read:
  assumes "fat_laws C fs V" "mounted_rel V fs g w A"
  shows "\<exists>r g' w' A'. usbFsReadFile C i buf g w = (r, g', w')
    \<and> stepped (v_canon V) A (FRead i buf) (\<lambda>(n, out). Bytes n out) r A' \<and> mounted_rel V fs g' w' A'"
  unfolding usbFsReadFile_def using assms
proof (rule sim_by_id)
  fix f p b
  assume a: "at (v_canon V) A i p (v_pos V f) b" "v_valid V f w" "v_content V w (v_file V f) = Some b" "a_content A = v_content V w"
  from handle_lawD(2) [OF assms(1) a(2,3), of buf] obtain n f' w' where r:
    "fc_read C f buf w = (Inr n, take (unat n) (drop (v_pos V f) b) @ drop (unat n) buf, f', w')"
    "unat n \<le> min (length buf) (length b - v_pos V f)" "n = 0 \<longrightarrow> buf = [] \<or> v_pos V f = length b"
    "after_op V f w (v_pos V f + unat n) (a_content A) f' w'" using a(4) by auto
  show "\<exists>r f' w' q' m. (case fc_read C f buf w of (r, buf1, f1, w1) \<Rightarrow> (io_code_of (map_sum id (\<lambda>sz. (sz, buf1)) r), f1, w1)) = (r, f', w')
      \<and> after_op V f w q' m f' w'
      \<and> stepped (v_canon V) A (FRead i buf) (\<lambda>(n, out). Bytes n out) r (A\<lparr>a_content := m, a_open := (a_open A)(i \<mapsto> (p, q'))\<rparr>)"
    using r reading [OF a(1) r(2,3)] unfolding open_moved [OF a(1), symmetric] by (fastforce simp: stepped_def)
qed simp

lemma sim_write:
  assumes "fat_laws C fs V" "mounted_rel V fs g w A"
  shows "\<exists>r g' w' A'. usbFsWriteFile C i buf g w = (r, g', w')
    \<and> stepped (v_canon V) A (FWrite i buf) Count r A' \<and> mounted_rel V fs g' w' A'"
  unfolding usbFsWriteFile_def using assms
proof (rule sim_by_id)
  fix f p b
  assume a: "at (v_canon V) A i p (v_pos V f) b" "v_valid V f w" "v_content V w (v_file V f) = Some b" "a_content A = v_content V w"
    "v_file V f = v_canon V p"
  from handle_lawD(3) [OF assms(1) a(2,3), of buf]
  show "\<exists>r f' w' q' m. (case fc_write C f buf w of (r, f1, w1) \<Rightarrow> (io_code_of r, f1, w1)) = (r, f', w')
      \<and> after_op V f w q' m f' w'
      \<and> stepped (v_canon V) A (FWrite i buf) Count r (A\<lparr>a_content := m, a_open := (a_open A)(i \<mapsto> (p, q'))\<rparr>)"
  proof (elim disjE exE conjE)
    fix n f' w'
    assume r: "fc_write C f buf w = (Inr n, f', w')" "unat n \<le> length buf" "n = 0 \<longrightarrow> buf = []"
      "after_op V f w (v_pos V f + unat n) ((v_content V w)(v_file V f \<mapsto>
        take (v_pos V f) b @ take (unat n) buf @ drop (v_pos V f + unat n) b)) f' w'"
    show ?thesis
      using r writing [OF a(1) r(2,3)] unfolding open_stored [OF a(1), symmetric] a(4,5) by (fastforce simp: stepped_def)
  next
    fix e f' w'
    assume r: "fc_write C f buf w = (Inl e, f', w')" "after_op V f w (v_pos V f) (v_content V w) f' w'"
    show ?thesis
      using r write_fails [OF a(1), of buf e] open_unchanged [OF a(1)] unfolding a(4)
      by (fastforce simp: stepped_def)
  qed
qed simp

lemma io_code_kind: "io_kind e = k \<Longrightarrow> io_error_map e = io_error_map (io_error_from k)"
  by (simp add: io_error_map_def)

lemma sim_seek:
  assumes "fat_laws C fs V" "mounted_rel V fs g w A"
  shows "\<exists>r g' w' A'. usbFsSeekFile C i pos wh g w = (r, g', w')
    \<and> stepped (v_canon V) A (FSeek i pos wh) Count r A' \<and> mounted_rel V fs g' w' A'"
  unfolding usbFsSeekFile_def using assms
proof (rule sim_by_id)
  fix f p b
  assume a: "at (v_canon V) A i p (v_pos V f) b" "v_valid V f w" "v_content V w (v_file V f) = Some b" "a_content A = v_content V w"
  let ?k = "case seek_target pos wh of
      None \<Rightarrow> ((push_bit 8 NX_FATDRIVE_ERR_NOT_IMPLEMENTED + NX_FATDRIVE_ERR_MODULE, None), f, w)
    | Some sf \<Rightarrow> (case fc_seek C f sf w of (r, f1, w1) \<Rightarrow> (io_code_of r, f1, w1))"
  have same: "after_op V f w (v_pos V f) (v_content V w) f w" using a(2) by (simp add: after_op_def keeps_def)
  show "\<exists>r f' w' q' m. ?k = (r, f', w') \<and> after_op V f w q' m f' w'
      \<and> stepped (v_canon V) A (FSeek i pos wh) Count r (A\<lparr>a_content := m, a_open := (a_open A)(i \<mapsto> (p, q'))\<rparr>)"
  proof (cases "seek_target pos wh")
    case None
    with same seek_whence [OF a(1) None] open_unchanged [OF a(1)] show ?thesis
      unfolding a(4) by (fastforce simp: stepped_def)
  next
    case (Some sf)
    show ?thesis
    proof (cases "sint (seek_goal sf (v_pos V f) (length b)) < 0")
      case True
      from handle_lawD(4) [OF assms(1) a(2,3) True] obtain e f' w' where
        "fc_seek C f sf w = (Inl e, f', w')" "io_kind e = InvalidInput" "after_op V f w (v_pos V f) (v_content V w) f' w'"
        by blast
      with Some seek_before [OF a(1) Some True] open_unchanged [OF a(1)] io_code_kind [of e InvalidInput] show ?thesis
        unfolding a(4) by (fastforce simp: stepped_def)
    next
      case False
      then have pos: "0 \<le> sint (seek_goal sf (v_pos V f) (length b))" by simp
      from handle_lawD(5) [OF assms(1) a(2,3) pos refl] Some seeking [OF a(1) Some pos refl] show ?thesis
        unfolding open_moved [OF a(1), symmetric] a(4) by (fastforce simp: stepped_def)
    qed
  qed
qed simp

lemma sim_sync:
  assumes "fat_laws C fs V" "mounted_rel V fs g w A"
  shows "\<exists>r g' w' A'. usbFsSyncFile C i g w = (r, g', w')
    \<and> stepped (v_canon V) A (FSync i) (\<lambda>_. All_done) r A' \<and> mounted_rel V fs g' w' A'"
  unfolding usbFsSyncFile_def using assms
proof (rule sim_by_id)
  fix f p b
  assume a: "at (v_canon V) A i p (v_pos V f) b" "v_valid V f w" "v_content V w (v_file V f) = Some b" "a_content A = v_content V w"
  from handle_lawD(6) [OF assms(1) a(2,3)] syncing [OF a(1)] open_unchanged [OF a(1)]
  show "\<exists>r f' w' q' m. (case fc_flush C f w of (r, f1, w1) \<Rightarrow> (io_code_of r, f1, w1)) = (r, f', w')
      \<and> after_op V f w q' m f' w'
      \<and> stepped (v_canon V) A (FSync i) (\<lambda>_. All_done) r (A\<lparr>a_content := m, a_open := (a_open A)(i \<mapsto> (p, q'))\<rparr>)"
    unfolding a(4) by (fastforce simp: stepped_def)
qed simp

lemma sim_truncate:
  assumes "fat_laws C fs V" "mounted_rel V fs g w A"
  shows "\<exists>r g' w' A'. usbFsTruncateFile C i sz g w = (r, g', w')
    \<and> stepped (v_canon V) A (FTruncate i sz) (\<lambda>_. All_done) r A' \<and> mounted_rel V fs g' w' A'"
  unfolding usbFsTruncateFile_def using assms
proof (rule sim_by_id)
  fix f p b
  assume a: "at (v_canon V) A i p (v_pos V f) b" "v_valid V f w" "v_content V w (v_file V f) = Some b" "a_content A = v_content V w"
    "v_file V f = v_canon V p"
  note t = truncating [OF a(1), of sz, folded stored_here [OF a(1)], folded open_stored [OF a(1)]]
  from handle_lawD(7) [OF assms(1) a(2,3)] t
  show "\<exists>r f' w' q' m. (case fc_truncate C f w of (r, f1, w1) \<Rightarrow> (io_code_of r, f1, w1)) = (r, f', w')
      \<and> after_op V f w q' m f' w'
      \<and> stepped (v_canon V) A (FTruncate i sz) (\<lambda>_. All_done) r (A\<lparr>a_content := m, a_open := (a_open A)(i \<mapsto> (p, q'))\<rparr>)"
    unfolding a(4,5) by (fastforce simp: stepped_def)
qed simp

lemma keeps_trans: "keeps V n w w1 \<Longrightarrow> keeps V n w1 w2 \<Longrightarrow> keeps V n w w2"
  by (simp add: keeps_def)

lemma rel_close:
  assumes laws: "fat_laws C fs V" and rel: "files_rel V st w A" and i: "a_open A i = Some (p, q)"
  shows "\<exists>w'. store_close_file C i st w = (Inr (), remove_file i st, w')
    \<and> files_rel V (remove_file i st) w' (A\<lparr>a_open := (a_open A)(i := None)\<rparr>)"
proof -
  obtain f where f: "hm_get i (file_handle_map st) = Some f" "v_file V f = v_canon V p" "v_valid V f w"
    using slot_Some [OF rel i] by metis
  obtain b where b: "v_content V w (v_file V f) = Some b" using valid_content [OF laws f(3)] by blast
  obtain f1 w1 where fl: "fc_flush C f w = (Inr (), f1, w1)" "after_op V f w (v_pos V f) (v_content V w) f1 w1"
    using handle_lawD(6) [OF laws f(3) b] by blast
  then have f1: "v_file V f1 = v_canon V p" "v_valid V f1 w1" "v_content V w1 = v_content V w" "keeps V (v_canon V p) w w1"
    using f(2) by (auto simp: after_op_def)
  have b1: "v_content V w1 (v_file V f1) = Some b" using b f(2) f1(1,3) by simp
  let ?w = "fc_drop_file C f1 w1" and ?A = "A\<lparr>a_open := (a_open A)(i := None)\<rparr>"
  have d: "v_content V ?w = v_content V w" "keeps V (v_canon V p) w ?w"
    using handle_lawD(8,9) [OF laws f1(2) b1] f1 keeps_trans [of V "v_canon V p" w w1 ?w] by auto
  have "files_rel V (remove_file i st) ?w ?A"
  proof (rule files_rel_step [OF rel d(2), where k = i])
    show "store_inv (remove_file i st)" by (rule remove_file_inv [OF files_relD(1) [OF rel]])
    show "a_next ?A = next_id (remove_file i st)" "a_content ?A = v_content V ?w"
      using files_relD(3,4) [OF rel] d(1) by (simp_all add: remove_file_def)
    show "j = i" if "a_open A j = Some (p', r)" "v_canon V p' = v_canon V p \<or> j = i" for j p' r
      using other_file [OF rel i that(1)] that(2) by auto
  qed (simp_all add: remove_file_def slot_rel_def)
  with close_file_ok [OF f(1) fl(1)] show ?thesis by blast
qed

lemma sim_close:
  fixes C :: "('w, 'fs, 'f, 'd, 'it) fat_crate" and g :: "('u, 'info, 'fs, 'f, 'd) globals"
  assumes "fat_laws C fs V" "mounted_rel V fs g w A"
  shows "\<exists>r g' w' A'. usbFsCloseFile C i g w = (r, g', w')
    \<and> stepped (v_canon V) A (FClose i) (\<lambda>_. All_done) r A' \<and> mounted_rel V fs g' w' A'"
  unfolding usbFsCloseFile_def using assms(2)
proof (rule with_store_sim)
  fix st :: "('f, 'd) id_store"
  assume rel: "files_rel V st w A"
  show "\<exists>r st' w' A'. (case store_close_file C i st w of (r, st1, w1) \<Rightarrow> (code_of r, st1, w1)) = (r, st', w')
      \<and> stepped (v_canon V) A (FClose i) (\<lambda>_. All_done) r A' \<and> files_rel V st' w' A'"
  proof (cases "a_open A i")
    case None
    with slot_None [OF rel None] rel bad_id [of "FClose i" i A "v_canon V"] show ?thesis
      by (auto simp: store_close_file_def u32_map_def stepped_def intro: exI [of _ A])
  next
    case (Some pq)
    obtain p q where pq: "a_open A i = Some (p, q)" using Some by (cases pq) auto
    obtain f where f: "v_file V f = v_canon V p" "v_pos V f = q" "v_valid V f w"
      using slot_Some [OF rel pq] by metis
    obtain b where b: "v_content V w (v_file V f) = Some b" using valid_content [OF assms(1) f(3)] by blast
    have "at (v_canon V) A i p q b"
      using pq b f files_relD(3) [OF rel] handle_lawD(1) [OF assms(1) f(3) b] by (simp add: at_def)
    from closing [OF this] rel_close [OF assms(1) rel pq] show ?thesis by (fastforce simp: stepped_def)
  qed
qed

lemma sim_with_path:
  assumes "uses_id c = None" "call_path c = cstr_to_str mem" "mounted_rel V fs g w A"
    and "\<And>p. cstr_to_str mem = Some p \<Longrightarrow> \<exists>r g' w' A'. k p = (r, g', w') \<and> stepped (v_canon V) A c out r A'
      \<and> mounted_rel V fs g' w' A'"
  shows "\<exists>r g' w' A'. with_path mem k (g, w) = (r, g', w') \<and> stepped (v_canon V) A c out r A'
    \<and> mounted_rel V fs g' w' A'"
proof (cases "cstr_to_str mem")
  case None
  with assms(1-3) bad_path [of c "v_canon V" A] show ?thesis
    by (auto simp: with_path_def stepped_def intro: exI [of _ A])
next
  case (Some p)
  with assms(4) [OF Some] show ?thesis by (simp add: with_path_def)
qed

text \<open>What touches no open file keeps the relation, with the contents that result.\<close>

lemma rel_content:
  assumes "files_rel V st w A" "keeps V (v_canon V p) w w'" "not_open A p" "p \<in> v_paths V"
  shows "files_rel V st w' (A\<lparr>a_content := v_content V w'\<rparr>)"
proof -
  have c: "v_canon V p' \<noteq> v_canon V p" if i: "a_open A i = Some (p', q)" for i p' q
  proof -
    have "p' \<in> v_paths V" using slot_Some [OF assms(1) i] by metis
    moreover have "p' \<noteq> p" using i assms(3) by (auto simp: not_open_def)
    ultimately show ?thesis using assms(4) files_relD(2) [OF assms(1)] by (auto simp: inj_on_def)
  qed
  have "slot_rel V w' (hm_get i (file_name_map st)) (hm_get i (file_handle_map st)) (a_open A i)" for i
    by (rule slot_keep [OF files_relD(5) [OF assms(1)] assms(2)]) (rule c)
  with assms(1) show ?thesis by (simp add: files_rel_def)
qed

lemma rel_world:
  assumes "files_rel V st w A" "v_content V w' = v_content V w" "keeps V (v_canon V p) w w'"
    and "not_open A p" "p \<in> v_paths V"
  shows "files_rel V st w' A"
  using rel_content [OF assms(1,3-5)] files_relD(3) [OF assms(1)] assms(2) by (cases A) simp

lemma rel_open:
  assumes laws: "fat_laws C fs V" and rel: "files_rel V st w A" and room: "ids_left st"
    and new: "not_open A p" "p \<in> v_paths V" and f: "v_file V f = v_canon V p" "v_pos V f = 0" "v_valid V f w'"
    and w: "v_content V w' = v_content V w" "keeps V (v_canon V p) w w'" and add: "add_file p f st = (i, st')"
  shows "i = a_next A"
    and "files_rel V st' w' (A\<lparr>a_open := (a_open A)(a_next A \<mapsto> (p, 0)), a_next := a_next A + 1\<rparr>)"
proof -
  note n = files_relD(4) [OF rel]
  show i: "i = a_next A" using add n by (simp add: add_file_def)
  have free: "has_file st p = None" using has_file_not_open [OF rel] new(1) by simp
  let ?A = "A\<lparr>a_open := (a_open A)(a_next A \<mapsto> (p, 0)), a_next := a_next A + 1\<rparr>"
  show "files_rel V st' w' ?A"
  proof (rule files_rel_step [OF rel w(2), where k = i])
    show "store_inv st'" by (rule add_file_inv [OF files_relD(1) [OF rel] room free add])
    show "a_next ?A = next_id st'"
      using add n room by (auto simp: add_file_def id_after_def ids_left_def)
    show "a_content ?A = v_content V w'" using files_relD(3) [OF rel] w(1) by simp
    show "j = i" if "a_open A j = Some (p', r)" "v_canon V p' = v_canon V p \<or> j = i" for j p' r
    proof (rule ccontr)
      assume "j \<noteq> i"
      with that(2) have c: "v_canon V p' = v_canon V p" by simp
      have "p' \<in> v_paths V" using slot_Some [OF rel that(1)] by metis
      with c new(2) files_relD(2) [OF rel] have "p' = p" by (auto simp: inj_on_def)
      with that(1) new(1) show False by (auto simp: not_open_def)
    qed
  qed (use add n f new(2) in \<open>auto simp: add_file_def slot_rel_def\<close>)
qed

lemma open_in_store:
  fixes C :: "('w, 'fs, 'f, 'd, 'it) fat_crate"
  assumes laws: "fat_laws C fs V" and r: "files_rel V st w A" and fs: "get_cell fsc = Inr fs"
    and p: "cstr_to_str mem = Some p" and pV: "p \<in> v_paths V" and left: "ids_left st"
  shows "\<exists>r st' w' A'. (case store_open_file C (fsc) p st w of (r, st1, w1) \<Rightarrow> (code_of r, st1, w1)) = (r, st', w')
        \<and> stepped (v_canon V) A (FOpen mem m) File_id r A' \<and> files_rel V st' w' A'"
  (is ?goal)
proof (cases "has_file st p")
  case (Some i)
  then obtain q where "a_open A i = Some (p, q)" using has_file_open [OF r] by blast
  from open_known [OF p this, of "v_canon V" m] Some r show ?goal
    by (auto simp: store_open_file_def stepped_def intro: exI [of _ A])
next
  case None
  then have new: "not_open A p" using has_file_not_open [OF r] by blast
  show ?goal
  proof (cases "v_content V w (v_canon V p)")
    case empty: None
    then obtain e w' where o: "fc_open_file C (fc_root_dir C fs) p w = (Inl e, w')" "io_kind e = NotFound"
      "v_content V w' = v_content V w" "keeps V (v_canon V p) w w'"
      using open_lawD(2) [OF laws pV] by blast
    have "files_rel V st w' A" by (rule rel_world [OF r o(3,4) new pV])
    with open_missing [OF p new, of "v_canon V" m] empty o(1) None fs io_code_kind [OF o(2)] files_relD(3) [OF r]
    show ?goal by (auto simp: store_open_file_def stepped_def u32_map_def intro: exI [of _ A])
  next
    case (Some b)
    then obtain f w' where o: "fc_open_file C (fc_root_dir C fs) p w = (Inr f, w')" "v_file V f = v_canon V p"
      "v_pos V f = 0" "v_valid V f w'" "v_content V w' = v_content V w" "keeps V (v_canon V p) w w'"
      using open_lawD(1) [OF laws pV] by blast
    obtain i st' where add: "add_file p f st = (i, st')" by (cases "add_file p f st")
    note ro = rel_open [OF laws r left new pV o(2-6) add]
    have "stepped (v_canon V) A (FOpen mem m) File_id (SUCCESS, Some i)
        (A\<lparr>a_open := (a_open A)(a_next A \<mapsto> (p, 0)), a_next := a_next A + 1\<rparr>)"
      using open_new [OF p new, of "v_canon V" b m] Some files_relD(3) [OF r] ro(1) by (simp add: stepped_def)
    with ro(2) open_file_new [OF None fs o(1) files_relD(1) [OF r]] add show ?goal by auto
  qed
qed

lemma sim_open:
  fixes C :: "('w, 'fs, 'f, 'd, 'it) fat_crate" and g :: "('u, 'info, 'fs, 'f, 'd) globals"
  assumes laws: "fat_laws C fs V" and rel: "mounted_rel V fs g w A" and room: "a_next A \<noteq> - 1"
    and paths: "\<And>p. cstr_to_str mem = Some p \<Longrightarrow> p \<in> v_paths V"
  shows "\<exists>r g' w' A'. usbFsOpenFile C mem m g w = (r, g', w')
    \<and> stepped (v_canon V) A (FOpen mem m) File_id r A' \<and> mounted_rel V fs g' w' A'"
  unfolding usbFsOpenFile_def
proof (rule sim_with_path [OF _ _ rel], goal_cases)
  case (3 p)
  from rel show ?case
  proof (rule with_store_sim)
    fix st :: "('f, 'd) id_store"
    assume r: "files_rel V st w A" and fs: "get_cell (fs_ptr g) = Inr fs"
    have "ids_left st" using room files_relD(4) [OF r] by (simp add: ids_left_def)
    from open_in_store [OF laws r fs 3 paths [OF 3] this] show "\<exists>r st' w' A'.
        (case store_open_file C (fs_ptr g) p st w of (r, st1, w1) \<Rightarrow> (code_of r, st1, w1)) = (r, st', w')
        \<and> stepped (v_canon V) A (FOpen mem m) File_id r A' \<and> files_rel V st' w' A'" .
  qed
qed simp_all

text \<open>The content of an open file is there.\<close>

lemma open_content:
  assumes "fat_laws C fs V" "files_rel V st w A" "a_open A i = Some (p, q)"
  shows "\<exists>b. a_content A (v_canon V p) = Some b"
proof -
  obtain f where "v_file V f = v_canon V p" "v_valid V f w" using slot_Some [OF assms(2,3)] by metis
  with valid_content [OF assms(1), of f w] files_relD(3) [OF assms(2)] show ?thesis by auto
qed

text \<open>The handle of a new file is dropped at once.\<close>

lemma rel_created:
  assumes "fat_laws C fs V" "files_rel V st w A" "not_open A p" "p \<in> v_paths V"
    and "v_file V f = v_canon V p" "v_valid V f w1" "keeps V (v_canon V p) w w1"
  shows "files_rel V st (fc_drop_file C f w1) (A\<lparr>a_content := v_content V w1\<rparr>)"
proof -
  obtain b where b: "v_content V w1 (v_file V f) = Some b" using valid_content [OF assms(1,6)] by blast
  have "keeps V (v_canon V p) w (fc_drop_file C f w1)"
    using keeps_trans [OF assms(7)] handle_lawD(9) [OF assms(1,6) b] assms(5) by simp
  from rel_content [OF assms(2) this assms(3,4)] handle_lawD(8) [OF assms(1,6) b] show ?thesis by simp
qed

lemma create_in_store:
  fixes C :: "('w, 'fs, 'f, 'd, 'it) fat_crate"
  assumes laws: "fat_laws C fs V" and r: "files_rel V st w A" and fs: "get_cell fsc = Inr fs"
    and p: "cstr_to_str mem = Some p" and pV: "p \<in> v_paths V"
  shows "\<exists>r st' w' A'. (case has_file st p of
      Some old_id \<Rightarrow> ((SUCCESS, Some ()), st, w)
    | None \<Rightarrow> in_root C fsc (\<lambda>root.
        case fc_create_file C root p w of
          (Inl e, w1) \<Rightarrow> (Inl e, w1)
        | (Inr f, w1) \<Rightarrow> (Inr (), fc_drop_file C f w1)) st w) = (r, st', w')
        \<and> stepped (v_canon V) A (FCreate mem) (\<lambda>_. All_done) r A' \<and> files_rel V st' w' A'"
  (is ?goal)
proof -
  note content = files_relD(3) [OF r]
  show ?goal
  proof (cases "has_file st p")
    case (Some i)
    then obtain q where "a_open A i = Some (p, q)" using has_file_open [OF r] by blast
    from open_content [OF laws r this] obtain b where "a_content A (v_canon V p) = Some b" by blast
    from create_there [of mem p A "v_canon V", OF p this] Some r show ?goal by (auto simp: stepped_def intro: exI [of _ A])
  next
    case None
    then have new: "not_open A p" using has_file_not_open [OF r] by blast
    have made: ?goal if "fc_create_file C (fc_root_dir C fs) p w = (Inr f, w1)" "v_file V f = v_canon V p" "v_valid V f w1"
      "keeps V (v_canon V p) w w1"
      "stepped (v_canon V) A (FCreate mem) (\<lambda>_. All_done) (SUCCESS, Some ()) (A\<lparr>a_content := v_content V w1\<rparr>)" for f w1
      using rel_created [OF laws r new pV that(2-4)] that(1,5) None fs by (auto simp: in_root_def)
    show ?goal
    proof (cases "v_content V w (v_canon V p)")
      case (Some b)
      obtain f w1 where c: "fc_create_file C (fc_root_dir C fs) p w = (Inr f, w1)" "v_file V f = v_canon V p"
        "v_valid V f w1" "keeps V (v_canon V p) w w1" "v_content V w1 = v_content V w"
        using create_lawD(1) [OF laws pV Some] by blast
      have "A\<lparr>a_content := v_content V w1\<rparr> = A" using c(5) content by (cases A) simp
      then show ?goal using create_there [of mem p A "v_canon V" b, OF p] Some content
        by (intro made [OF c(1-4)]) (simp add: stepped_def)
    next
      case empty: None
      from create_lawD(2) [OF laws pV empty] show ?goal
      proof (elim disjE exE conjE)
        fix f w1 assume c: "fc_create_file C (fc_root_dir C fs) p w = (Inr f, w1)" "v_file V f = v_canon V p"
          "v_valid V f w1" "keeps V (v_canon V p) w w1" "v_content V w1 = (v_content V w)(v_canon V p \<mapsto> [])"
        with create_new [of mem p A "v_canon V", OF p] empty content show ?goal
          by (intro made [OF c(1-4)]) (simp add: stepped_def stored_def)
      next
        fix e w1 assume c: "fc_create_file C (fc_root_dir C fs) p w = (Inl e, w1)" "v_content V w1 = v_content V w"
          "keeps V (v_canon V p) w w1"
        with create_fails [of mem p A "v_canon V" e, OF p] empty content None fs rel_world [OF r c(2,3) new pV]
        show ?goal by (auto simp: stepped_def in_root_def intro: exI [of _ A])
      qed
    qed
  qed
qed

lemma sim_create:
  fixes C :: "('w, 'fs, 'f, 'd, 'it) fat_crate" and g :: "('u, 'info, 'fs, 'f, 'd) globals"
  assumes laws: "fat_laws C fs V" and rel: "mounted_rel V fs g w A"
    and paths: "\<And>p. cstr_to_str mem = Some p \<Longrightarrow> p \<in> v_paths V"
  shows "\<exists>r g' w' A'. usbFsCreateFile C mem g w = (r, g', w')
    \<and> stepped (v_canon V) A (FCreate mem) (\<lambda>_. All_done) r A' \<and> mounted_rel V fs g' w' A'"
  unfolding usbFsCreateFile_def
proof (rule sim_with_path [OF _ _ rel], goal_cases)
  case (3 p)
  from rel show ?case
    by (rule with_store_sim) (rule create_in_store [OF laws _ _ 3 paths [OF 3]])
qed simp_all

text \<open>The open files without those of a path.\<close>

lemma path_closed:
  assumes "files_rel V st w A" "a_open A i = Some (p, q)"
  shows "(\<lambda>j. case a_open A j of Some (p', r) \<Rightarrow> if p' = p then None else Some (p', r) | None \<Rightarrow> None)
    = (a_open A)(i := None)"
proof (rule ext)
  fix j
  show "(case a_open A j of Some (p', r) \<Rightarrow> if p' = p then None else Some (p', r) | None \<Rightarrow> None) = ((a_open A)(i := None)) j"
    using assms(2) other_file [OF assms, of j] by (cases "j = i") (auto split: option.split)
qed

lemma path_not_open:
  "not_open A p \<Longrightarrow> (\<lambda>j. case a_open A j of Some (p', r) \<Rightarrow> if p' = p then None else Some (p', r) | None \<Rightarrow> None) = a_open A"
  by (auto simp: not_open_def fun_eq_iff split: option.split)

lemma sim_remove:
  assumes laws: "fat_laws C fs V" and rel: "files_rel V st w A" and new: "not_open A p" "p \<in> v_paths V"
    and fs: "get_cell fsc = Inr fs"
  shows "a_content A (v_canon V p) = Some b \<Longrightarrow> \<exists>w'. in_root C fsc (\<lambda>root. fc_remove C root p w) st w
      = ((SUCCESS, Some ()), st, w') \<and> files_rel V st w' (stored (v_canon V p) None A)"
    and "a_content A (v_canon V p) = None \<Longrightarrow> \<exists>w'. in_root C fsc (\<lambda>root. fc_remove C root p w) st w
      = ((io_error_map (io_error_from NotFound), None), st, w') \<and> files_rel V st w' A"
proof -
  note content = files_relD(3) [OF rel]
  show "\<exists>w'. in_root C fsc (\<lambda>root. fc_remove C root p w) st w = ((SUCCESS, Some ()), st, w')
      \<and> files_rel V st w' (stored (v_canon V p) None A)" if here: "a_content A (v_canon V p) = Some b"
  proof -
    obtain w' where w: "fc_remove C (fc_root_dir C fs) p w = (Inr (), w')"
      "v_content V w' = (v_content V w)(v_canon V p := None)" "keeps V (v_canon V p) w w'"
      using remove_lawD(1) [OF laws new(2), of w b] here content by auto
    have "files_rel V st w' (stored (v_canon V p) None A)"
      using rel_content [OF rel w(3) new] w(2) content by (simp add: stored_def)
    with w(1) fs show ?thesis by (simp add: in_root_def)
  qed
  show "\<exists>w'. in_root C fsc (\<lambda>root. fc_remove C root p w) st w = ((io_error_map (io_error_from NotFound), None), st, w')
      \<and> files_rel V st w' A" if here: "a_content A (v_canon V p) = None"
  proof -
    obtain e w' where w: "fc_remove C (fc_root_dir C fs) p w = (Inl e, w')" "io_kind e = NotFound"
      "v_content V w' = v_content V w" "keeps V (v_canon V p) w w'"
      using remove_lawD(2) [OF laws new(2), of w] here content by auto
    from rel_world [OF rel w(3,4) new] w(1) fs io_code_kind [OF w(2)] show ?thesis by (simp add: in_root_def)
  qed
qed

lemma delete_in_store:
  fixes C :: "('w, 'fs, 'f, 'd, 'it) fat_crate"
  assumes laws: "fat_laws C fs V" and r: "files_rel V st w A" and fs: "get_cell fsc = Inr fs"
    and p: "cstr_to_str mem = Some p" and pV: "p \<in> v_paths V"
  shows "\<exists>r st' w' A'. (case has_file st p of
      None \<Rightarrow> in_root C fsc (\<lambda>root. fc_remove C root p w) st w
    | Some old_id \<Rightarrow> (case store_close_file C old_id st w of
          (Inl e, st1, w1) \<Rightarrow> ((u32_map e, None), st1, w1)
        | (Inr _, st1, w1) \<Rightarrow> in_root C fsc (\<lambda>root. fc_remove C root p w1) st1 w1)) = (r, st', w')
        \<and> stepped (v_canon V) A (FDelete mem) (\<lambda>_. All_done) r A' \<and> files_rel V st' w' A'"
  (is ?goal)
proof (cases "has_file st p")
  case None
  then have new: "not_open A p" using has_file_not_open [OF r] by blast
  show ?goal
  proof (cases "a_content A (v_canon V p)")
    case empty: None
    from sim_remove(2) [OF laws r new pV fs empty] delete_missing [of mem p A "v_canon V", OF p empty] None
    show ?goal by (auto simp: stepped_def)
  next
    case (Some b)
    from deleting [of mem p A "v_canon V", OF p Some] have "stepped (v_canon V) A (FDelete mem) (\<lambda>_. All_done)
        (SUCCESS, Some ()) (stored (v_canon V p) None A)"
      by (simp add: stepped_def path_not_open [OF new])
    with sim_remove(1) [OF laws r new pV fs Some] None show ?goal by auto
  qed
next
  case (Some i)
  then obtain q where i: "a_open A i = Some (p, q)" using has_file_open [OF r] by blast
  obtain b where b: "a_content A (v_canon V p) = Some b" using open_content [OF laws r i] by blast
  let ?A = "A\<lparr>a_open := (a_open A)(i := None)\<rparr>"
  obtain w1 where c: "store_close_file C i st w = (Inr (), remove_file i st, w1)"
    "files_rel V (remove_file i st) w1 ?A" using rel_close [OF laws r i] by blast
  have new: "not_open ?A p" using other_file [OF r i] by (auto simp: not_open_def)
  have "stepped (v_canon V) A (FDelete mem) (\<lambda>_. All_done) (SUCCESS, Some ()) (stored (v_canon V p) None ?A)"
    using deleting [of mem p A "v_canon V", OF p b] by (simp add: stepped_def path_closed [OF r i])
  moreover have "a_content ?A (v_canon V p) = Some b" using b by simp
  ultimately show ?goal using sim_remove(1) [OF laws c(2) new pV fs] Some c(1) by auto
qed

lemma sim_delete:
  fixes C :: "('w, 'fs, 'f, 'd, 'it) fat_crate" and g :: "('u, 'info, 'fs, 'f, 'd) globals"
  assumes laws: "fat_laws C fs V" and rel: "mounted_rel V fs g w A"
    and paths: "\<And>p. cstr_to_str mem = Some p \<Longrightarrow> p \<in> v_paths V"
  shows "\<exists>r g' w' A'. usbFsDeleteFile C mem g w = (r, g', w')
    \<and> stepped (v_canon V) A (FDelete mem) (\<lambda>_. All_done) r A' \<and> mounted_rel V fs g' w' A'"
  unfolding usbFsDeleteFile_def Let_def
proof (rule sim_with_path [OF _ _ rel], goal_cases)
  case (3 p)
  from rel show ?case
    by (rule with_store_sim) (rule delete_in_store [OF laws _ _ 3 paths [OF 3]])
qed simp_all

section \<open>Refinement\<close>

lemma do_stepped:
  assumes "\<exists>r g' w' A'. call = (r, g', w') \<and> stepped canon A c out r A' \<and> mounted_rel V fs g' w' A'"
  shows "\<exists>r g' w' A'. apfst (map_prod id (map_option out)) call = (r, g', w') \<and> file_step canon A c r A'
    \<and> mounted_rel V fs g' w' A'"
  using assms by (auto simp: stepped_def)

lemma file_do_sim:
  assumes "fat_laws C fs V" "mounted_rel V fs g w A" "a_next A \<noteq> - 1"
    and "\<And>p. call_path c = Some p \<Longrightarrow> p \<in> v_paths V"
  shows "\<exists>r g' w' A'. file_do C c g w = (r, g', w') \<and> file_step (v_canon V) A c r A' \<and> mounted_rel V fs g' w' A'"
proof (cases c)
  case (FOpen m n)
  then show ?thesis using do_stepped [OF sim_open [OF assms(1-3)]] assms(4) by simp
next
  case (FClose i)
  then show ?thesis using do_stepped [OF sim_close [OF assms(1,2)]] by simp
next
  case (FRead i b)
  then show ?thesis using do_stepped [OF sim_read [OF assms(1,2)]] by simp
next
  case (FWrite i b)
  then show ?thesis using do_stepped [OF sim_write [OF assms(1,2)]] by simp
next
  case (FSeek i p wh)
  then show ?thesis using do_stepped [OF sim_seek [OF assms(1,2)]] by simp
next
  case (FSync i)
  then show ?thesis using do_stepped [OF sim_sync [OF assms(1,2)]] by simp
next
  case (FTruncate i n)
  then show ?thesis using do_stepped [OF sim_truncate [OF assms(1,2)]] by simp
next
  case (FCreate m)
  then show ?thesis using do_stepped [OF sim_create [OF assms(1,2)]] assms(4) by simp
next
  case (FDelete m)
  then show ?thesis using do_stepped [OF sim_delete [OF assms(1,2)]] assms(4) by simp
qed

lemma file_step_next: "file_step canon A c r A' \<Longrightarrow> a_next A' = a_next A \<or> a_next A' = a_next A + 1"
  by (induction rule: file_step.induct) (auto simp: moved_def stored_def)

lemma file_run_sim:
  assumes "fat_laws C fs V" "mounted_rel V fs g w A" "unat (a_next A) + length xs < 2 ^ 64"
    and "\<forall>x \<in> set xs. set_option (call_path x) \<subseteq> v_paths V"
    and "file_run C xs g w = (rs, g', w')"
  shows "\<exists>A'. file_steps (v_canon V) A xs rs A' \<and> mounted_rel V fs g' w' A'"
  using assms(2-)
proof (induction xs arbitrary: g w A rs)
  case Nil
  then show ?case by (auto intro: steps_Nil)
next
  case (Cons x xs)
  have room: "a_next A \<noteq> - 1" using unat_plus_small [of "a_next A" 1] Cons.prems(2) by auto
  have paths: "call_path x = Some p \<Longrightarrow> p \<in> v_paths V" for p using Cons.prems(3) by (auto dest: bspec [of _ _ x])
  obtain r g1 w1 A1 where d: "file_do C x g w = (r, g1, w1)" "file_step (v_canon V) A x r A1" "mounted_rel V fs g1 w1 A1"
    using file_do_sim [OF assms(1) Cons.prems(1) room paths] by blast
  have left: "unat (a_next A1) + length xs < 2 ^ 64"
    using next_room [OF _ file_step_next [OF d(2)], of "length xs"] Cons.prems(2) by simp
  obtain rs2 where run: "file_run C xs g1 w1 = (rs2, g', w')" "rs = r # rs2"
    using Cons.prems(4) d(1) by (auto split: prod.splits)
  from Cons.IH [OF d(3) left _ run(1)] Cons.prems(3) obtain A' where
    "file_steps (v_canon V) A1 xs rs2 A'" "mounted_rel V fs g' w' A'" by auto
  with d(2) run(2) show ?case by (auto intro: steps_Cons)
qed

text \<open>
  C3: The file calls of the C interface implement the abstract file system: over a crate that keeps
  \<open>fat_laws\<close>, every sequence of fewer than \<open>2 ^ 64\<close> calls after a mount (opens, closes, reads, writes,
  seeks, flushes, truncations, creations and deletions, with any ids and any strings, on paths that
  are not two spellings of one file) answers as the abstract file system of named byte arrays does,
  errors included, and leaves on the drive the contents the abstract one has. (The abstract calls
  read the offset of a seek as \<open>seek_target\<close> does, and cut a file at its position.)
\<close>

theorem usbfs_refines_files:
  assumes "fat_laws C fs V" "get_cell (fs_ptr g) = Inr fs" "get_cell (id_store_ptr g) = Inr store_new"
    and "inj_on (v_canon V) (v_paths V)" "length xs < 2 ^ 64"
    and "\<forall>x \<in> set xs. set_option (call_path x) \<subseteq> v_paths V"
    and "file_run C xs g w = (rs, g', w')"
  shows "\<exists>A'. file_steps (v_canon V) \<lparr>a_content = v_content V w, a_open = Map.empty, a_next = 0\<rparr> xs rs A'
    \<and> a_content A' = v_content V w'"
proof -
  let ?A = "\<lparr>a_content = v_content V w, a_open = Map.empty, a_next = 0\<rparr>"
  have "mounted_rel V fs g w ?A"
    using assms(2-4) store_inv_new
    by (auto simp: mounted_rel_def files_rel_def slot_rel_def store_new_def hm_get_def)
  from file_run_sim [OF assms(1) this _ assms(6,7)] assms(5) show ?thesis
    by (fastforce simp: mounted_rel_def files_rel_def)
qed

section \<open>An instance\<close>

text \<open>A crate whose drive is the map of its files; a handle is a path and a position.\<close>

definition mem_count :: "nat \<Rightarrow> usize" where
  "mem_count n = of_nat (min n 1024)"

definition mem_crate :: "(rstr \<rightharpoonup> bytes, unit, rstr \<times> nat, unit, unit) fat_crate" where
  "mem_crate = \<lparr>
     fc_root_dir = id,
     fc_open_file = (\<lambda>_ p w. (if w p = None then Inl (io_error_from NotFound) else Inr (p, 0), w)),
     fc_open_dir = (\<lambda>_ p w. (Inr (), w)),
     fc_create_file = (\<lambda>_ p w. (Inr (p, 0), if w p = None then w(p \<mapsto> []) else w)),
     fc_create_dir = (\<lambda>_ p w. (Inr (), w)),
     fc_remove = (\<lambda>_ p w. (if w p = None then Inl (io_error_from NotFound) else Inr (), w(p := None))),
     fc_stats = (\<lambda>_ w. (Inr (512, 10, 4), w)),
     fc_read = (\<lambda>(p, q) buf w. let b = the (w p); n = mem_count (min (length buf) (length b - q)) in
       (Inr n, take (unat n) (drop q b) @ drop (unat n) buf, (p, q + unat n), w)),
     fc_write = (\<lambda>(p, q) buf w. let b = the (w p); n = mem_count (length buf) in
       (Inr n, (p, q + unat n), w(p \<mapsto> take q b @ take (unat n) buf @ drop (q + unat n) b))),
     fc_seek = (\<lambda>(p, q) sf w. let b = the (w p); x = sint (seek_goal sf q (length b)) in
       if x < 0 then (Inl (io_error_from InvalidInput), (p, q), w)
       else (Inr (of_nat (min (nat x) (length b))), (p, min (nat x) (length b)), w)),
     fc_flush = (\<lambda>f w. (Inr (), f, w)),
     fc_truncate = (\<lambda>(p, q) w. (Inr (), (p, q), w(p \<mapsto> take q (the (w p))))),
     fc_drop_file = (\<lambda>f w. w), fc_drop_dir = (\<lambda>d w. w), fc_drop_fs = (\<lambda>f w. w),
     fc_iter = id, fc_next = (\<lambda>it w. (None, it, w))\<rparr>"

definition mem_view :: "(rstr \<rightharpoonup> bytes, rstr \<times> nat, rstr) fat_view" where
  "mem_view = \<lparr>v_content = id, v_canon = id, v_file = fst, v_pos = snd,
     v_valid = (\<lambda>f w. \<exists>b. w (fst f) = Some b \<and> snd f \<le> length b), v_paths = UNIV\<rparr>"

lemma mem_count_le: "unat (mem_count n) \<le> n" "mem_count n = 0 \<longleftrightarrow> n = 0"
proof -
  have u: "unat (mem_count n) = min n 1024" by (simp add: mem_count_def unat_of_nat)
  then show "unat (mem_count n) \<le> n" by simp
  have "unat (mem_count n) = 0 \<longleftrightarrow> n = 0" using u by (simp add: min_def)
  then show "mem_count n = 0 \<longleftrightarrow> n = 0" by (simp add: unat_eq_0)
qed

lemmas mem_defs = mem_crate_def mem_view_def Let_def

lemma mem_open_law: "open_law mem_crate () mem_view"
  by (auto simp: open_law_def keeps_def mem_defs split: option.split)

lemma mem_entry_law: "entry_law mem_crate () mem_view"
  by (auto simp: entry_law_def keeps_def mem_defs split: option.split)

lemma mem_handle_law: "handle_law mem_crate mem_view"
proof -
  have read: "\<exists>n f' w'. fc_read mem_crate (p, q) buf w = (Inr n, take (unat n) (drop q b) @ drop (unat n) buf, f', w')
      \<and> unat n \<le> min (length buf) (length b - q) \<and> (n = 0 \<longrightarrow> buf = [] \<or> q = length b)
      \<and> after_op mem_view (p, q) w (q + unat n) w f' w'" if "w p = Some b" "q \<le> length b" for p q buf w b
    using that mem_count_le [of "min (length buf) (length b - q)"]
    by (auto simp: mem_defs after_op_def keeps_def min_def split: if_splits)
  have wr: "\<exists>n f' w'. fc_write mem_crate (p, q) buf w = (Inr n, f', w') \<and> unat n \<le> length buf \<and> (n = 0 \<longrightarrow> buf = [])
      \<and> after_op mem_view (p, q) w (q + unat n) (w(p \<mapsto> take q b @ take (unat n) buf @ drop (q + unat n) b)) f' w'"
    if "w p = Some b" "q \<le> length b" for p q buf w b
    using that mem_count_le [of "length buf"] by (auto simp: mem_defs after_op_def keeps_def)
  have neg: "\<exists>e f' w'. fc_seek mem_crate (p, q) sf w = (Inl e, f', w') \<and> io_kind e = InvalidInput
      \<and> after_op mem_view (p, q) w q w f' w'"
    if "w p = Some b" "q \<le> length b" "sint (seek_goal sf q (length b)) < 0" for p q sf w b
    using that by (simp add: mem_defs after_op_def keeps_def)
  have pos: "\<exists>f' w'. fc_seek mem_crate (p, q) sf w = (Inr (of_nat q'), f', w') \<and> after_op mem_view (p, q) w q' w f' w'"
    if "w p = Some b" "q \<le> length b" "0 \<le> sint (seek_goal sf q (length b))"
      "q' = min (nat (sint (seek_goal sf q (length b)))) (length b)" for p q sf w b q'
    using that by (simp add: mem_defs after_op_def keeps_def)
  show ?thesis
    unfolding handle_law_def
  proof (intro allI impI, elim conjE, goal_cases)
    case (1 f w b)
    obtain p q where f: "f = (p, q)" by (cases f)
    have b: "w p = Some b" "q \<le> length b" using 1 f by (auto simp: mem_view_def)
    have v: "v_pos mem_view (p, q) = q" "v_file mem_view (p, q) = p" "v_content mem_view = id"
      by (simp_all add: mem_view_def)
    show ?case
      unfolding f v id_apply
      using b read [where p = p and w = w, OF b] wr [where p = p and w = w, OF b] neg [where p = p and w = w, OF b] pos [where p = p and w = w, OF b]
      by (intro conjI allI impI disjI1; (elim conjE)?; (assumption | simp)?)
        (simp_all add: mem_defs after_op_def keeps_def)
  qed
qed

lemma mem_laws: "fat_laws mem_crate () mem_view"
  using mem_open_law mem_handle_law mem_entry_law by (auto simp: fat_laws_def mem_view_def)

text \<open>Mounted over an empty drive: a file is created, written, closed, opened again and read.\<close>

definition mem_globals :: "(unit, unit, unit, rstr \<times> nat, unit) globals" where
  "mem_globals = globals_init\<lparr>fs_ptr := set_cell (Some ()) null_cell, id_store_ptr := set_cell (Some store_new) null_cell\<rparr>"

definition mem_calls :: "file_call list" where
  "mem_calls = [FCreate [0x61, 0], FOpen [0x61, 0] 0, FWrite 0 [1, 2, 3], FClose 0, FOpen [0x61, 0] 0, FRead 1 [9, 9, 9, 9]]"

lemma mem_globals_cells: "get_cell (fs_ptr mem_globals) = Inr ()" "get_cell (id_store_ptr mem_globals) = Inr store_new"
  by (simp_all add: mem_globals_def get_cell_def set_cell_def null_cell_def)

lemma mem_run:
  "fst (file_run mem_crate mem_calls mem_globals Map.empty) =
    [(0, Some All_done), (0, Some (File_id 0)), (0, Some (Count 3)), (0, Some All_done), (0, Some (File_id 1)),
     (0, Some (Bytes 3 [1, 2, 3, 9]))]"
  "snd (snd (file_run mem_crate mem_calls mem_globals Map.empty)) [0x61] = Some [1, 2, 3]"
  by code_simp+

theorem usbfs_refines_files_witness:
  "\<exists>rs A'. fst (file_run mem_crate mem_calls mem_globals Map.empty) = rs
    \<and> file_steps id \<lparr>a_content = Map.empty, a_open = Map.empty, a_next = 0\<rparr> mem_calls rs A'
    \<and> rs ! 5 = (0, Some (Bytes 3 [1, 2, 3, 9])) \<and> a_content A' [0x61] = Some [1, 2, 3]"
proof -
  obtain rs g' w' where run: "file_run mem_crate mem_calls mem_globals Map.empty = (rs, g', w')" by (rule prod_cases3)
  have "inj_on (v_canon mem_view) (v_paths mem_view)" "length mem_calls < 2 ^ 64"
    "\<forall>x \<in> set mem_calls. set_option (call_path x) \<subseteq> v_paths mem_view"
    by (simp_all add: mem_view_def mem_calls_def)
  from usbfs_refines_files [OF mem_laws mem_globals_cells this run] run mem_run show ?thesis
    by (auto simp: mem_view_def)
qed

end
