(* ===== verification/UsbThms.thy ===== *)
theory UsbThms
  imports UsbComm
begin

text \<open>
  The properties of the transfer layer on the code's own buffer type: the alignment
  arithmetic of \<open>AlignedBuffer\<close>, the endpoint selection, and the two transfers of
  \<open>CommunicationChannel\<close> on a \<open>VecNewtype\<close>.
\<close>

section \<open>Aligned buffers\<close>

text \<open>
  \<open>aligned_size_raw\<close> rounds a size up to the least multiple of the alignment, as long as the
  sum does not overflow \<open>usize\<close>; it panics exactly for the alignment 0.
\<close>

theorem aligned_size_least_multiple:
  assumes "unat sz + unat al < 2 ^ 64"
  shows "case aligned_size_raw sz al of
      Panic \<Rightarrow> al = 0
    | Ret r \<Rightarrow> al \<noteq> 0 \<and> unat al dvd unat r \<and> unat sz \<le> unat r
        \<and> (\<forall>m. unat al dvd m \<and> unat sz \<le> m \<longrightarrow> unat r \<le> m)"
proof (cases "aligned_size_raw sz al")
  case (Ret r)
  then have al: "al \<noteq> 0" by (auto simp: aligned_size_raw_def)
  note r = aligned_size_raw_nat [OF al assms Ret]
  have pos: "0 < unat al" using al by (simp add: unat_gt_0)
  note rp = round_up_props [OF pos, of "unat sz", folded r]
  have "unat r \<le> m" if "unat al dvd m" "unat sz \<le> m" for m
  proof (rule ccontr)
    assume "\<not> unat r \<le> m"
    then have "m + unat al \<le> unat r"
      using rp(1) that(1) by (metis dvd_diff_nat dvd_imp_le le_diff_conv2 nat_le_linear
          not_less zero_less_diff add.commute)
    with rp(3) that(2) show False by simp
  qed
  with Ret al rp show ?thesis by simp
qed (auto simp: aligned_size_raw_def Let_def split: if_splits)

theorem aligned_size_least_multiple_witness:
  "case aligned_size_raw 5 8 of
      Panic \<Rightarrow> False
    | Ret r \<Rightarrow> 8 dvd unat r \<and> unat r = 8"
  using aligned_size_least_multiple [of 5 8] by (simp add: aligned_size_raw_def)

text \<open>
  For a buffer built by \<open>from_layout\<close>, \<open>as_slice\<close> is its whole allocation, and
  \<open>as_aligned_slice\<close> stays inside the allocation exactly when the size of the layout is already a
  multiple of its alignment; otherwise it reads past the end, since the allocation has the
  size of the layout that was asked for and not the rounded one.
\<close>

theorem aligned_slice_in_bounds_iff:
  assumes "from_layout ok e lay = Ok b" "unat (l_size lay) + unat (l_align lay) < 2 ^ 64"
  shows "as_slice b = Some (raw_mem b)
    \<and> (as_aligned_slice b = Ret None \<longleftrightarrow> \<not> unat (l_align lay) dvd unat (l_size lay))"
proof -
  have inv: "abuf_inv b" and lay: "buf_layout b = lay"
    using from_layout_inv [OF assms(1)] by auto
  then have len: "length (raw_mem b) = unat (l_size lay)" and al: "l_align lay \<noteq> 0"
    by (auto simp: abuf_inv_def abuf_size_def abuf_alignment_def)
  obtain r where r: "aligned_size_raw (l_size lay) (l_align lay) = Ret r"
    using al by (cases "aligned_size_raw (l_size lay) (l_align lay)")
      (auto simp: aligned_size_raw_def Let_def split: if_splits)
  have pos: "0 < unat (l_align lay)" using al by (simp add: unat_gt_0)
  have eq: "unat r \<le> unat (l_size lay) \<longleftrightarrow> unat (l_align lay) dvd unat (l_size lay)"
    using aligned_size_raw_nat [OF al assms(2) r] mod_less_divisor [OF pos, of "unat (l_size lay)"]
    by (auto simp: dvd_eq_mod_eq_0)
  have "as_aligned_slice b = Ret (from_raw_parts (raw_mem b) r)"
    using r by (simp add: as_aligned_slice_def aligned_size_def abuf_size_def abuf_alignment_def lay)
  then show ?thesis
    using as_slice_eq [OF inv] eq by (simp add: from_raw_parts_def len)
qed

theorem aligned_slice_in_bounds_iff_witness:
  "as_aligned_slice \<lparr>raw_mem = [0, 0, 0], buf_layout = \<lparr>l_size = 3, l_align = 4\<rparr>\<rparr> = Ret None"
proof -
  have 1: "replicate 3 (0 :: u8) = [0, 0, 0]" by (simp add: numeral_3_eq_3)
  have "from_layout (\<lambda>_. True) NoInputEndpoint \<lparr>l_size = 3, l_align = 4\<rparr>
      = Ok \<lparr>raw_mem = [0, 0, 0], buf_layout = \<lparr>l_size = 3, l_align = 4\<rparr>\<rparr>"
    by (simp add: from_layout_def aligned_size_raw_def Let_def 1)
  from aligned_slice_in_bounds_iff [OF this] show ?thesis by simp
qed

section \<open>Endpoints\<close>

text \<open>
  \<open>retrieve_iface_endpoints\<close> accepts an interface exactly when class, subclass and protocol
  say SCSI bulk-only mass storage (each on the device or on the interface), and the first
  endpoint of the output list is an IN endpoint with the direction bit set (the read
  endpoint) and the first of the input list an OUT endpoint without it (the write endpoint).
\<close>

theorem endpoints_accepted_iff:
  "retrieve_iface_endpoints msg i = Inr (r, w) \<longleftrightarrow>
     8 \<in> {class_of (device_desc i), class_of (interface_desc i)}
     \<and> 6 \<in> {subclass_of (device_desc i), subclass_of (interface_desc i)}
     \<and> 80 \<in> {protocol_of (device_desc i), protocol_of (interface_desc i)}
     \<and> (\<exists>rs. output_endpoint_descs i = r # rs) \<and> (\<exists>ws. input_endpoint_descs i = w # ws)
     \<and> ep_direction r = IN \<and> ep_address r AND 0x80 \<noteq> 0
     \<and> ep_direction w = OUT \<and> ep_address w AND 0x80 = 0"
  unfolding retrieve_iface_endpoints_def Let_def
  by (cases "input_endpoint_descs i"; cases "output_endpoint_descs i") auto

section \<open>Transfers\<close>

text \<open>
  C21: When the buffer has room, the shim for the room can be allocated, and the read session
  accepts the transfer and fills a slice of the shim's length, \<open>in_transfer\<close> appends that whole
  slice to the buffer and fills it to its capacity, whatever number \<open>n\<close> of bytes the session says
  it received. If the session leaves the bytes after the first \<open>n\<close> alone, as a short read does,
  what is appended is the \<open>n\<close> bytes and then the zeros of the fresh shim up to the capacity.
\<close>

theorem in_transfer_fills_vec:
  assumes "vec_inv b" "vec_size b < vec_capacity b"
    and "shim_ok api (vec_capacity b - vec_size b)"
    and "ep_read api (read_endpoint c) (replicate (unat (vec_capacity b - vec_size b)) 0)
      = (Inr n, ep, data)"
    and "length data = unat (vec_capacity b - vec_size b)"
  shows "\<exists>b'. in_transfer vec_ops api c b = (Ok n, c\<lparr>read_endpoint := ep\<rparr>, b')
    \<and> inner b' = inner b @ data \<and> length (inner b') = unat (vec_capacity b)
    \<and> (drop (unat n) data = drop (unat n) (replicate (unat (vec_capacity b - vec_size b)) 0)
        \<longrightarrow> inner b' = inner b @ take (unat n) data @ replicate (unat (vec_capacity b - vec_size b) - unat n) 0)"
proof -
  have ops: "b_size vec_ops = vec_size" "b_capacity vec_ops = vec_capacity"
    by (simp_all add: vec_ops_def)
  obtain b' where b': "in_transfer vec_ops api c b = (Ok n, c\<lparr>read_endpoint := ep\<rparr>, b')"
    "inner b' = inner b @ data" "length (inner b') = unat (vec_capacity b)"
    using vec.in_transfer_fills_buffer [of b api c n ep data, unfolded ops] assms by blast
  have "data = take (unat n) data @ replicate (unat (vec_capacity b - vec_size b) - unat n) 0"
    if "drop (unat n) data = drop (unat n) (replicate (unat (vec_capacity b - vec_size b)) 0)"
    using that append_take_drop_id [of "unat n" data] by (simp only: drop_replicate)
  with b' show ?thesis by metis
qed

text \<open>A device that answers every read with two bytes of 9 and accepts every write.\<close>

definition nines_api :: "(unit, bytes, libnx_msg) usb_api" where
  "nines_api = \<lparr>open_endpoint = (\<lambda>h d. (Inr [], h)),
     ep_read = (\<lambda>ep sl. (Inr 2, ep, [9, 9] @ drop 2 sl)),
     ep_write = (\<lambda>ep sl. (Inr (of_nat (length sl)), ep @ sl)),
     handle_is_connected = (\<lambda>_. Inr True), alloc_ok = (\<lambda>_. True), from_msg = id\<rparr>"

definition nines_client :: "(unit, bytes) usb_client" where
  "nines_client = \<lparr>device_handle = (), read_endpoint = [], write_endpoint = []\<rparr>"

theorem in_transfer_fills_vec_witness:
  "\<exists>b'. in_transfer vec_ops nines_api nines_client \<lparr>inner = [1], fake_size = 5\<rparr>
      = (Ok 2, nines_client, b') \<and> inner b' = [1, 9, 9, 0, 0]
      \<and> inner b' = [1] @ take 2 [9, 9, 0, 0] @ replicate 2 0"
proof -
  have 1: "replicate 2 (0 :: u8) = [0, 0]" by (simp add: numeral_2_eq_2)
  show ?thesis
    using in_transfer_fills_vec [of "\<lparr>inner = [1], fake_size = 5\<rparr>" nines_api nines_client 2 "[]" "[9, 9, 0, 0]"]
    by (auto simp add: vec_defs vec_inv_def shim_ok_def nines_api_def nines_client_def 1)
qed

text \<open>
  C22: \<open>out_transfer\<close> sends exactly the contents of the buffer, in order and in one call, and leaves
  the buffer empty whether the session accepts the transfer or fails: after an error the
  caller's bytes are gone.
\<close>

theorem out_transfer_drains_vec:
  assumes "vec_inv b" "inner b \<noteq> []" "shim_ok api (vec_size b)"
  shows "\<exists>b'. out_transfer vec_ops api c b
      = (case ep_write api (write_endpoint c) (inner b) of
           (Inr n, ep) \<Rightarrow> (Ok n, c\<lparr>write_endpoint := ep\<rparr>, b')
         | (Inl e, ep) \<Rightarrow> (Err (UsbTransferError DirOut), c\<lparr>write_endpoint := ep\<rparr>, b'))
    \<and> inner b' = []"
proof -
  obtain r ep where w: "ep_write api (write_endpoint c) (inner b) = (r, ep)" by fastforce
  have "\<exists>b'. out_transfer vec_ops api c b
      = (Ret (map_err (\<lambda>_. UsbTransferError DirOut) r), c\<lparr>write_endpoint := ep\<rparr>, b')
    \<and> inner b' = [] \<and> vec_inv b'"
    using vec.out_transfer_drains_buffer [OF assms(1,2) _ w] assms(3) by (simp add: vec_ops_def)
  then show ?thesis by (cases r) (auto simp: w)
qed

theorem out_transfer_drains_vec_witness:
  "\<exists>b'. out_transfer vec_ops nines_api nines_client \<lparr>inner = [1, 2], fake_size = 5\<rparr>
      = (Ok 2, nines_client\<lparr>write_endpoint := [1, 2]\<rparr>, b') \<and> inner b' = []"
  using out_transfer_drains_vec [of "\<lparr>inner = [1, 2], fake_size = 5\<rparr>" nines_api nines_client]
  by (simp add: vec_defs vec_inv_def shim_ok_def nines_api_def nines_client_def)

end
