(* ===== verification/FatfsRawFs.thy ===== *)
theory FatfsRawFs
  imports FatfsRaw
begin

text \<open>
  Files and directories of \<open>src/filesystem/fatfs_raw.rs\<close>: \<open>FatfsSysFile\<close>, \<open>FatfsSysDir\<close> and its
  iterator over the C library FatFs, whose functions are parameters (the record
  \<open>fatfs_sys\<close>); a C call returns its result code and leaves a new object and library state.
  The structs \<open>FIL\<close> and \<open>DIR\<close> are opaque but for the two fields the sources read.
\<close>

section \<open>The C library\<close>

datatype fresult = FR_OK | FR_WRITE_PROTECTED | FR_TOO_MANY_OPEN_FILES | FR_OTHER u8

text \<open>\<open>fname\<close> is the array with its terminating NUL.\<close>

record filinfo =
  fsize :: u32
  fattrib :: u8
  fname :: bytes

record ('f, 'd, 'c) fatfs_sys =
  f_read :: "'f \<Rightarrow> bytes \<Rightarrow> u32 \<Rightarrow> 'c \<Rightarrow> fresult \<times> u32 \<times> bytes \<times> 'f \<times> 'c"
  f_write :: "'f \<Rightarrow> bytes \<Rightarrow> u32 \<Rightarrow> 'c \<Rightarrow> fresult \<times> u32 \<times> 'f \<times> 'c"
  f_lseek :: "'f \<Rightarrow> u32 \<Rightarrow> 'c \<Rightarrow> fresult \<times> 'f \<times> 'c"
  f_sync :: "'f \<Rightarrow> 'c \<Rightarrow> fresult \<times> 'f \<times> 'c"
  f_truncate :: "'f \<Rightarrow> 'c \<Rightarrow> fresult \<times> 'f \<times> 'c"
  f_close :: "'f \<Rightarrow> 'c \<Rightarrow> 'c"
  fptr :: "'f \<Rightarrow> u32"
  objsize :: "'f \<Rightarrow> u32"
  f_open :: "bytes \<Rightarrow> u8 \<Rightarrow> 'c \<Rightarrow> fresult \<times> 'f \<times> 'c"
  f_opendir :: "bytes \<Rightarrow> 'c \<Rightarrow> fresult \<times> 'd \<times> 'c"
  f_closedir :: "'d \<Rightarrow> 'c \<Rightarrow> 'c"
  f_readdir :: "'d \<Rightarrow> 'c \<Rightarrow> fresult \<times> filinfo \<times> 'd \<times> 'c"
  f_mkdir :: "bytes \<Rightarrow> 'c \<Rightarrow> fresult \<times> 'c"
  f_unlink :: "bytes \<Rightarrow> 'c \<Rightarrow> fresult \<times> 'c"
  FA_OPEN_EXISTING :: u8
  FA_CREATE_NEW :: u8

fun wrap_errors :: "'a \<Rightarrow> fresult \<Rightarrow> io_error + 'a" where
  "wrap_errors possible FR_OK = Inr possible"
| "wrap_errors possible FR_WRITE_PROTECTED = Inl (io_error_from PermissionDenied)"
| "wrap_errors possible FR_TOO_MANY_OPEN_FILES = Inl (io_error_from AddrInUse)"
| "wrap_errors possible (FR_OTHER _) = Inl (io_error_from Other)"

lemma wrap_errors_Inr_iff [simp]: "wrap_errors x e = Inr y \<longleftrightarrow> e = FR_OK \<and> x = y"
  by (cases e) auto

section \<open>Files\<close>

text \<open>Lengths are cut to the 32 bits of the C \<open>UINT\<close>.\<close>

definition sys_read :: "('f, 'd, 'c) fatfs_sys \<Rightarrow> bytes \<Rightarrow> 'f \<Rightarrow> 'c \<Rightarrow> (io_error + usize) \<times> bytes \<times> 'f \<times> 'c" where
  "sys_read L buf fil c =
     (let buflen = of_nat (length buf) in
      case f_read L fil buf buflen c of
        (err, retval, buf1, inner1, c1) \<Rightarrow> (wrap_errors (ucast retval) err, buf1, inner1, c1))"

definition sys_seek :: "('f, 'd, 'c) fatfs_sys \<Rightarrow> seek_from \<Rightarrow> 'f \<Rightarrow> 'c \<Rightarrow> (io_error + u64) \<times> 'f \<times> 'c" where
  "sys_seek L pos fil c =
     (let pos_from_start = (case pos of
          Start raw \<Rightarrow> raw
        | Current raw \<Rightarrow> ucast (fptr L fil) + raw
        | End raw \<Rightarrow> raw + ucast (objsize L fil))
      in case f_lseek L fil (ucast pos_from_start) c of
        (err, inner1, c1) \<Rightarrow> (wrap_errors (ucast (fptr L inner1)) err, inner1, c1))"

definition sys_write :: "('f, 'd, 'c) fatfs_sys \<Rightarrow> bytes \<Rightarrow> 'f \<Rightarrow> 'c \<Rightarrow> (io_error + usize) \<times> 'f \<times> 'c" where
  "sys_write L buf fil c =
     (let buflen = of_nat (length buf) in
      case f_write L fil buf buflen c of
        (err, retval, inner1, c1) \<Rightarrow> (wrap_errors (ucast retval) err, inner1, c1))"

definition sys_flush :: "('f, 'd, 'c) fatfs_sys \<Rightarrow> 'f \<Rightarrow> 'c \<Rightarrow> (io_error + unit) \<times> 'f \<times> 'c" where
  "sys_flush L fil c =
     (case f_sync L fil c of (err, inner1, c1) \<Rightarrow> (wrap_errors () err, inner1, c1))"

definition sys_truncate :: "('f, 'd, 'c) fatfs_sys \<Rightarrow> 'f \<Rightarrow> 'c \<Rightarrow> (io_error + unit) \<times> 'f \<times> 'c" where
  "sys_truncate L fil c =
     (case f_truncate L fil c of (err, inner1, c1) \<Rightarrow> (wrap_errors () err, inner1, c1))"

definition sys_file_drop :: "('f, 'd, 'c) fatfs_sys \<Rightarrow> 'f \<Rightarrow> 'c \<Rightarrow> 'c" where
  "sys_file_drop L fil c = f_close L fil c"

section \<open>Directories\<close>

record 'd sys_dir =
  dir_inner :: 'd
  children :: "dir_entry_data list"
  finished_reading_children :: bool

definition from_inner :: "'d \<Rightarrow> 'd sys_dir" where
  "from_inner fil = \<lparr>dir_inner = fil, children = [], finished_reading_children = False\<rparr>"

text \<open>\<open>CString::new\<close> refuses interior NULs; the conversion to \<open>io::Error\<close> gives \<open>InvalidInput\<close>.\<close>

definition cstring_new :: "rstr \<Rightarrow> io_error + bytes" where
  "cstring_new path = (if 0 \<in> set path then Inl (io_error_from InvalidInput) else Inr path)"

definition raw_readdir ::
  "('f, 'd, 'c) fatfs_sys \<Rightarrow> 'd sys_dir \<Rightarrow> 'c \<Rightarrow> (io_error + dir_entry_data option) \<times> 'd sys_dir \<times> 'c" where
  "raw_readdir L dir c =
     (case f_readdir L (dir_inner dir) c of
        (err, fno, inner1, c1) \<Rightarrow>
          (case wrap_errors fno err of
             Inl e \<Rightarrow> (Inl e, dir\<lparr>dir_inner := inner1\<rparr>, c1)
           | Inr rawinfo \<Rightarrow>
               let name_cstr = takeWhile (\<lambda>b. b \<noteq> 0) (fname rawinfo) in
               if name_cstr = [] then (Inr None, dir\<lparr>dir_inner := inner1\<rparr>, c1)
               else (Inr (Some \<lparr>de_name = utf8_lossy name_cstr, de_len = ucast (fsize rawinfo),
                                de_flags = ucast (fattrib rawinfo)\<rparr>),
                     dir\<lparr>dir_inner := inner1\<rparr>, c1)))"

text \<open>The loop ends when the library stops yielding entries, which nothing bounds.\<close>

partial_function (option) load_loop ::
  "('f, 'd, 'c) fatfs_sys \<Rightarrow> 'd sys_dir \<Rightarrow> 'c \<Rightarrow> ((io_error + unit) \<times> 'd sys_dir \<times> 'c) option" where
  "load_loop L dir c =
     (case raw_readdir L dir c of
        (Inl e, dir1, c1) \<Rightarrow> Some (Inl e, dir1, c1)
      | (Inr None, dir1, c1) \<Rightarrow> Some (Inr (), dir1, c1)
      | (Inr (Some ent), dir1, c1) \<Rightarrow>
          load_loop L (dir1\<lparr>children := children dir1 @ [ent]\<rparr>) c1)"

definition load_children ::
  "('f, 'd, 'c) fatfs_sys \<Rightarrow> 'd sys_dir \<Rightarrow> 'c \<Rightarrow> ((io_error + unit) \<times> 'd sys_dir \<times> 'c) option" where
  "load_children L dir c =
     (if finished_reading_children dir then Some (Inr (), dir, c)
      else case load_loop L dir c of
        None \<Rightarrow> None
      | Some (Inl e, dir1, c1) \<Rightarrow> Some (Inl e, dir1, c1)
      | Some (Inr _, dir1, c1) \<Rightarrow> Some (Inr (), dir1\<lparr>finished_reading_children := True\<rparr>, c1))"

definition sys_dir_drop :: "('f, 'd, 'c) fatfs_sys \<Rightarrow> 'd sys_dir \<Rightarrow> 'c \<Rightarrow> 'c" where
  "sys_dir_drop L dir c = f_closedir L (dir_inner dir) c"

record sys_dir_iter =
  items :: "dir_entry_data list"
  iter_idx :: usize

definition sys_dir_iter_new :: "dir_entry_data list \<Rightarrow> sys_dir_iter" where
  "sys_dir_iter_new its = \<lparr>items = its, iter_idx = 0\<rparr>"

definition sys_dir_iter_next :: "sys_dir_iter \<Rightarrow> dir_entry_data option \<times> sys_dir_iter" where
  "sys_dir_iter_next it =
     (let retval = (if unat (iter_idx it) < length (items it)
                    then Some (items it ! unat (iter_idx it)) else None)
      in (retval, it\<lparr>iter_idx := iter_idx it + 1\<rparr>))"

text \<open>The result of \<open>load_children\<close> is ignored.\<close>

definition sys_dir_iter_of ::
  "('f, 'd, 'c) fatfs_sys \<Rightarrow> 'd sys_dir \<Rightarrow> 'c \<Rightarrow> (sys_dir_iter \<times> 'd sys_dir \<times> 'c) option" where
  "sys_dir_iter_of L dir c =
     (case load_children L dir c of
        None \<Rightarrow> None
      | Some (_, dir1, c1) \<Rightarrow> Some (sys_dir_iter_new (children dir1), dir1, c1))"

section \<open>Operations on paths\<close>

text \<open>
  The object exists before the result code is looked at, so an error drops it: the failed
  \<open>FIL\<close> or \<open>DIR\<close> is closed.
\<close>

definition open_directory ::
  "('f, 'd, 'c) fatfs_sys \<Rightarrow> rstr \<Rightarrow> 'c \<Rightarrow> (io_error + 'd sys_dir) \<times> 'c" where
  "open_directory L path c =
     (case cstring_new path of
        Inl e \<Rightarrow> (Inl e, c)
      | Inr cpath \<Rightarrow>
          (case f_opendir L cpath c of
             (err, fil, c1) \<Rightarrow>
               let retval = from_inner fil in
               if err = FR_OK then (wrap_errors retval err, c1)
               else (wrap_errors retval err, sys_dir_drop L retval c1)))"

definition create_directory ::
  "('f, 'd, 'c) fatfs_sys \<Rightarrow> rstr \<Rightarrow> 'c \<Rightarrow> (io_error + 'd sys_dir) \<times> 'c" where
  "create_directory L path c =
     (case cstring_new path of
        Inl e \<Rightarrow> (Inl e, c)
      | Inr cpath \<Rightarrow>
          (case f_mkdir L cpath c of
             (err, c1) \<Rightarrow>
               (case wrap_errors () err of
                  Inl e \<Rightarrow> (Inl e, c1)
                | Inr _ \<Rightarrow> open_directory L path c1)))"

definition open_file_mode ::
  "('f, 'd, 'c) fatfs_sys \<Rightarrow> u8 \<Rightarrow> rstr \<Rightarrow> 'c \<Rightarrow> (io_error + 'f) \<times> 'c" where
  "open_file_mode L mode path c =
     (case cstring_new path of
        Inl e \<Rightarrow> (Inl e, c)
      | Inr cpath \<Rightarrow>
          (case f_open L cpath mode c of
             (err, fil, c1) \<Rightarrow>
               if err = FR_OK then (wrap_errors fil err, c1)
               else (wrap_errors fil err, sys_file_drop L fil c1)))"

definition open_file :: "('f, 'd, 'c) fatfs_sys \<Rightarrow> rstr \<Rightarrow> 'c \<Rightarrow> (io_error + 'f) \<times> 'c" where
  "open_file L = open_file_mode L (FA_OPEN_EXISTING L)"

definition create_file :: "('f, 'd, 'c) fatfs_sys \<Rightarrow> rstr \<Rightarrow> 'c \<Rightarrow> (io_error + 'f) \<times> 'c" where
  "create_file L = open_file_mode L (FA_CREATE_NEW L)"

definition remove_path :: "('f, 'd, 'c) fatfs_sys \<Rightarrow> rstr \<Rightarrow> 'c \<Rightarrow> (io_error + unit) \<times> 'c" where
  "remove_path L path c =
     (case cstring_new path of
        Inl e \<Rightarrow> (Inl e, c)
      | Inr cpath \<Rightarrow> (case f_unlink L cpath c of (err, c1) \<Rightarrow> (wrap_errors () err, c1)))"

text \<open>\<open>FatfsSysFileSystem::root\<close>: an error leaves before the \<open>DIR\<close> is wrapped, so nothing is closed.\<close>

definition sys_root :: "('f, 'd, 'c) fatfs_sys \<Rightarrow> 'c \<Rightarrow> (io_error + 'd sys_dir) \<times> 'c" where
  "sys_root L c =
     (case f_opendir L [0x2F] c of
        (err, fil, c1) \<Rightarrow> (map_sum id from_inner (wrap_errors fil err), c1))"

end
