(* ===== verification/FsLayer.thy ===== *)
theory FsLayer
  imports FatfsRawFs
begin

text \<open>
  The generic layer of \<open>src/filesystem/mod.rs\<close>: the traits \<open>FileOps\<close>, \<open>DirectoryOps\<close> and
  \<open>FileSystemOps\<close> as records of operations, the two implementations (the crate \<open>fatfs\<close>,
  through \<open>src/filesystem/fatfs_rs.rs\<close>, and the C library FatFs), and the enums that dispatch
  to whichever of them an object belongs to.
\<close>

section \<open>The traits\<close>

text \<open>Every enum of the layer has these two variants.\<close>

datatype ('a, 'b) backend = Fatfs 'a | FatfsSys 'b

record ('f, 'c) file_ops =
  fo_read :: "bytes \<Rightarrow> 'f \<Rightarrow> 'c \<Rightarrow> (io_error + usize) \<times> bytes \<times> 'f \<times> 'c"
  fo_write :: "bytes \<Rightarrow> 'f \<Rightarrow> 'c \<Rightarrow> (io_error + usize) \<times> 'f \<times> 'c"
  fo_flush :: "'f \<Rightarrow> 'c \<Rightarrow> (io_error + unit) \<times> 'f \<times> 'c"
  fo_seek :: "seek_from \<Rightarrow> 'f \<Rightarrow> 'c \<Rightarrow> (io_error + u64) \<times> 'f \<times> 'c"
  fo_truncate :: "'f \<Rightarrow> 'c \<Rightarrow> (io_error + unit) \<times> 'f \<times> 'c"

text \<open>\<open>'dd\<close>, \<open>'ff\<close> and \<open>'ii\<close> are the enums \<open>Directory\<close>, \<open>File\<close> and \<open>DirIter\<close>.\<close>

record ('d, 'dd, 'ff, 'ii, 'c) directory_ops =
  do_open_directory :: "rstr \<Rightarrow> 'd \<Rightarrow> 'c \<Rightarrow> (io_error + 'dd) \<times> 'd \<times> 'c"
  do_create_directory :: "rstr \<Rightarrow> 'd \<Rightarrow> 'c \<Rightarrow> (io_error + 'dd) \<times> 'd \<times> 'c"
  do_open_file :: "rstr \<Rightarrow> 'd \<Rightarrow> 'c \<Rightarrow> (io_error + 'ff) \<times> 'd \<times> 'c"
  do_create_file :: "rstr \<Rightarrow> 'd \<Rightarrow> 'c \<Rightarrow> (io_error + 'ff) \<times> 'd \<times> 'c"
  do_remove_path :: "rstr \<Rightarrow> 'd \<Rightarrow> 'c \<Rightarrow> (io_error + unit) \<times> 'd \<times> 'c"
  do_iter :: "'d \<Rightarrow> 'c \<Rightarrow> ('ii \<times> 'd \<times> 'c) option"

record ('s, 'dd, 'c) file_system_ops =
  fso_root :: "'s \<Rightarrow> 'c \<Rightarrow> (io_error + 'dd) \<times> 's \<times> 'c"
  fso_stats :: "'s \<Rightarrow> 'c \<Rightarrow> io_error + fs_stats"

section \<open>The implementations\<close>

definition sys_file_ops :: "('f, 'd, 'c) fatfs_sys \<Rightarrow> ('f, 'c) file_ops" where
  "sys_file_ops L = \<lparr>fo_read = sys_read L, fo_write = sys_write L, fo_flush = sys_flush L,
     fo_seek = sys_seek L, fo_truncate = sys_truncate L\<rparr>"

text \<open>The result of an operation on paths, put into a variant of the enum.\<close>

definition wrap_result :: "('x \<Rightarrow> 'y) \<Rightarrow> (io_error + 'x) \<times> 'c \<Rightarrow> 'd \<Rightarrow> (io_error + 'y) \<times> 'd \<times> 'c" where
  "wrap_result w res d = (case res of (r, c1) \<Rightarrow> (map_sum id w r, d, c1))"

definition sys_directory_ops ::
  "('f, 'd, 'c) fatfs_sys \<Rightarrow>
     ('d sys_dir, ('da, 'd sys_dir) backend, ('fa, 'f) backend, ('ia, sys_dir_iter) backend, 'c) directory_ops" where
  "sys_directory_ops L = \<lparr>
     do_open_directory = (\<lambda>path d c. wrap_result FatfsSys (open_directory L path c) d),
     do_create_directory = (\<lambda>path d c. wrap_result FatfsSys (create_directory L path c) d),
     do_open_file = (\<lambda>path d c. wrap_result FatfsSys (open_file L path c) d),
     do_create_file = (\<lambda>path d c. wrap_result FatfsSys (create_file L path c) d),
     do_remove_path = (\<lambda>path d c. wrap_result id (remove_path L path c) d),
     do_iter = (\<lambda>d c. map_option (\<lambda>(it, d1, c1). (FatfsSys it, d1, c1)) (sys_dir_iter_of L d c))\<rparr>"

text \<open>The directory operations of the crate, on a shared file-system state.\<close>

record ('d, 'f, 'i, 'c) crate_dir =
  cr_open_dir :: "'d \<Rightarrow> rstr \<Rightarrow> 'c \<Rightarrow> (io_error + 'd) \<times> 'c"
  cr_create_dir :: "'d \<Rightarrow> rstr \<Rightarrow> 'c \<Rightarrow> (io_error + 'd) \<times> 'c"
  cr_open_file :: "'d \<Rightarrow> rstr \<Rightarrow> 'c \<Rightarrow> (io_error + 'f) \<times> 'c"
  cr_create_file :: "'d \<Rightarrow> rstr \<Rightarrow> 'c \<Rightarrow> (io_error + 'f) \<times> 'c"
  cr_remove :: "'d \<Rightarrow> rstr \<Rightarrow> 'c \<Rightarrow> (io_error + unit) \<times> 'c"
  cr_iter :: "'d \<Rightarrow> 'i"

definition fatfs_directory_ops ::
  "('d, 'f, 'i, 'c) crate_dir \<Rightarrow>
     ('d, ('d, 'db) backend, ('f, 'fb) backend, ('i, 'ib) backend, 'c) directory_ops" where
  "fatfs_directory_ops C = \<lparr>
     do_open_directory = (\<lambda>path d c. wrap_result Fatfs (cr_open_dir C d path c) d),
     do_create_directory = (\<lambda>path d c. wrap_result Fatfs (cr_create_dir C d path c) d),
     do_open_file = (\<lambda>path d c. wrap_result Fatfs (cr_open_file C d path c) d),
     do_create_file = (\<lambda>path d c. wrap_result Fatfs (cr_create_file C d path c) d),
     do_remove_path = (\<lambda>path d c. wrap_result id (cr_remove C d path c) d),
     do_iter = (\<lambda>d c. Some (Fatfs (cr_iter C d), d, c))\<rparr>"

section \<open>The enums\<close>

text \<open>Putting an object that was worked on back into its variant.\<close>

definition rewrap :: "('x \<Rightarrow> 'y) \<Rightarrow> 'r \<times> 'x \<times> 'c \<Rightarrow> 'r \<times> 'y \<times> 'c" where
  "rewrap w res = (case res of (r, x, c) \<Rightarrow> (r, w x, c))"

fun enum_read :: "('a, 'c) file_ops \<Rightarrow> ('b, 'c) file_ops \<Rightarrow> bytes \<Rightarrow> ('a, 'b) backend \<Rightarrow> 'c
    \<Rightarrow> (io_error + usize) \<times> bytes \<times> ('a, 'b) backend \<times> 'c" where
  "enum_read A B buf (Fatfs f) c = (case fo_read A buf f c of (r, buf1, f1, c1) \<Rightarrow> (r, buf1, Fatfs f1, c1))"
| "enum_read A B buf (FatfsSys f) c = (case fo_read B buf f c of (r, buf1, f1, c1) \<Rightarrow> (r, buf1, FatfsSys f1, c1))"

fun enum_write :: "('a, 'c) file_ops \<Rightarrow> ('b, 'c) file_ops \<Rightarrow> bytes \<Rightarrow> ('a, 'b) backend \<Rightarrow> 'c
    \<Rightarrow> (io_error + usize) \<times> ('a, 'b) backend \<times> 'c" where
  "enum_write A B buf (Fatfs f) c = rewrap Fatfs (fo_write A buf f c)"
| "enum_write A B buf (FatfsSys f) c = rewrap FatfsSys (fo_write B buf f c)"

fun enum_flush :: "('a, 'c) file_ops \<Rightarrow> ('b, 'c) file_ops \<Rightarrow> ('a, 'b) backend \<Rightarrow> 'c
    \<Rightarrow> (io_error + unit) \<times> ('a, 'b) backend \<times> 'c" where
  "enum_flush A B (Fatfs f) c = rewrap Fatfs (fo_flush A f c)"
| "enum_flush A B (FatfsSys f) c = rewrap FatfsSys (fo_flush B f c)"

fun enum_seek :: "('a, 'c) file_ops \<Rightarrow> ('b, 'c) file_ops \<Rightarrow> seek_from \<Rightarrow> ('a, 'b) backend \<Rightarrow> 'c
    \<Rightarrow> (io_error + u64) \<times> ('a, 'b) backend \<times> 'c" where
  "enum_seek A B pos (Fatfs f) c = rewrap Fatfs (fo_seek A pos f c)"
| "enum_seek A B pos (FatfsSys f) c = rewrap FatfsSys (fo_seek B pos f c)"

fun enum_truncate :: "('a, 'c) file_ops \<Rightarrow> ('b, 'c) file_ops \<Rightarrow> ('a, 'b) backend \<Rightarrow> 'c
    \<Rightarrow> (io_error + unit) \<times> ('a, 'b) backend \<times> 'c" where
  "enum_truncate A B (Fatfs f) c = rewrap Fatfs (fo_truncate A f c)"
| "enum_truncate A B (FatfsSys f) c = rewrap FatfsSys (fo_truncate B f c)"

text \<open>A path operation of \<open>Directory\<close>, given the field of the trait it calls on each variant.\<close>

fun enum_path_op ::
  "(rstr \<Rightarrow> 'a \<Rightarrow> 'c \<Rightarrow> (io_error + 'r) \<times> 'a \<times> 'c) \<Rightarrow> (rstr \<Rightarrow> 'b \<Rightarrow> 'c \<Rightarrow> (io_error + 'r) \<times> 'b \<times> 'c)
     \<Rightarrow> rstr \<Rightarrow> ('a, 'b) backend \<Rightarrow> 'c \<Rightarrow> (io_error + 'r) \<times> ('a, 'b) backend \<times> 'c" where
  "enum_path_op fa fb path (Fatfs d) c = rewrap Fatfs (fa path d c)"
| "enum_path_op fa fb path (FatfsSys d) c = rewrap FatfsSys (fb path d c)"

fun enum_iter ::
  "('a \<Rightarrow> 'c \<Rightarrow> ('ii \<times> 'a \<times> 'c) option) \<Rightarrow> ('b \<Rightarrow> 'c \<Rightarrow> ('ii \<times> 'b \<times> 'c) option)
     \<Rightarrow> ('a, 'b) backend \<Rightarrow> 'c \<Rightarrow> ('ii \<times> ('a, 'b) backend \<times> 'c) option" where
  "enum_iter fa fb (Fatfs d) c = map_option (rewrap Fatfs) (fa d c)"
| "enum_iter fa fb (FatfsSys d) c = map_option (rewrap FatfsSys) (fb d c)"

definition enum_directory_ops ::
  "('a, 'dd, 'ff, 'ii, 'c) directory_ops \<Rightarrow> ('b, 'dd, 'ff, 'ii, 'c) directory_ops
     \<Rightarrow> (('a, 'b) backend, 'dd, 'ff, 'ii, 'c) directory_ops" where
  "enum_directory_ops A B = \<lparr>
     do_open_directory = enum_path_op (do_open_directory A) (do_open_directory B),
     do_create_directory = enum_path_op (do_create_directory A) (do_create_directory B),
     do_open_file = enum_path_op (do_open_file A) (do_open_file B),
     do_create_file = enum_path_op (do_create_file A) (do_create_file B),
     do_remove_path = enum_path_op (do_remove_path A) (do_remove_path B),
     do_iter = enum_iter (do_iter A) (do_iter B)\<rparr>"

fun enum_iter_next ::
  "('i \<Rightarrow> (io_error + fat_dirent) option \<times> 'i) \<Rightarrow> ('i, sys_dir_iter) backend
     \<Rightarrow> dir_entry_data option \<times> ('i, sys_dir_iter) backend" where
  "enum_iter_next inner_next (Fatfs i) =
     (case fatfs_dir_iter_next inner_next i of (r, i1) \<Rightarrow> (r, Fatfs i1))"
| "enum_iter_next inner_next (FatfsSys i) =
     (case sys_dir_iter_next i of (r, i1) \<Rightarrow> (r, FatfsSys i1))"

fun enum_root ::
  "('a, 'dd, 'c) file_system_ops \<Rightarrow> ('b, 'dd, 'c) file_system_ops \<Rightarrow> ('a, 'b) backend \<Rightarrow> 'c
     \<Rightarrow> (io_error + 'dd) \<times> ('a, 'b) backend \<times> 'c" where
  "enum_root A B (Fatfs f) c = rewrap Fatfs (fso_root A f c)"
| "enum_root A B (FatfsSys f) c = rewrap FatfsSys (fso_root B f c)"

fun enum_stats ::
  "('a, 'dd, 'c) file_system_ops \<Rightarrow> ('b, 'dd, 'c) file_system_ops \<Rightarrow> ('a, 'b) backend \<Rightarrow> 'c
     \<Rightarrow> io_error + fs_stats" where
  "enum_stats A B (Fatfs f) c = fso_stats A f c"
| "enum_stats A B (FatfsSys f) c = fso_stats B f c"

text \<open>\<open>FileSystem::from_device\<close> always builds the variant over the C library.\<close>

definition enum_from_device ::
  "('dev \<Rightarrow> partition_entry \<Rightarrow> 'c \<Rightarrow> (io_error + 'b) exec \<times> 'c)
     \<Rightarrow> 'dev \<Rightarrow> partition_entry \<Rightarrow> 'c \<Rightarrow> (io_error + ('a, 'b) backend) exec \<times> 'c" where
  "enum_from_device sys_from_device dev part c =
     (case sys_from_device dev part c of (r, c1) \<Rightarrow> (map_exec (map_sum id FatfsSys) r, c1))"

end
