(* ===== verification/FsLayerThms.thy ===== *)
theory FsLayerThms
  imports FsLayer
begin

text \<open>
  The properties of the generic layer: directory listings over the C library are complete
  and cached, the type of an entry is lost, file positions are cut to 32 bits.
\<close>

section \<open>Listings\<close>

text \<open>
  \<open>listing L d c es d' c'\<close>: read from the position \<open>d\<close> on, the library yields the entries \<open>es\<close>
  without an error and then the empty name that ends a directory.
\<close>

definition sys_entry :: "filinfo \<Rightarrow> dir_entry_data" where
  "sys_entry i = \<lparr>de_name = utf8_lossy (takeWhile (\<lambda>b. b \<noteq> 0) (fname i)), de_len = ucast (fsize i),
     de_flags = ucast (fattrib i)\<rparr>"

inductive listing ::
  "('f, 'd, 'c) fatfs_sys \<Rightarrow> 'd \<Rightarrow> 'c \<Rightarrow> dir_entry_data list \<Rightarrow> 'd \<Rightarrow> 'c \<Rightarrow> bool"
  for L :: "('f, 'd, 'c) fatfs_sys" where
  listing_end: "f_readdir L d c = (FR_OK, i, d', c') \<Longrightarrow> takeWhile (\<lambda>b. b \<noteq> 0) (fname i) = []
    \<Longrightarrow> listing L d c [] d' c'"
| listing_entry: "f_readdir L d c = (FR_OK, i, d1, c1) \<Longrightarrow> takeWhile (\<lambda>b. b \<noteq> 0) (fname i) \<noteq> []
    \<Longrightarrow> listing L d1 c1 es d' c' \<Longrightarrow> listing L d c (sys_entry i # es) d' c'"

lemma raw_readdir_cases:
  assumes "raw_readdir L dir c = (r, dir1, c1)"
  shows "\<exists>err i d1. f_readdir L (dir_inner dir) c = (err, i, d1, c1) \<and> dir1 = dir\<lparr>dir_inner := d1\<rparr>
    \<and> (r = Inr None \<longrightarrow> err = FR_OK \<and> takeWhile (\<lambda>b. b \<noteq> 0) (fname i) = [])
    \<and> (\<forall>e. r = Inr (Some e) \<longrightarrow> err = FR_OK \<and> takeWhile (\<lambda>b. b \<noteq> 0) (fname i) \<noteq> [] \<and> e = sys_entry i)"
  using assms unfolding raw_readdir_def Let_def
  by (cases "f_readdir L (dir_inner dir) c"; cases "fst (f_readdir L (dir_inner dir) c)")
    (auto simp: sys_entry_def split: if_splits)

lemma load_loop_listing:
  assumes "listing L d c es d' c'"
  shows "dir_inner dir = d \<Longrightarrow> load_loop L dir c
    = Some (Inr (), dir\<lparr>dir_inner := d', children := children dir @ es\<rparr>, c')"
  using assms
proof (induction arbitrary: dir rule: listing.induct)
  case (listing_end d c i d' c')
  then show ?case
    by (subst load_loop.simps) (simp add: raw_readdir_def)
next
  case (listing_entry d c i d1 c1 es d' c')
  then show ?case
    by (subst load_loop.simps) (simp add: raw_readdir_def Let_def sys_entry_def)
qed

text \<open>An entry that the library yields, with a name.\<close>

definition yielded :: "dir_entry_data \<Rightarrow> bool" where
  "yielded e \<longleftrightarrow> (\<exists>i. e = sys_entry i \<and> takeWhile (\<lambda>b. b \<noteq> 0) (fname i) \<noteq> [])"

lemma yielded_flags: "yielded e \<Longrightarrow> de_flags e < 256"
proof -
  assume "yielded e"
  then obtain i where "e = sys_entry i" by (auto simp: yielded_def)
  moreover have "ucast (fattrib i) < (256 :: u64)"
    using unat8_less [of "fattrib i"] by (simp add: word_less_nat_alt)
  ultimately show ?thesis by (simp add: sys_entry_def)
qed

lemma load_loop_ends:
  assumes "load_loop L dir c = Some (r, dir', c')"
  shows "\<exists>es. children dir' = children dir @ es \<and> (\<forall>e \<in> set es. yielded e)
    \<and> finished_reading_children dir' = finished_reading_children dir
    \<and> (r = Inr () \<longrightarrow> listing L (dir_inner dir) c es (dir_inner dir') c')"
proof -
  have "\<forall>r dir' c'. z = (r, dir', c') \<longrightarrow> (\<exists>es. children dir' = children dir @ es
      \<and> (\<forall>e \<in> set es. yielded e)
      \<and> finished_reading_children dir' = finished_reading_children dir
      \<and> (r = Inr () \<longrightarrow> listing L (dir_inner dir) c es (dir_inner dir') c'))"
    if "load_loop L dir c = Some z" for z
    using that
  proof (induction L dir c z rule: load_loop.raw_induct [rotated, consumes 1])
    case (1 load_loop L dir c z)
    obtain q dir1 c1 where q: "raw_readdir L dir c = (q, dir1, c1)" by (metis prod_cases3)
    obtain err i d1 where rd: "f_readdir L (dir_inner dir) c = (err, i, d1, c1)"
        "dir1 = dir\<lparr>dir_inner := d1\<rparr>"
        "q = Inr None \<Longrightarrow> err = FR_OK \<and> takeWhile (\<lambda>b. b \<noteq> 0) (fname i) = []"
        "\<And>e. q = Inr (Some e) \<Longrightarrow> err = FR_OK \<and> takeWhile (\<lambda>b. b \<noteq> 0) (fname i) \<noteq> [] \<and> e = sys_entry i"
      using raw_readdir_cases [OF q] by metis
    consider (err) e where "q = Inl e" | (finish) "q = Inr None" | (entry) e where "q = Inr (Some e)"
      by (metis obj_sumE option.exhaust)
    then show ?case
    proof cases
      case err
      with 1(2) q rd(2) show ?thesis by auto
    next
      case finish
      with 1(2) q rd show ?thesis by (auto intro: listing_end)
    next
      case (entry e)
      with 1(2) q have "load_loop L (dir1\<lparr>children := children dir1 @ [e]\<rparr>) c1 = Some z" by simp
      note IH = 1(1) [OF this]
      have e: "yielded e" using rd(4) [OF entry] by (auto simp: yielded_def)
      show ?thesis
      proof (intro allI impI)
        fix r dir' c' assume "z = (r, dir', c')"
        with IH rd(2) obtain es where es: "children dir' = children dir @ e # es"
            "\<forall>e \<in> set es. yielded e"
            "finished_reading_children dir' = finished_reading_children dir"
            "r = Inr () \<longrightarrow> listing L d1 c1 es (dir_inner dir') c'"
          by auto
        then show "\<exists>es. children dir' = children dir @ es \<and> (\<forall>e \<in> set es. yielded e)
            \<and> finished_reading_children dir' = finished_reading_children dir
            \<and> (r = Inr () \<longrightarrow> listing L (dir_inner dir) c es (dir_inner dir') c')"
          using rd(1) rd(4) [OF entry] e by (intro exI [of _ "e # es"]) (auto intro: listing_entry)
      qed
    qed
  qed
  with assms show ?thesis by blast
qed

text \<open>
  The answer of the library to the \<open>n\<close>-th call of \<open>f_readdir\<close> (from 0) on a directory object and its
  own state, and whether it ends a listing: an error, or the empty name.
\<close>

fun readdir_n :: "('f, 'd, 'c) fatfs_sys \<Rightarrow> nat \<Rightarrow> 'd \<Rightarrow> 'c \<Rightarrow> fresult \<times> filinfo \<times> 'd \<times> 'c" where
  "readdir_n L 0 d c = f_readdir L d c"
| "readdir_n L (Suc n) d c = (case f_readdir L d c of (err, i, d1, c1) \<Rightarrow> readdir_n L n d1 c1)"

definition stops :: "fresult \<times> filinfo \<times> 'd \<times> 'c \<Rightarrow> bool" where
  "stops ans = (case ans of (err, i, _) \<Rightarrow> err \<noteq> FR_OK \<or> takeWhile (\<lambda>b. b \<noteq> 0) (fname i) = [])"

definition nth_entry :: "('f, 'd, 'c) fatfs_sys \<Rightarrow> 'd \<Rightarrow> 'c \<Rightarrow> nat \<Rightarrow> dir_entry_data" where
  "nth_entry L d c n = (case readdir_n L n d c of (err, i, _) \<Rightarrow> sys_entry i)"

lemma raw_readdir_stops:
  assumes "f_readdir L (dir_inner dir) c = (err, i, d1, c1)"
  shows "raw_readdir L dir c = (if err \<noteq> FR_OK then map_sum id (\<lambda>_. None) (wrap_errors i err)
      else if stops (err, i, d1, c1) then Inr None else Inr (Some (sys_entry i)), dir\<lparr>dir_inner := d1\<rparr>, c1)"
  using assms by (cases err) (auto simp: raw_readdir_def stops_def sys_entry_def Let_def)

lemma load_loop_stops:
  assumes "readdir_n L n (dir_inner dir) c = (err, i, d', c')" "stops (err, i, d', c')"
    and "\<forall>k < n. \<not> stops (readdir_n L k (dir_inner dir) c)"
  shows "load_loop L dir c = Some (wrap_errors () err,
      dir\<lparr>dir_inner := d', children := children dir @ List.map (nth_entry L (dir_inner dir) c) [0 ..< n]\<rparr>, c')"
  using assms
proof (induction n arbitrary: dir c)
  case 0
  then show ?case
    by (cases err) (subst load_loop.simps, simp add: raw_readdir_stops)+
next
  case (Suc n)
  obtain err0 i0 d1 c1 where f: "f_readdir L (dir_inner dir) c = (err0, i0, d1, c1)" by (metis prod_cases4)
  have go: "\<not> stops (err0, i0, d1, c1)" using Suc.prems(3) f by force
  then have ok: "err0 = FR_OK" by (simp add: stops_def)
  let ?dir = "dir\<lparr>dir_inner := d1, children := children dir @ [sys_entry i0]\<rparr>"
  have rest: "nth_entry L (dir_inner dir) c (Suc k) = nth_entry L d1 c1 k" for k
    by (simp add: nth_entry_def f)
  have first: "nth_entry L (dir_inner dir) c 0 = sys_entry i0" by (simp add: nth_entry_def f)
  have "load_loop L dir c = load_loop L ?dir c1"
    using f go ok by (subst load_loop.simps) (simp add: raw_readdir_stops)
  also have "\<dots> = Some (wrap_errors () err,
      ?dir\<lparr>dir_inner := d', children := children ?dir @ List.map (nth_entry L d1 c1) [0 ..< n]\<rparr>, c')"
    using Suc.prems f by (subst Suc.IH) (auto dest: spec [of _ "Suc _"])
  also have "List.map (nth_entry L d1 c1) [0 ..< n] = List.map (nth_entry L (dir_inner dir) c) [Suc 0 ..< Suc n]"
    by (simp add: rest map_Suc_upt [symmetric] del: upt_Suc)
  finally show ?case by (simp add: upt_rec [of 0] first del: upt_Suc)
qed

lemma load_loop_stops_iff:
  assumes "load_loop L dir c = Some z"
  shows "\<exists>n. stops (readdir_n L n (dir_inner dir) c)"
  using assms
proof (induction L dir c z rule: load_loop.raw_induct [rotated, consumes 1])
  case (1 load_loop L dir c z)
  obtain err i d1 c1 where f: "f_readdir L (dir_inner dir) c = (err, i, d1, c1)" by (metis prod_cases4)
  show ?case
  proof (cases "stops (err, i, d1, c1)")
    case True
    then show ?thesis using f by (intro exI [of _ 0]) simp
  next
    case False
    then have "err = FR_OK" by (simp add: stops_def)
    with 1(2) False have "load_loop L (dir\<lparr>dir_inner := d1, children := children dir @ [sys_entry i]\<rparr>) c1 = Some z"
      by (simp add: raw_readdir_stops [OF f])
    from 1(1) [OF this] obtain n where "stops (readdir_n L n d1 c1)" by auto
    then show ?thesis using f by (intro exI [of _ "Suc n"]) simp
  qed
qed

text \<open>
  C25: What loading a directory does, for every library: it ends exactly when some answer of
  \<open>f_readdir\<close> is an error or the empty name, which nothing in the loop bounds; then the children
  are the entries of all answers before the first such one, in order, the directory and the
  library are as that answer left them, the result is its error code, and the directory counts
  as read only without an error. A directory that was read is not read again.
\<close>

theorem load_children_spec:
  "load_children L dir c =
     (if finished_reading_children dir then Some (Inr (), dir, c)
      else if \<exists>n. stops (readdir_n L n (dir_inner dir) c) then
        let n = (LEAST n. stops (readdir_n L n (dir_inner dir) c)) in
        case readdir_n L n (dir_inner dir) c of (err, i, d', c') \<Rightarrow>
          Some (wrap_errors () err,
            \<lparr>dir_inner = d',
             children = children dir @ List.map (nth_entry L (dir_inner dir) c) [0 ..< n],
             finished_reading_children = (err = FR_OK)\<rparr>, c')
      else None)"
proof (cases "finished_reading_children dir \<or> (\<nexists>n. stops (readdir_n L n (dir_inner dir) c))")
  case True
  then show ?thesis
    using load_loop_stops_iff [of L dir c] by (cases "load_loop L dir c") (auto simp: load_children_def)
next
  case False
  let ?n = "LEAST n. stops (readdir_n L n (dir_inner dir) c)"
  obtain err i d' c' where a: "readdir_n L ?n (dir_inner dir) c = (err, i, d', c')" by (metis prod_cases4)
  have "stops (readdir_n L ?n (dir_inner dir) c)" using False by (metis LeastI_ex)
  moreover have "\<forall>k < ?n. \<not> stops (readdir_n L k (dir_inner dir) c)" using not_less_Least by blast
  ultimately have "load_loop L dir c = Some (wrap_errors () err,
      dir\<lparr>dir_inner := d', children := children dir @ List.map (nth_entry L (dir_inner dir) c) [0 ..< ?n]\<rparr>, c')"
    using load_loop_stops [OF a] a by simp
  then show ?thesis using False a by (cases err) (simp_all add: load_children_def Let_def)
qed

section \<open>Iterating\<close>

text \<open>The results of the first \<open>n\<close> calls of \<open>next\<close>.\<close>

fun next_n :: "nat \<Rightarrow> sys_dir_iter \<Rightarrow> dir_entry_data option list \<times> sys_dir_iter" where
  "next_n 0 it = ([], it)"
| "next_n (Suc n) it =
     (case sys_dir_iter_next it of (r, it1) \<Rightarrow> (case next_n n it1 of (rs, it2) \<Rightarrow> (r # rs, it2)))"

lemma next_n_from:
  assumes "i + n < 2 ^ 64"
  shows "fst (next_n n \<lparr>items = its, iter_idx = of_nat i\<rparr>)
    = List.map (\<lambda>j. if j < length its then Some (its ! j) else None) [i ..< i + n]"
  using assms
proof (induction n arbitrary: i)
  case (Suc n)
  have "unat (of_nat i :: usize) = i"
    using Suc.prems by (simp add: unsigned_of_nat take_bit_nat_eq_self_iff)
  moreover have "(of_nat i + 1 :: usize) = of_nat (Suc i)" by simp
  ultimately show ?case
    using Suc.IH [of "Suc i"] Suc.prems
    by (simp add: sys_dir_iter_next_def Let_def upt_rec [of i "Suc (i + n)"] case_prod_unfold
        del: upt_Suc of_nat_Suc)
qed simp

text \<open>
  C23: A directory that was not read yet: \<open>iter\<close> loads every entry the library lists from there,
  its iterator yields them in order and \<open>None\<close> ever after, and a second \<open>iter\<close> yields the same
  entries without a call to the library (a change of the directory is not seen).
\<close>

theorem sys_dir_lists_all:
  assumes "listing L (dir_inner dir) c es d' c'" "\<not> finished_reading_children dir"
    and "n < 2 ^ 64"
  shows "\<exists>it dir'. sys_dir_iter_of L dir c = Some (it, dir', c')
    \<and> fst (next_n n it) = List.map (\<lambda>j. if j < length (children dir @ es)
         then Some ((children dir @ es) ! j) else None) [0 ..< n]
    \<and> (\<forall>c2. sys_dir_iter_of L dir' c2 = Some (it, dir', c2))"
proof -
  let ?it = "sys_dir_iter_new (children dir @ es)"
  let ?dir = "dir\<lparr>dir_inner := d', children := children dir @ es, finished_reading_children := True\<rparr>"
  have "sys_dir_iter_of L dir c = Some (?it, ?dir, c')"
    using load_loop_listing [OF assms(1) refl] assms(2)
    by (simp add: sys_dir_iter_of_def load_children_def)
  moreover have "fst (next_n n ?it) = List.map (\<lambda>j. if j < length (children dir @ es)
      then Some ((children dir @ es) ! j) else None) [0 ..< n]"
    using next_n_from [of 0 n "children dir @ es"] assms(3) by (simp add: sys_dir_iter_new_def)
  moreover have "\<forall>c2. sys_dir_iter_of L ?dir c2 = Some (?it, ?dir, c2)"
    by (simp add: sys_dir_iter_of_def load_children_def)
  ultimately show ?thesis by blast
qed

text \<open>A library that lists two files; its directory object is the list still to come.\<close>

definition two_files :: "filinfo list" where
  "two_files = [\<lparr>fsize = 5, fattrib = 0x20, fname = [0x41, 0]\<rparr>, \<lparr>fsize = 7, fattrib = 1, fname = [0x42, 0]\<rparr>]"

definition list_sys :: "(u32, filinfo list, unit) fatfs_sys" where
  "list_sys = \<lparr>
     f_read = (\<lambda>f mem n c. (FR_OK, 0, mem, f, c)), f_write = (\<lambda>f mem n c. (FR_OK, 0, f, c)),
     f_lseek = (\<lambda>f p c. (FR_OK, p, c)), f_sync = (\<lambda>f c. (FR_OK, f, c)),
     f_truncate = (\<lambda>f c. (FR_OK, f, c)), f_close = (\<lambda>f c. c), fptr = id, objsize = (\<lambda>_. 100),
     f_open = (\<lambda>p m c. (FR_OK, 0, c)), f_opendir = (\<lambda>p c. (FR_OK, two_files, c)),
     f_closedir = (\<lambda>d c. c),
     f_readdir = (\<lambda>d c. case d of [] \<Rightarrow> (FR_OK, \<lparr>fsize = 0, fattrib = 0, fname = [0]\<rparr>, [], c)
        | i # is \<Rightarrow> (FR_OK, i, is, c)),
     f_mkdir = (\<lambda>p c. (FR_OK, c)), f_unlink = (\<lambda>p c. (FR_OK, c)),
     FA_OPEN_EXISTING = 0, FA_CREATE_NEW = 4\<rparr>"

lemma list_sys_listing:
  "listing list_sys two_files () (List.map sys_entry two_files) [] ()"
  unfolding two_files_def list.map
  by (rule listing_entry, simp add: list_sys_def, simp)+ (rule listing_end, simp add: list_sys_def, simp)

theorem sys_dir_lists_all_witness:
  "\<exists>it dir'. sys_dir_iter_of list_sys (from_inner two_files) () = Some (it, dir', ())
    \<and> fst (next_n 3 it) = List.map Some (List.map sys_entry two_files) @ [None]"
  using sys_dir_lists_all [of list_sys "from_inner two_files" "()" "List.map sys_entry two_files" "[]" "()" 3]
    list_sys_listing
  by (auto simp: from_inner_def two_files_def upt_rec)

section \<open>Libraries that fail or never end\<close>

definition failing_sys :: "(u32, filinfo list, unit) fatfs_sys" where
  "failing_sys = list_sys\<lparr>f_readdir := (\<lambda>d c. case d of
     [] \<Rightarrow> (FR_OTHER 1, \<lparr>fsize = 0, fattrib = 0, fname = [0]\<rparr>, [], c) | i # is \<Rightarrow> (FR_OK, i, is, c))\<rparr>"

definition endless_sys :: "(u32, filinfo list, unit) fatfs_sys" where
  "endless_sys = list_sys\<lparr>f_readdir := (\<lambda>d c. (FR_OK, hd two_files, d, c))\<rparr>"

lemma endless_answers: "readdir_n endless_sys n d c = (FR_OK, hd two_files, d, c)"
  by (induction n) (simp_all add: endless_sys_def)

lemma readdir_2: "readdir_n L 2 d c = (case readdir_n L 1 d c of (err, i, d1, c1) \<Rightarrow> f_readdir L d1 c1)"
  by (simp add: numeral_2_eq_2 split: prod.split)

lemma second_stops:
  assumes "stops (r 2)" "\<not> stops (r 0)" "\<not> stops (r 1)"
  shows "(LEAST n. stops (r n)) = (2 :: nat)"
proof (rule Least_equality [where P = "\<lambda>n. stops (r n)", OF assms(1)])
  show "2 \<le> n" if "stops (r n)" for n
  proof (rule ccontr)
    assume "\<not> 2 \<le> n"
    then have "n = 0 \<or> n = 1" by linarith
    with that assms(2,3) show False by auto
  qed
qed

theorem load_children_spec_witness:
  "load_children list_sys (from_inner two_files) ()
      = Some (Inr (), \<lparr>dir_inner = [], children = List.map sys_entry two_files, finished_reading_children = True\<rparr>, ())
    \<and> load_children failing_sys (from_inner two_files) ()
      = Some (Inl (io_error_from Other),
          \<lparr>dir_inner = [], children = List.map sys_entry two_files, finished_reading_children = False\<rparr>, ())
    \<and> load_children endless_sys (from_inner two_files) () = None"
proof -
  have good: "stops (readdir_n list_sys 2 two_files ())" "\<not> stops (readdir_n list_sys 0 two_files ())"
    "\<not> stops (readdir_n list_sys 1 two_files ())"
    by (simp_all add: list_sys_def two_files_def stops_def readdir_2)
  have bad: "stops (readdir_n failing_sys 2 two_files ())" "\<not> stops (readdir_n failing_sys 0 two_files ())"
    "\<not> stops (readdir_n failing_sys 1 two_files ())"
    by (simp_all add: failing_sys_def list_sys_def two_files_def stops_def readdir_2)
  have never: "\<not> stops (readdir_n endless_sys n two_files ())" for n
    by (simp add: endless_answers stops_def two_files_def)
  note n = second_stops [of "\<lambda>n. readdir_n list_sys n two_files ()", OF good]
    second_stops [of "\<lambda>n. readdir_n failing_sys n two_files ()", OF bad]
  have "\<exists>n. stops (readdir_n list_sys n two_files ())" "\<exists>n. stops (readdir_n failing_sys n two_files ())"
    using good(1) bad(1) by blast+
  then show ?thesis
    unfolding load_children_spec
    by (simp add: n never from_inner_def nth_entry_def readdir_2 upt_rec)
      (simp add: failing_sys_def list_sys_def two_files_def)
qed

section \<open>Entry names\<close>

lemma yielded_name:
  assumes "yielded e"
  shows "utf8_valid (de_name e) \<and> 0 \<notin> set (de_name e) \<and> de_name e \<noteq> []"
proof -
  obtain i where i: "e = sys_entry i" "takeWhile (\<lambda>b. b \<noteq> 0) (fname i) \<noteq> []"
    using assms by (auto simp: yielded_def)
  have "0 \<notin> set (takeWhile (\<lambda>b. b \<noteq> 0) (fname i))" by (auto dest: set_takeWhileD)
  with utf8_lossy_str [of "takeWhile (\<lambda>b. b \<noteq> 0) (fname i)"] i show ?thesis by (auto simp: sys_entry_def)
qed

lemma load_children_yielded:
  assumes "load_children L (from_inner d) c = Some (r, dir', c')" "e \<in> set (children dir')"
  shows "yielded e"
proof -
  obtain q dir1 where "load_loop L (from_inner d) c = Some (q, dir1, c')" "children dir' = children dir1"
    using assms(1) by (auto simp: load_children_def from_inner_def split: option.splits sum.splits)
  with load_loop_ends [of L "from_inner d" c q dir1 c'] assms(2) show ?thesis by (auto simp: from_inner_def)
qed

text \<open>
  C24: Every name that the listing of a freshly opened FatFs directory yields is a string: whatever
  bytes the library reads off the drive, the name is valid UTF-8, is not empty and has no NUL, so
  each operation on a path (open and create, of a file or a directory, and remove) takes it as a
  C string and hands exactly its bytes to the library's function.
\<close>

theorem listed_names_are_paths:
  assumes "sys_dir_iter_of L (from_inner d) c = Some (it, dir', c')"
    and "sys_dir_iter_next (it\<lparr>iter_idx := k\<rparr>) = (Some e, it')"
  shows "utf8_valid (de_name e) \<and> de_name e \<noteq> [] \<and> cstring_new (de_name e) = Inr (de_name e)
    \<and> open_file L (de_name e) c2 = (case f_open L (de_name e) (FA_OPEN_EXISTING L) c2 of
        (err, fil, c3) \<Rightarrow> (wrap_errors fil err, if err = FR_OK then c3 else f_close L fil c3))
    \<and> create_file L (de_name e) c2 = (case f_open L (de_name e) (FA_CREATE_NEW L) c2 of
        (err, fil, c3) \<Rightarrow> (wrap_errors fil err, if err = FR_OK then c3 else f_close L fil c3))
    \<and> open_directory L (de_name e) c2 = (case f_opendir L (de_name e) c2 of
        (err, d3, c3) \<Rightarrow> (wrap_errors (from_inner d3) err, if err = FR_OK then c3 else f_closedir L d3 c3))
    \<and> create_directory L (de_name e) c2 = (case f_mkdir L (de_name e) c2 of
        (err, c3) \<Rightarrow> if err = FR_OK then open_directory L (de_name e) c3
                     else (wrap_errors any err, c3))
    \<and> remove_path L (de_name e) c2 = (case f_unlink L (de_name e) c2 of (err, c3) \<Rightarrow> (wrap_errors () err, c3))"
proof -
  obtain r where r: "load_children L (from_inner d) c = Some (r, dir', c')" "it = sys_dir_iter_new (children dir')"
    using assms(1) by (auto simp: sys_dir_iter_of_def split: option.splits)
  have child: "e \<in> set (children dir')"
    using assms(2) r(2) by (auto simp: sys_dir_iter_next_def sys_dir_iter_new_def Let_def split: if_splits)
  have name: "cstring_new (de_name e) = Inr (de_name e)" "utf8_valid (de_name e)" "de_name e \<noteq> []"
    using yielded_name [OF load_children_yielded [OF r(1) child]] by (simp_all add: cstring_new_def)
  have "open_file_mode L m (de_name e) c2 = (case f_open L (de_name e) m c2 of
      (err, fil, c3) \<Rightarrow> (wrap_errors fil err, if err = FR_OK then c3 else f_close L fil c3))" for m
    by (simp add: open_file_mode_def name sys_file_drop_def split: prod.split)
  moreover have "open_directory L (de_name e) c2 = (case f_opendir L (de_name e) c2 of
      (err, d3, c3) \<Rightarrow> (wrap_errors (from_inner d3) err, if err = FR_OK then c3 else f_closedir L d3 c3))"
    by (simp add: open_directory_def name sys_dir_drop_def from_inner_def split: prod.split)
  moreover have "create_directory L (de_name e) c2 = (case f_mkdir L (de_name e) c2 of
      (err, c3) \<Rightarrow> if err = FR_OK then open_directory L (de_name e) c3 else (wrap_errors any err, c3))"
  proof -
    obtain err c3 where "f_mkdir L (de_name e) c2 = (err, c3)" by fastforce
    then show ?thesis by (cases err) (simp_all add: create_directory_def name)
  qed
  ultimately show ?thesis using name by (simp add: open_file_def create_file_def remove_path_def)
qed

text \<open>A name that is not UTF-8.\<close>

definition odd_file :: filinfo where
  "odd_file = \<lparr>fsize = 5, fattrib = 0x20, fname = [0x61, 0xE9, 0x62, 0, 0x63]\<rparr>"

lemma odd_listing: "listing list_sys [odd_file] () [sys_entry odd_file] [] ()"
  by (rule listing_entry, simp add: list_sys_def, simp add: odd_file_def)
    (rule listing_end, simp add: list_sys_def, simp)

theorem listed_names_are_paths_witness:
  "\<exists>it dir' e it'. sys_dir_iter_of list_sys (from_inner [odd_file]) () = Some (it, dir', ())
    \<and> sys_dir_iter_next (it\<lparr>iter_idx := 0\<rparr>) = (Some e, it')
    \<and> de_name e = [0x61, 0xEF, 0xBF, 0xBD, 0x62] \<and> utf8_valid (de_name e)"
proof -
  obtain it dir' where it: "sys_dir_iter_of list_sys (from_inner [odd_file]) () = Some (it, dir', ())"
    "it = sys_dir_iter_new [sys_entry odd_file]"
    using load_loop_listing [OF odd_listing, of "from_inner [odd_file]"]
    by (simp add: from_inner_def sys_dir_iter_of_def load_children_def)
  then have n: "sys_dir_iter_next (it\<lparr>iter_idx := 0\<rparr>) = (Some (sys_entry odd_file), it\<lparr>iter_idx := 1\<rparr>)"
    by (simp add: sys_dir_iter_next_def sys_dir_iter_new_def)
  have "de_name (sys_entry odd_file) = [0x61, 0xEF, 0xBF, 0xBD, 0x62]" by code_simp
  with listed_names_are_paths [OF it(1) n] it n show ?thesis by blast
qed

section \<open>Entry types\<close>

text \<open>What the flags of an iterator's entries satisfy.\<close>

fun low_flags :: "('i, sys_dir_iter) backend \<Rightarrow> bool" where
  "low_flags (Fatfs i) = True"
| "low_flags (FatfsSys i) = (\<forall>e \<in> set (items i). de_flags e < 256)"

definition low_children :: "'d sys_dir \<Rightarrow> bool" where
  "low_children dir \<longleftrightarrow> (\<forall>e \<in> set (children dir). de_flags e < 256)"

lemma low_flags_Unknown:
  assumes "de_flags e < 256"
  shows "entry_type e = Unknown"
proof -
  have "de_flags e AND 0xf000 = 0"
  proof (rule bit_word_eqI)
    fix n assume n: "n < LENGTH(64)"
    have "(0xf000 :: u64) = push_bit 12 (mask 4)" by (simp add: mask_eq_exp_minus_1)
    then have "bit (0xf000 :: u64) n \<Longrightarrow> 12 \<le> n" by (metis bit_push_bit_iff)
    moreover have "bit (de_flags e) n \<Longrightarrow> n < 8"
      using assms bit_below_exp [of "de_flags e" 8 n] by (simp add: word_less_nat_alt)
    ultimately show "bit (de_flags e AND 0xf000) n = bit (0 :: u64) n"
      by (fastforce simp: bit_and_iff)
  qed
  then show ?thesis by (simp add: entry_type_def entry_type_from_u8_def S_IF_defs)
qed

lemma load_children_low:
  assumes "low_children dir" "load_children L dir c = Some (r, dir', c')"
  shows "low_children dir'"
proof (cases "finished_reading_children dir")
  case False
  with assms(2) obtain q dir1 where "load_loop L dir c = Some (q, dir1, c')"
      "children dir' = children dir1"
    by (auto simp: load_children_def split: option.splits sum.splits)
  with load_loop_ends [of L dir c q dir1 c'] assms(1) show ?thesis
    by (auto simp: low_children_def dest: yielded_flags)
qed (use assms in \<open>auto simp: load_children_def\<close>)

text \<open>
  C40: The type of an entry is lost in both implementations: iterate any directory of the generic
  layer (freshly opened ones have no children), and every entry an iterator yields has the
  type \<open>Unknown\<close>, because neither implementation puts an \<open>S_IF\<close> code into the flags.
\<close>

theorem entry_types_unknown:
  assumes "low_children dir" "sys_dir_iter_of L dir c = Some (it, dir', c')"
  shows "low_children dir'
    \<and> (\<forall>k. case enum_iter_next inner_next (FatfsSys (it\<lparr>iter_idx := k\<rparr>)) of
         (Some e, it') \<Rightarrow> entry_type e = Unknown | (None, it') \<Rightarrow> True)
    \<and> (\<forall>i. case enum_iter_next inner_next (Fatfs i) of
         (Some e, it') \<Rightarrow> entry_type e = Unknown | (None, it') \<Rightarrow> True)"
proof -
  obtain r where r: "load_children L dir c = Some (r, dir', c')" "it = sys_dir_iter_new (children dir')"
    using assms(2) by (auto simp: sys_dir_iter_of_def split: option.splits)
  have low: "low_children dir'" by (rule load_children_low [OF assms(1) r(1)])
  have "entry_type (children dir' ! unat k) = Unknown" if "unat k < length (children dir')" for k :: usize
    using low that by (intro low_flags_Unknown) (simp add: low_children_def)
  then show ?thesis
    using low r(2) fatfs_entry_type_lost
    by (auto simp: sys_dir_iter_next_def sys_dir_iter_new_def fatfs_dir_iter_next_def
        split: option.splits prod.splits sum.splits)
qed

theorem entry_types_unknown_witness:
  "\<exists>it dir'. sys_dir_iter_of list_sys (from_inner two_files) () = Some (it, dir', ())
    \<and> low_children dir'"
proof -
  have "sys_dir_iter_of list_sys (from_inner two_files) ()
      \<noteq> None"
    using load_loop_listing [OF list_sys_listing, of "from_inner two_files"]
    by (simp add: from_inner_def sys_dir_iter_of_def load_children_def)
  then obtain it dir' where "sys_dir_iter_of list_sys (from_inner two_files) () = Some (it, dir', ())"
    by auto
  with entry_types_unknown [OF _ this, of "\<lambda>i :: unit. (None, i)"] show ?thesis
    by (simp add: low_children_def from_inner_def)
qed

section \<open>File positions\<close>

text \<open>
  A seek of a FatFs file cuts the position to 32 bits, as \<open>f_lseek\<close> takes a \<open>DWORD\<close>: two
  targets that differ by a multiple of 4 GiB are the same seek, from any base, and no error
  is reported for a target past 4 GiB or below 0.
\<close>

theorem sys_seek_modulo_4GiB:
  "sys_seek L (Start (p + 2 ^ 32 * k)) f c = sys_seek L (Start p) f c
    \<and> sys_seek L (Current (p + 2 ^ 32 * k)) f c = sys_seek L (Current p) f c
    \<and> sys_seek L (End (p + 2 ^ 32 * k)) f c = sys_seek L (End p) f c"
proof -
  have "ucast b + (p + 2 ^ 32 * k) = (ucast b + p) + 2 ^ 32 * k"
    "p + 2 ^ 32 * k + ucast b = (p + ucast b) + 2 ^ 32 * k" for b :: u32
    by simp_all
  then show ?thesis by (simp only: sys_seek_def Let_def seek_from.case ucast_add_multiple)
qed

end
