(* ===== verification/IoSupport.thy ===== *)
theory IoSupport
  imports UsbFs
begin

text \<open>
  \<open>src/capi_helpers/iosupport.rs\<close>, first half: the context behind the newlib device
  \<open>usbfs:\<close>, its three-stage mount (service, drive, partition), and the registration with
  newlib. \<open>UsbFs\<close> models the libnx and \<open>scsi\<close> calls both halves of the C interface use.
\<close>

section \<open>The context\<close>

datatype ('dev, 'fs) client_state =
    Uninitialized
  | Acquired usb_interface 'dev
  | Opened usb_interface 'fs partition_entry

record ('u, 'dev, 'fs) newlib_context =
  nl_usb_hs_ctx :: "'u option"
  client_state :: "('dev, 'fs) client_state"
  current_working_directory :: "rstr option"

definition newlib_context_new :: "('u, 'dev, 'fs) newlib_context" where
  "newlib_context_new =
     \<lparr>nl_usb_hs_ctx = None, client_state = Uninitialized, current_working_directory = None\<rparr>"

text \<open>What a state owns is dropped with it; of the objects here only a file system acts on its drop.\<close>

fun drop_client_state ::
  "('w, 'fs, 'f, 'd, 'it) fat_crate \<Rightarrow> ('dev, 'fs) client_state \<Rightarrow> 'w \<Rightarrow> 'w" where
  "drop_client_state C (Opened _ fs _) w = fc_drop_fs C fs w"
| "drop_client_state C _ w = w"

definition init_usb_hs_ctx ::
  "('w, 'u, 'info, 'evt, 'h, 'ep, 'dev, 'fs) usb_sys \<Rightarrow> ('u, 'dev, 'fs) newlib_context \<Rightarrow> 'w
     \<Rightarrow> (u32 + unit) \<times> ('u, 'dev, 'fs) newlib_context \<times> 'w" where
  "init_usb_hs_ctx U ctx w =
     (if nl_usb_hs_ctx ctx \<noteq> None then (Inr (), ctx, w)
      else case us_initialize U w of
        (Inl e, w1) \<Rightarrow> (Inl (libnx_error_map e), ctx, w1)
      | (Inr newctx, w1) \<Rightarrow> (Inr (), ctx\<lparr>nl_usb_hs_ctx := Some newctx\<rparr>, w1))"

section \<open>Acquiring the drive\<close>

text \<open>
  Everything from the new session on: a client on its endpoints and a block device on that.
\<close>

definition build_client ::
  "('w, 'u, 'info, 'evt, 'h, 'ep, 'dev, 'fs) usb_sys \<Rightarrow> 'h \<Rightarrow> 'w \<Rightarrow> (u32 + 'dev) exec \<times> 'w" where
  "build_client U session w =
     (case retrieve_iface_endpoints (from_msg (us_api U)) (us_interface U session) of
        Inl e \<Rightarrow> (Err (libnx_error_map e), w)
      | Inr (read_ep, write_ep) \<Rightarrow>
        (case usb_client_new (us_api U) session read_ep write_ep of
           Inl e \<Rightarrow> (Err (libnx_error_map e), w)
         | Inr client \<Rightarrow>
           (case vec_new of
              Panic \<Rightarrow> (Panic, w)
            | Ret v \<Rightarrow>
              (case us_new_scsi U client v v v w of
                 (Inl e, w1) \<Rightarrow> (Err (scsi_error_map e), w1)
               | (Inr dev, w1) \<Rightarrow> (Ok dev, w1)))))"

text \<open>
  The first \<open>match\<close> of the source binds the name \<open>Uninitialized\<close> instead of testing for the
  variant, so its first arm is taken in every state and the method goes on; it leaves no trace
  here. The old state is dropped when the new one is stored.
\<close>

definition nl_wait_for_usb_drive ::
  "('w, 'fs, 'f, 'd, 'it) fat_crate \<Rightarrow> ('w, 'u, 'info, 'evt, 'h, 'ep, 'dev, 'fs) usb_sys \<Rightarrow> u64
     \<Rightarrow> ('u, 'dev, 'fs) newlib_context \<Rightarrow> 'w
     \<Rightarrow> (u32 + unit) exec \<times> ('u, 'dev, 'fs) newlib_context \<times> 'w" where
  "nl_wait_for_usb_drive C U timeout ctx w =
     (case nl_usb_hs_ctx ctx of
        None \<Rightarrow> (Err NX_FATDRIVE_ERR_NOT_INITIALIZED, ctx, w)
      | Some u \<Rightarrow>
        (case us_event_create U bulk_only_filter w of
           (Inl e, w1) \<Rightarrow> (Err (libnx_error_map e), ctx, w1)
         | (Inr evt, w1) \<Rightarrow>
           (case us_event_wait U evt timeout w1 of
              (Inl e, w2) \<Rightarrow> (Err (libnx_error_map e), ctx, w2)
            | (Inr _, w2) \<Rightarrow>
              (case us_query_available U u bulk_only_filter 3 w2 of
                 (Inl e, w3) \<Rightarrow> (Err (libnx_error_map e), ctx, w3)
               | (Inr ifaces, w3) \<Rightarrow>
                 (if ifaces = [] then (Err NX_FATDRIVE_ERR_DRIVE_NOT_FOUND, ctx, w3)
                  else case us_acquire U u (last ifaces) w3 of
                    (Inl e, w4) \<Rightarrow> (Err (libnx_error_map e), ctx, w4)
                  | (Inr session, w4) \<Rightarrow>
                    (case build_client U session w4 of
                       (Panic, w5) \<Rightarrow> (Panic, ctx, w5)
                     | (Err e, w5) \<Rightarrow> (Err e, ctx, w5)
                     | (Ok dev, w5) \<Rightarrow>
                         (Ok (), ctx\<lparr>client_state := Acquired (last ifaces) dev\<rparr>,
                          drop_client_state C (client_state ctx) w5)))))))"

section \<open>Opening a partition\<close>

text \<open>The loop over the boot sector is the one of \<open>usbfs.rs\<close>; \<open>None\<close> is the endless loop.\<close>

definition get_partitions ::
  "('w, 'u, 'info, 'evt, 'h, 'ep, 'dev, 'fs) usb_sys \<Rightarrow> ('u, 'dev, 'fs) newlib_context
     \<Rightarrow> ((u32 + partition_entry list) exec \<times> ('u, 'dev, 'fs) newlib_context) option" where
  "get_partitions U ctx =
     (case client_state ctx of
        Opened _ _ _ \<Rightarrow> Some (Err NX_FATDRIVE_ERR_UNKNOWN, ctx)
      | Uninitialized \<Rightarrow> Some (Err NX_FATDRIVE_ERR_NOT_INITIALIZED, ctx)
      | Acquired iface dev \<Rightarrow>
        (case with_fake_capacity (max 512 (ucast (op_block_size (us_scsi U) dev))) of
           Panic \<Rightarrow> Some (Panic, ctx)
         | Ret mbr_buff \<Rightarrow>
           (case mbr_loop (us_scsi U) dev mbr_buff of
              None \<Rightarrow> None
            | Some (Inl e, dev1, _) \<Rightarrow>
                Some (Err (scsi_error_map e), ctx\<lparr>client_state := Acquired iface dev1\<rparr>)
            | Some (Inr _, dev1, v) \<Rightarrow>
                Some (Ret (map_err mbr_error_map (us_parse_mbr U (inner v))),
                  ctx\<lparr>client_state := Acquired iface dev1\<rparr>))))"

text \<open>
  From the moment the drive is taken out of the context, an early return drops it and leaves
  \<open>Uninitialized\<close>. The partition offset is the wrapping product of two \<open>u32\<close>.
\<close>

definition mount_taken ::
  "('w, 'u, 'info, 'evt, 'h, 'ep, 'dev, 'fs) usb_sys \<Rightarrow> usb_interface \<Rightarrow> 'dev \<Rightarrow> partition_entry list \<Rightarrow> nat
     \<Rightarrow> ('u, 'dev, 'fs) newlib_context \<Rightarrow> 'w
     \<Rightarrow> (u32 + unit) exec \<times> ('u, 'dev, 'fs) newlib_context \<times> 'w" where
  "mount_taken U iface dev partition_list idx ctx w =
     (if idx \<ge> length partition_list then (Err NX_FATDRIVE_ERR_UNKNOWN, ctx, w)
      else
        (let ent = partition_list ! idx;
             raw_offset = ucast (logical_block_address ent * op_block_size (us_scsi U) dev)
         in case offset_scsi_new (us_scsi U) dev raw_offset of
              Panic \<Rightarrow> (Panic, ctx, w)
            | Ret part \<Rightarrow>
              (case us_new_fs U part w of
                 (Inl e, w1) \<Rightarrow> (Err (io_error_map e), ctx, w1)
               | (Inr fs, w1) \<Rightarrow> (Ok (), ctx\<lparr>client_state := Opened iface fs ent\<rparr>, w1))))"

definition nl_open_partition ::
  "('w, 'fs, 'f, 'd, 'it) fat_crate \<Rightarrow> ('w, 'u, 'info, 'evt, 'h, 'ep, 'dev, 'fs) usb_sys \<Rightarrow> nat
     \<Rightarrow> ('u, 'dev, 'fs) newlib_context \<Rightarrow> 'w
     \<Rightarrow> ((u32 + unit) exec \<times> ('u, 'dev, 'fs) newlib_context \<times> 'w) option" where
  "nl_open_partition C U idx ctx w =
     (case get_partitions U ctx of
        None \<Rightarrow> None
      | Some (Panic, ctx1) \<Rightarrow> Some (Panic, ctx1, w)
      | Some (Err e, ctx1) \<Rightarrow> Some (Err e, ctx1, w)
      | Some (Ok partition_list, ctx1) \<Rightarrow>
          (let taken = ctx1\<lparr>client_state := Uninitialized\<rparr> in
           case client_state ctx1 of
             Acquired iface dev \<Rightarrow> Some (mount_taken U iface dev partition_list idx taken w)
           | st \<Rightarrow> Some (Err NX_FATDRIVE_ERR_UNKNOWN, taken, drop_client_state C st w)))"

section \<open>The device table of newlib\<close>

text \<open>The handlers of the table, one per function of the file.\<close>

datatype handler =
    H_open_r | H_close_r | H_write_r | H_read_r | H_seek_r | H_fstat_r | H_stat_r | H_link_r
  | H_unlink_r | H_chdir_r | H_rename_r | H_mkdir_r | H_diropen_r | H_dirreset_r | H_dirnext_r
  | H_dirclose_r | H_stat_vfs_r | H_ftruncate_r | H_fsync_r | H_chmod_r | H_fchmod_r
  | H_rmdir_r | H_lstat_r | H_utimes_r

text \<open>\<open>deviceData\<close> is an address, 0 when null.\<close>

record devoptab =
  dt_name :: bytes
  structSize :: usize
  open_r :: "handler option"
  close_r :: "handler option"
  write_r :: "handler option"
  read_r :: "handler option"
  seek_r :: "handler option"
  fstat_r :: "handler option"
  stat_r :: "handler option"
  link_r :: "handler option"
  unlink_r :: "handler option"
  chdir_r :: "handler option"
  rename_r :: "handler option"
  mkdir_r :: "handler option"
  dirStateSize :: usize
  diropen_r :: "handler option"
  dirreset_r :: "handler option"
  dirnext_r :: "handler option"
  dirclose_r :: "handler option"
  statvfs_r :: "handler option"
  ftruncate_r :: "handler option"
  fsync_r :: "handler option"
  deviceData :: nat
  chmod_r :: "handler option"
  fchmod_r :: "handler option"
  rmdir_r :: "handler option"
  lstat_r :: "handler option"
  utimes_r :: "handler option"

text \<open>\<open>usbfs\<close>, without a terminating zero.\<close>

definition device_name :: bytes where
  "device_name = [0x75, 0x73, 0x62, 0x66, 0x73]"

text \<open>The sizes of the two structures depend on the layout of the crate's types: parameters.\<close>

definition nxfatdrive_devoptab :: "usize \<Rightarrow> usize \<Rightarrow> devoptab" where
  "nxfatdrive_devoptab file_struct_size dir_state_size = \<lparr>
     dt_name = device_name, structSize = file_struct_size,
     open_r = Some H_open_r, close_r = Some H_close_r, write_r = Some H_write_r,
     read_r = Some H_read_r, seek_r = Some H_seek_r, fstat_r = Some H_fstat_r,
     stat_r = Some H_stat_r, link_r = Some H_link_r, unlink_r = Some H_unlink_r,
     chdir_r = Some H_chdir_r, rename_r = Some H_rename_r, mkdir_r = Some H_mkdir_r,
     dirStateSize = dir_state_size,
     diropen_r = Some H_diropen_r, dirreset_r = Some H_dirreset_r, dirnext_r = Some H_dirnext_r,
     dirclose_r = Some H_dirclose_r, statvfs_r = Some H_stat_vfs_r,
     ftruncate_r = Some H_ftruncate_r, fsync_r = Some H_fsync_r, deviceData = 0,
     chmod_r = Some H_chmod_r, fchmod_r = Some H_fchmod_r, rmdir_r = Some H_rmdir_r,
     lstat_r = Some H_lstat_r, utimes_r = Some H_utimes_r\<rparr>"

text \<open>
  What the code calls of newlib: the registry is part of the world. \<open>na_get\<close> is the table a
  name leads to, if any.
\<close>

record 'w newlib_api =
  na_add :: "devoptab \<Rightarrow> 'w \<Rightarrow> i32 \<times> 'w"
  na_remove :: "bytes \<Rightarrow> 'w \<Rightarrow> i32 \<times> 'w"
  na_get :: "bytes \<Rightarrow> 'w \<Rightarrow> devoptab option"

section \<open>The heap of contexts\<close>

text \<open>
  Boxed contexts: \<open>Box::into_raw\<close> gives the next address, \<open>Box::from_raw\<close> takes the context
  out and leaves a freed cell.
\<close>

type_synonym ('u, 'dev, 'fs) ctx_heap = "('u, 'dev, 'fs) newlib_context option list"

definition into_raw ::
  "('u, 'dev, 'fs) newlib_context \<Rightarrow> ('u, 'dev, 'fs) ctx_heap \<Rightarrow> nat \<times> ('u, 'dev, 'fs) ctx_heap" where
  "into_raw ctx hp = (Suc (length hp), hp @ [Some ctx])"

definition deref :: "('u, 'dev, 'fs) ctx_heap \<Rightarrow> nat \<Rightarrow> ('u, 'dev, 'fs) newlib_context option" where
  "deref hp p = (if 0 < p \<and> p \<le> length hp then hp ! (p - 1) else None)"

definition free_raw :: "nat \<Rightarrow> ('u, 'dev, 'fs) ctx_heap \<Rightarrow> ('u, 'dev, 'fs) ctx_heap" where
  "free_raw p hp = hp[p - 1 := None]"

text \<open>The outer option: following a pointer to a freed context is undefined.\<close>

definition get_global ::
  "'w newlib_api \<Rightarrow> ('u, 'dev, 'fs) ctx_heap \<Rightarrow> 'w \<Rightarrow> (u32 + ('u, 'dev, 'fs) newlib_context) option" where
  "get_global N hp w =
     (case na_get N device_name w of
        None \<Rightarrow> Some (Inl NX_FATDRIVE_ERR_NOT_INITIALIZED)
      | Some d \<Rightarrow>
          if deviceData d = 0 then Some (Inl NX_FATDRIVE_ERR_UNKNOWN)
          else map_option Inr (deref hp (deviceData d)))"

text \<open>Dropping a context: its fields in the order of their declaration.\<close>

definition drop_context ::
  "('w, 'fs, 'f, 'd, 'it) fat_crate \<Rightarrow> ('w, 'u, 'info, 'evt, 'h, 'ep, 'dev, 'fs) usb_sys
     \<Rightarrow> ('u, 'dev, 'fs) newlib_context \<Rightarrow> 'w \<Rightarrow> 'w" where
  "drop_context C U ctx w =
     drop_client_state C (client_state ctx)
       (case nl_usb_hs_ctx ctx of None \<Rightarrow> w | Some u \<Rightarrow> us_drop_ctx U u w)"

text \<open>
  An error of a stage drops the context; after the last one the code of \<open>AddDevice\<close> is
  returned as it is. The outer option is the boot-sector loop that does not end.
\<close>

definition nxFatdriveMount ::
  "('w, 'fs, 'f, 'd, 'it) fat_crate \<Rightarrow> ('w, 'u, 'info, 'evt, 'h, 'ep, 'dev, 'fs) usb_sys \<Rightarrow> 'w newlib_api
     \<Rightarrow> usize \<Rightarrow> usize \<Rightarrow> ('u, 'dev, 'fs) ctx_heap \<Rightarrow> 'w
     \<Rightarrow> (u32 exec \<times> ('u, 'dev, 'fs) ctx_heap \<times> 'w) option" where
  "nxFatdriveMount C U N fsize dsize hp w =
     (case init_usb_hs_ctx U newlib_context_new w of
        (Inl e, ctx, w1) \<Rightarrow> Some (Ret (u32_map e), hp, drop_context C U ctx w1)
      | (Inr _, ctx, w1) \<Rightarrow>
        (case nl_wait_for_usb_drive C U 0x800000 ctx w1 of
           (Panic, ctx1, w2) \<Rightarrow> Some (Panic, hp, drop_context C U ctx1 w2)
         | (Err e, ctx1, w2) \<Rightarrow> Some (Ret (u32_map e), hp, drop_context C U ctx1 w2)
         | (Ok _, ctx1, w2) \<Rightarrow>
           (case nl_open_partition C U 0 ctx1 w2 of
              None \<Rightarrow> None
            | Some (Panic, ctx2, w3) \<Rightarrow> Some (Panic, hp, drop_context C U ctx2 w3)
            | Some (Err e, ctx2, w3) \<Rightarrow> Some (Ret (u32_map e), hp, drop_context C U ctx2 w3)
            | Some (Ok _, ctx2, w3) \<Rightarrow>
                (case into_raw ctx2 hp of
                   (p, hp1) \<Rightarrow>
                     (case na_add N ((nxfatdrive_devoptab fsize dsize)\<lparr>deviceData := p\<rparr>) w3 of
                        (add_err, w4) \<Rightarrow> Some (Ret add_err, hp1, w4))))))"

text \<open>
  The pointers are not checked: without a registered device, or with one whose context was
  freed, the outcome is undefined (\<open>None\<close>). The context is dropped at the end of the function,
  whatever \<open>RemoveDevice\<close> answers. So is the box of the device itself; the heap here holds contexts
  only, and all that the code reads of the device is the pointer to its context.
\<close>

definition nxFatdriveUnmount ::
  "('w, 'fs, 'f, 'd, 'it) fat_crate \<Rightarrow> ('w, 'u, 'info, 'evt, 'h, 'ep, 'dev, 'fs) usb_sys \<Rightarrow> 'w newlib_api
     \<Rightarrow> ('u, 'dev, 'fs) ctx_heap \<Rightarrow> 'w \<Rightarrow> (u32 \<times> ('u, 'dev, 'fs) ctx_heap \<times> 'w) option" where
  "nxFatdriveUnmount C U N hp w =
     (case na_get N device_name w of
        None \<Rightarrow> None
      | Some d \<Rightarrow>
        (case deref hp (deviceData d) of
           None \<Rightarrow> None
         | Some ctx \<Rightarrow>
             (case na_remove N device_name w of
                (rem_err, w1) \<Rightarrow>
                  Some (if rem_err \<noteq> 0 then rem_err else 0,
                    free_raw (deviceData d) hp, drop_context C U ctx w1))))"

end
