(* ===== verification/NewlibFiles.thy ===== *)
theory NewlibFiles
  imports IoSupport
begin

text \<open>
  \<open>src/capi_helpers/iosupport.rs\<close>, second half: the handlers newlib calls on the device, with
  the structures of \<open>iosupport_bindings.rs\<close>. A handler gets the reentrancy structure, of which
  it sets the \<open>errno\<close>; a pointer argument is the object behind it, or nothing when null.
\<close>

section \<open>Structures\<close>

record reent =
  errno :: i32

definition ERRNO_ENOENT :: i32 where "ERRNO_ENOENT = 2"
definition ERRNO_ENOSYS :: i32 where "ERRNO_ENOSYS = 88"
definition NX_FATDRIVE_NAME_MAX :: nat where "NX_FATDRIVE_NAME_MAX = 255"

text \<open>\<open>DirEntry\<close> objects of the crate have type \<open>'ent\<close>; \<open>'date\<close> is a date of the crate.\<close>

record 'date fat_datetime =
  dt_date :: 'date
  dt_hour :: u16
  dt_min :: u16
  dt_sec :: u16
  dt_millis :: u16

record ('w, 'd, 'f, 'ent, 'date) entry_ops =
  e_data :: "'ent \<Rightarrow> fat_dirent"
  e_to_file :: "'ent \<Rightarrow> 'f"
  e_to_dir :: "'ent \<Rightarrow> 'd"
  e_rename :: "'d \<Rightarrow> rstr \<Rightarrow> 'd \<Rightarrow> rstr \<Rightarrow> 'w \<Rightarrow> (io_error + unit) \<times> 'w"
  e_accessed :: "fat_dirent \<Rightarrow> 'date"
  e_created :: "fat_dirent \<Rightarrow> 'date fat_datetime"
  e_modified :: "fat_dirent \<Rightarrow> 'date fat_datetime"

record 'ent file_struct =
  fatfl :: 'ent
  offset :: u64

record 'ent dir_struct =
  dir :: 'ent
  index :: usize

text \<open>The memory behind \<open>dirStruct\<close>: all zero, or an initialised structure (which is not).\<close>

datatype 'ent dir_mem = Zeroed | Dir "'ent dir_struct"

record 'ent dir_iter_t =
  di_device :: i32
  dirStruct :: "'ent dir_mem option"

record stat_t =
  st_dev :: u16
  st_ino :: u16
  st_mode :: u32
  st_nlink :: u16
  st_uid :: u16
  st_gid :: u16
  st_rdev :: u16
  st_size :: u64
  st_atime :: u64
  st_mtime :: u64
  st_ctime :: u64
  st_blksize :: u64
  st_blocks :: u64

definition stat_default :: stat_t where
  "stat_default = \<lparr>st_dev = 0, st_ino = 0, st_mode = 0, st_nlink = 0, st_uid = 0, st_gid = 0,
     st_rdev = 0, st_size = 0, st_atime = 0, st_mtime = 0, st_ctime = 0, st_blksize = 0, st_blocks = 0\<rparr>"

text \<open>The constants of \<open>impl stat\<close>, in octal in the source.\<close>

definition OWNER_READ :: u32 where "OWNER_READ = 0x1C0"
definition OWNER_WRITE :: u32 where "OWNER_WRITE = 0x100"
definition OWNER_EXEC :: u32 where "OWNER_EXEC = 0x80"
definition GROUP_READ :: u32 where "GROUP_READ = 0x38"
definition GROUP_WRITE :: u32 where "GROUP_WRITE = 0x20"
definition GROUP_EXEC :: u32 where "GROUP_EXEC = 0x10"
definition OTHER_READ :: u32 where "OTHER_READ = 7"
definition OTHER_WRITE :: u32 where "OTHER_WRITE = 4"
definition OTHER_EXEC :: u32 where "OTHER_EXEC = 2"
definition STAT_DIRECTORY :: u32 where "STAT_DIRECTORY = 0x4000"
definition STAT_FILE :: u32 where "STAT_FILE = 0x8000"

lemmas stat_bits = OWNER_READ_def OWNER_WRITE_def OWNER_EXEC_def GROUP_READ_def GROUP_WRITE_def
  GROUP_EXEC_def OTHER_READ_def OTHER_WRITE_def OTHER_EXEC_def STAT_DIRECTORY_def STAT_FILE_def

section \<open>Status of an entry\<close>

text \<open>\<open>unimplemented!()\<close>.\<close>

definition fat_time_to_unix :: "'date fat_datetime \<Rightarrow> u64 exec" where
  "fat_time_to_unix t = Panic"

definition path_to_dirent :: "'fs \<Rightarrow> rstr \<Rightarrow> 'ent exec" where
  "path_to_dirent fs path = Panic"

definition mode_bits :: "fat_dirent \<Rightarrow> u32" where
  "mode_bits ent =
     (let read_bits = OWNER_READ OR GROUP_READ OR OTHER_READ;
          write_bits = (if attr_read_only ent then 0 else OWNER_WRITE OR GROUP_WRITE OR OTHER_WRITE);
          exec_bits = OWNER_EXEC OR GROUP_EXEC OR OTHER_EXEC;
          type_bits = (if attr_directory ent then STAT_DIRECTORY else STAT_FILE)
      in read_bits OR write_bits OR exec_bits OR type_bits)"

text \<open>The fields set before the times are converted.\<close>

definition stat_fields :: "fat_dirent \<Rightarrow> stat_t" where
  "stat_fields ent = stat_default\<lparr>st_nlink := 1, st_blksize := 512, st_size := ent_len ent,
     st_blocks := 1 + ent_len ent div 512, st_mode := mode_bits ent\<rparr>"

definition stat_dirent :: "('w, 'd, 'f, 'ent, 'date) entry_ops \<Rightarrow> fat_dirent \<Rightarrow> stat_t exec" where
  "stat_dirent E ent =
     (case fat_time_to_unix \<lparr>dt_date = e_accessed E ent, dt_hour = 12, dt_min = 0, dt_sec = 0, dt_millis = 0\<rparr> of
        Panic \<Rightarrow> Panic
      | Ret a \<Rightarrow>
        (case fat_time_to_unix (e_created E ent) of
           Panic \<Rightarrow> Panic
         | Ret c \<Rightarrow>
           (case fat_time_to_unix (e_modified E ent) of
              Panic \<Rightarrow> Panic
            | Ret t \<Rightarrow> Ret ((stat_fields ent)\<lparr>st_atime := a, st_ctime := c, st_mtime := t\<rparr>))))"

section \<open>Handlers on paths\<close>

text \<open>
  The common start: decode the path, find the context, and check that a partition is open.
  \<open>fail\<close> turns the code of an error into the value to return. The outer option is the
  undefined use of a freed context.
\<close>

definition with_mounted ::
  "'w newlib_api \<Rightarrow> ('u, 'dev, 'fs) ctx_heap \<Rightarrow> (u32 \<Rightarrow> 'o) \<Rightarrow> bytes \<Rightarrow> reent \<Rightarrow> 'w
     \<Rightarrow> ('fs \<Rightarrow> rstr \<Rightarrow> ('o exec \<times> reent \<times> 'w) option) \<Rightarrow> ('o exec \<times> reent \<times> 'w) option" where
  "with_mounted N hp fail path_mem r w k =
     (case cstr_to_str path_mem of
        None \<Rightarrow> Some (Ret (fail NX_FATDRIVE_ERR_UNKNOWN), r\<lparr>errno := NX_FATDRIVE_ERR_UNKNOWN\<rparr>, w)
      | Some path \<Rightarrow>
        (case get_global N hp w of
           None \<Rightarrow> None
         | Some (Inl e) \<Rightarrow> Some (Ret (fail e), r\<lparr>errno := e\<rparr>, w)
         | Some (Inr ctx) \<Rightarrow>
           (case client_state ctx of
              Opened _ fs _ \<Rightarrow> k fs path
            | _ \<Rightarrow> Some (Ret (fail NX_FATDRIVE_ERR_NOT_INITIALIZED),
                     r\<lparr>errno := NX_FATDRIVE_ERR_NOT_INITIALIZED\<rparr>, w))))"

text \<open>
  Opening stores the new structure where \<open>fd\<close> points (the second component of the result);
  the flags and the mode are ignored.
\<close>

definition fatdrive_open_r ::
  "('w, 'd, 'f, 'ent, 'date) entry_ops \<Rightarrow> 'w newlib_api \<Rightarrow> ('u, 'dev, 'fs) ctx_heap
     \<Rightarrow> 'ent file_struct option \<Rightarrow> bytes \<Rightarrow> u32 \<Rightarrow> u32 \<Rightarrow> reent \<Rightarrow> 'w
     \<Rightarrow> ((i32 \<times> 'ent file_struct option) exec \<times> reent \<times> 'w) option" where
  "fatdrive_open_r E N hp fd path_mem flags md r w =
     with_mounted N hp (\<lambda>e. (e, fd)) path_mem r w (\<lambda>fs path.
       Some (case path_to_dirent fs path of
         Panic \<Rightarrow> (Panic, r, w)
       | Ret ent \<Rightarrow>
           if attr_directory (e_data E ent) then (Ret (- 1, fd), r\<lparr>errno := ERRNO_ENOENT\<rparr>, w)
           else if fd = None then (Ret (- 1, fd), r\<lparr>errno := ERRNO_ENOENT\<rparr>, w)
           else (Ret (0, Some \<lparr>fatfl = ent, offset = 0\<rparr>), r, w)))"

text \<open>Returns whether the pointer is non-null, and the iterator with the new structure.\<close>

definition fatdrive_diropen_r ::
  "('w, 'd, 'f, 'ent, 'date) entry_ops \<Rightarrow> 'w newlib_api \<Rightarrow> ('u, 'dev, 'fs) ctx_heap
     \<Rightarrow> 'ent dir_iter_t option \<Rightarrow> bytes \<Rightarrow> reent \<Rightarrow> 'w
     \<Rightarrow> ((bool \<times> 'ent dir_iter_t option) exec \<times> reent \<times> 'w) option" where
  "fatdrive_diropen_r E N hp di path_mem r w =
     with_mounted N hp (\<lambda>_. (False, di)) path_mem r w (\<lambda>fs path.
       Some (case path_to_dirent fs path of
         Panic \<Rightarrow> (Panic, r, w)
       | Ret ent \<Rightarrow>
           if \<not> attr_directory (e_data E ent) then (Ret (False, di), r\<lparr>errno := ERRNO_ENOENT\<rparr>, w)
           else case di of
             None \<Rightarrow> (Ret (False, di), r\<lparr>errno := ERRNO_ENOENT\<rparr>, w)
           | Some st \<Rightarrow>
               if dirStruct st = None then (Ret (False, di), r\<lparr>errno := ERRNO_ENOENT\<rparr>, w)
               else (Ret (True, Some (st\<lparr>dirStruct := Some (Dir \<lparr>dir = ent, index = 0\<rparr>)\<rparr>)), r, w)))"

definition fatdrive_stat_r ::
  "('w, 'd, 'f, 'ent, 'date) entry_ops \<Rightarrow> 'w newlib_api \<Rightarrow> ('u, 'dev, 'fs) ctx_heap \<Rightarrow> bytes \<Rightarrow> reent \<Rightarrow> 'w
     \<Rightarrow> ((i32 \<times> stat_t option) exec \<times> reent \<times> 'w) option" where
  "fatdrive_stat_r E N hp path_mem r w =
     with_mounted N hp (\<lambda>_. (- 1, None)) path_mem r w (\<lambda>fs path.
       Some (case path_to_dirent fs path of
         Panic \<Rightarrow> (Panic, r, w)
       | Ret ent \<Rightarrow>
         (case stat_dirent E (e_data E ent) of
            Panic \<Rightarrow> (Panic, r, w)
          | Ret st \<Rightarrow> (Ret (0, Some st), r, w))))"

definition fatdrive_lstat_r ::
  "('w, 'd, 'f, 'ent, 'date) entry_ops \<Rightarrow> 'w newlib_api \<Rightarrow> ('u, 'dev, 'fs) ctx_heap \<Rightarrow> bytes \<Rightarrow> reent \<Rightarrow> 'w
     \<Rightarrow> ((i32 \<times> stat_t option) exec \<times> reent \<times> 'w) option" where
  "fatdrive_lstat_r E N hp path_mem r w = fatdrive_stat_r E N hp path_mem r w"

text \<open>Both paths are decoded before the context is looked at.\<close>

definition fatdrive_rename_r ::
  "('w, 'fs, 'f, 'd, 'it) fat_crate \<Rightarrow> ('w, 'd, 'f, 'ent, 'date) entry_ops \<Rightarrow> 'w newlib_api
     \<Rightarrow> ('u, 'dev, 'fs) ctx_heap \<Rightarrow> bytes \<Rightarrow> bytes \<Rightarrow> reent \<Rightarrow> 'w \<Rightarrow> (i32 exec \<times> reent \<times> 'w) option" where
  "fatdrive_rename_r C E N hp old_mem new_mem r w =
     (case cstr_to_str old_mem of
        None \<Rightarrow> Some (Ret NX_FATDRIVE_ERR_UNKNOWN, r\<lparr>errno := NX_FATDRIVE_ERR_UNKNOWN\<rparr>, w)
      | Some old_path \<Rightarrow>
          with_mounted N hp id new_mem r w (\<lambda>fs new_path.
            let root = fc_root_dir C fs in
            Some (case e_rename E root old_path root new_path w of
              (Inl e, w1) \<Rightarrow> (Ret (io_error_map e), r\<lparr>errno := io_error_map e\<rparr>, w1)
            | (Inr _, w1) \<Rightarrow> (Ret 0, r, w1))))"

definition fatdrive_rmdir_r ::
  "('w, 'fs, 'f, 'd, 'it) fat_crate \<Rightarrow> 'w newlib_api \<Rightarrow> ('u, 'dev, 'fs) ctx_heap \<Rightarrow> bytes \<Rightarrow> reent \<Rightarrow> 'w
     \<Rightarrow> (i32 exec \<times> reent \<times> 'w) option" where
  "fatdrive_rmdir_r C N hp path_mem r w =
     with_mounted N hp id path_mem r w (\<lambda>fs path.
       Some (case fc_remove C (fc_root_dir C fs) path w of
         (Inl e, w1) \<Rightarrow> (Ret (io_error_map e), r\<lparr>errno := io_error_map e\<rparr>, w1)
       | (Inr _, w1) \<Rightarrow> (Ret 0, r, w1)))"

text \<open>The OS code of an \<open>io::Error\<close>, all ones where it has none.\<close>

definition os_code :: "io_error \<Rightarrow> i32" where
  "os_code e = (case raw_os_error e of Some c \<Rightarrow> c | None \<Rightarrow> 0xFFFFFFFF)"

definition fatdrive_mkdir_r ::
  "('w, 'fs, 'f, 'd, 'it) fat_crate \<Rightarrow> 'w newlib_api \<Rightarrow> ('u, 'dev, 'fs) ctx_heap \<Rightarrow> bytes \<Rightarrow> u32 \<Rightarrow> reent \<Rightarrow> 'w
     \<Rightarrow> (i32 exec \<times> reent \<times> 'w) option" where
  "fatdrive_mkdir_r C N hp path_mem md r w =
     with_mounted N hp id path_mem r w (\<lambda>fs path.
       Some (case fc_create_dir C (fc_root_dir C fs) path w of
         (Inl e, w1) \<Rightarrow> (Ret (- 1), r\<lparr>errno := os_code e\<rparr>, w1)
       | (Inr d, w1) \<Rightarrow> (Ret 0, r, fc_drop_dir C d w1)))"

section \<open>Handlers on open files\<close>

text \<open>The check of the file pointer; \<open>bad\<close> is the value returned for a null one.\<close>

definition with_fd ::
  "'o \<Rightarrow> 'ent file_struct option \<Rightarrow> reent \<Rightarrow> 'w \<Rightarrow> ('ent file_struct \<Rightarrow> 'o \<times> 'ent file_struct \<times> reent \<times> 'w)
     \<Rightarrow> 'o \<times> 'ent file_struct option \<times> reent \<times> 'w" where
  "with_fd bad fd r w k =
     (case fd of
        None \<Rightarrow> (bad, None, r\<lparr>errno := NX_FATDRIVE_ERR_FILE_NOT_FOUND\<rparr>, w)
      | Some fl \<Rightarrow> (case k fl of (ret, fl1, r1, w1) \<Rightarrow> (ret, Some fl1, r1, w1)))"

text \<open>
  A file made from the entry and moved to the offset of the structure. It is dropped when the
  handler returns, on every path; \<open>k\<close> ends with that drop.
\<close>

definition at_offset ::
  "('w, 'fs, 'f, 'd, 'it) fat_crate \<Rightarrow> ('w, 'd, 'f, 'ent, 'date) entry_ops \<Rightarrow> 'o \<Rightarrow> 'ent file_struct \<Rightarrow> reent \<Rightarrow> 'w
     \<Rightarrow> ('f \<Rightarrow> 'w \<Rightarrow> 'o \<times> 'ent file_struct \<times> reent \<times> 'w) \<Rightarrow> 'o \<times> 'ent file_struct \<times> reent \<times> 'w" where
  "at_offset C E bad fl r w k =
     (case fc_seek C (e_to_file E (fatfl fl)) (Start (offset fl)) w of
        (Inl e, f1, w1) \<Rightarrow> (bad, fl, r\<lparr>errno := io_error_map e\<rparr>, fc_drop_file C f1 w1)
      | (Inr _, f1, w1) \<Rightarrow> k f1 w1)"

text \<open>\<open>buff\<close> is the slice of \<open>len\<close> bytes behind the pointer.\<close>

definition fatdrive_write_r ::
  "('w, 'fs, 'f, 'd, 'it) fat_crate \<Rightarrow> ('w, 'd, 'f, 'ent, 'date) entry_ops \<Rightarrow> 'ent file_struct option \<Rightarrow> bytes
     \<Rightarrow> reent \<Rightarrow> 'w \<Rightarrow> i64 \<times> 'ent file_struct option \<times> reent \<times> 'w" where
  "fatdrive_write_r C E fd buff r w = with_fd (- 1) fd r w (\<lambda>fl.
     at_offset C E (- 1) fl r w (\<lambda>f1 w1.
       case fc_write C f1 buff w1 of
         (Inl e, f2, w2) \<Rightarrow> (- 1, fl, r\<lparr>errno := io_error_map e\<rparr>, fc_drop_file C f2 w2)
       | (Inr writecount, f2, w2) \<Rightarrow>
         (case fc_flush C f2 w2 of
            (Inl e, f3, w3) \<Rightarrow> (- 1, fl, r\<lparr>errno := io_error_map e\<rparr>, fc_drop_file C f3 w3)
          | (Inr _, f3, w3) \<Rightarrow>
              (writecount, fl\<lparr>offset := offset fl + writecount\<rparr>, r, fc_drop_file C f3 w3))))"

text \<open>The result is the count and the slice with what was read.\<close>

definition fatdrive_read_r ::
  "('w, 'fs, 'f, 'd, 'it) fat_crate \<Rightarrow> ('w, 'd, 'f, 'ent, 'date) entry_ops \<Rightarrow> 'ent file_struct option \<Rightarrow> bytes
     \<Rightarrow> reent \<Rightarrow> 'w \<Rightarrow> (i64 \<times> bytes) \<times> 'ent file_struct option \<times> reent \<times> 'w" where
  "fatdrive_read_r C E fd buff r w = with_fd (- 1, buff) fd r w (\<lambda>fl.
     at_offset C E (- 1, buff) fl r w (\<lambda>f1 w1.
       case fc_read C f1 buff w1 of
         (Inl e, buff1, f2, w2) \<Rightarrow> ((- 1, buff1), fl, r\<lparr>errno := io_error_map e\<rparr>, fc_drop_file C f2 w2)
       | (Inr readcount, buff1, f2, w2) \<Rightarrow>
           ((readcount, buff1), fl\<lparr>offset := offset fl + readcount\<rparr>, r, fc_drop_file C f2 w2)))"

text \<open>The whence values the handler accepts.\<close>

definition whence_target :: "i64 \<Rightarrow> i32 \<Rightarrow> seek_from option" where
  "whence_target pos dr =
     (if dr = 1 then Some (Start pos)
      else if dr = 2 then Some (Current pos)
      else if dr = 3 then Some (End pos)
      else None)"

definition fatdrive_seek_r ::
  "('w, 'fs, 'f, 'd, 'it) fat_crate \<Rightarrow> ('w, 'd, 'f, 'ent, 'date) entry_ops \<Rightarrow> 'ent file_struct option
     \<Rightarrow> i64 \<Rightarrow> i32 \<Rightarrow> reent \<Rightarrow> 'w \<Rightarrow> i64 \<times> 'ent file_struct option \<times> reent \<times> 'w" where
  "fatdrive_seek_r C E fd pos dr r w = with_fd (- 1) fd r w (\<lambda>fl.
     at_offset C E (- 1) fl r w (\<lambda>f1 w1.
       case whence_target pos dr of
         None \<Rightarrow> (- 1, fl, r\<lparr>errno := NX_FATDRIVE_ERR_UNKNOWN\<rparr>, fc_drop_file C f1 w1)
       | Some sk \<Rightarrow>
         (case fc_seek C f1 sk w1 of
            (Inl e, f2, w2) \<Rightarrow> (- 1, fl, r\<lparr>errno := io_error_map e\<rparr>, fc_drop_file C f2 w2)
          | (Inr newoff, f2, w2) \<Rightarrow> (newoff, fl\<lparr>offset := newoff\<rparr>, r, fc_drop_file C f2 w2))))"

text \<open>The length argument is ignored, and so is the offset: the fresh file is cut at its start.\<close>

definition fatdrive_ftruncate_r ::
  "('w, 'fs, 'f, 'd, 'it) fat_crate \<Rightarrow> ('w, 'd, 'f, 'ent, 'date) entry_ops \<Rightarrow> 'ent file_struct option
     \<Rightarrow> i64 \<Rightarrow> reent \<Rightarrow> 'w \<Rightarrow> i32 \<times> 'ent file_struct option \<times> reent \<times> 'w" where
  "fatdrive_ftruncate_r C E fd len r w = with_fd (- 1) fd r w (\<lambda>fl.
     case fc_truncate C (e_to_file E (fatfl fl)) w of
       (Inl e, f1, w1) \<Rightarrow> (- 1, fl, r\<lparr>errno := os_code e\<rparr>, fc_drop_file C f1 w1)
     | (Inr _, f1, w1) \<Rightarrow> (0, fl, r, fc_drop_file C f1 w1))"

definition fatdrive_fstat_r ::
  "('w, 'd, 'f, 'ent, 'date) entry_ops \<Rightarrow> 'ent file_struct option \<Rightarrow> reent
     \<Rightarrow> (i32 \<times> stat_t option) exec \<times> reent" where
  "fatdrive_fstat_r E fd r =
     (case fd of
        None \<Rightarrow> (Ret (- 1, None), r\<lparr>errno := NX_FATDRIVE_ERR_FILE_NOT_FOUND\<rparr>)
      | Some fl \<Rightarrow>
        (case stat_dirent E (e_data E (fatfl fl)) of
           Panic \<Rightarrow> (Panic, r)
         | Ret st \<Rightarrow> (Ret (0, Some st), r)))"

definition fatdrive_fsync_r :: i32 where "fatdrive_fsync_r = 0"
definition fatdrive_close_r :: i32 where "fatdrive_close_r = 0"

section \<open>Handlers on open directories\<close>

definition fatdrive_dirreset_r ::
  "'ent dir_iter_t option \<Rightarrow> reent \<Rightarrow> i32 \<times> 'ent dir_iter_t option \<times> reent" where
  "fatdrive_dirreset_r di r =
     (case di of
        None \<Rightarrow> (- 1, di, r\<lparr>errno := NX_FATDRIVE_ERR_UNKNOWN\<rparr>)
      | Some it \<Rightarrow>
        (case dirStruct it of
           None \<Rightarrow> (- 1, di, r\<lparr>errno := NX_FATDRIVE_ERR_UNKNOWN\<rparr>)
         | Some Zeroed \<Rightarrow> (0, di, r)
         | Some (Dir d) \<Rightarrow> (0, Some (it\<lparr>dirStruct := Some (Dir (d\<lparr>index := 0\<rparr>))\<rparr>), r)))"

definition fatdrive_dirclose_r :: i32 where "fatdrive_dirclose_r = 0"

definition is_zeroed :: "'ent dir_mem option \<Rightarrow> i32" where
  "is_zeroed p =
     (case p of None \<Rightarrow> ERRNO_ENOENT | Some Zeroed \<Rightarrow> ERRNO_ENOENT | Some (Dir _) \<Rightarrow> 0)"

text \<open>
  The name goes into the caller's buffer, if it has one, without a terminating zero; a write
  past its end is undefined (\<open>None\<close>). \<open>filestat\<close> is the caller's structure, if it has one.
\<close>

definition put_name :: "bytes option \<Rightarrow> rstr \<Rightarrow> bytes option option" where
  "put_name buf nm =
     (case buf of
        None \<Rightarrow> Some None
      | Some mem \<Rightarrow>
          (let retlen = min (length nm) NX_FATDRIVE_NAME_MAX in
           if retlen \<le> length mem then Some (Some (take retlen nm @ drop retlen mem)) else None))"

text \<open>
  The end of the directory is no error: the code takes a zeroed \<open>DirEntry\<close> there, a struct with a
  reference and vectors, for which a zeroed value is undefined behaviour (\<open>None\<close>).
\<close>

definition fatdrive_dirnext_r ::
  "('w, 'fs, 'f, 'd, 'it) fat_crate \<Rightarrow> ('w, 'd, 'f, 'ent, 'date) entry_ops \<Rightarrow> 'ent dir_iter_t option
     \<Rightarrow> bytes option \<Rightarrow> stat_t option \<Rightarrow> reent \<Rightarrow> 'w
     \<Rightarrow> ((i32 \<times> 'ent dir_iter_t option \<times> bytes option \<times> stat_t option) exec \<times> reent \<times> 'w) option" where
  "fatdrive_dirnext_r C E di filename filestat r w =
     (case di of
        None \<Rightarrow> Some (Ret (- 1, di, filename, filestat), r\<lparr>errno := NX_FATDRIVE_ERR_UNKNOWN\<rparr>, w)
      | Some it \<Rightarrow>
        (let ended = is_zeroed (dirStruct it) in
         case dirStruct it of
           Some (Dir d) \<Rightarrow>
             (let stepped = Some (it\<lparr>dirStruct := Some (Dir (d\<lparr>index := index d + 1\<rparr>))\<rparr>) in
              case iter_nth C (unat (index d)) (fc_iter C (e_to_dir E (dir d))) w of
                (Some (Inl _), w1) \<Rightarrow>
                  Some (Ret (- 1, di, filename, filestat), r\<lparr>errno := NX_FATDRIVE_ERR_UNKNOWN\<rparr>, w1)
              | (None, w1) \<Rightarrow> None
              | (Some (Inr p), w1) \<Rightarrow>
                (case (if filestat = None then Ret None else map_exec Some (stat_dirent E p)) of
                   Panic \<Rightarrow> Some (Panic, r, w1)
                 | Ret fstat \<Rightarrow>
                   (case put_name filename (file_name p) of
                      None \<Rightarrow> None
                    | Some name1 \<Rightarrow> Some (Ret (0, stepped, name1, fstat), r, w1))))
         | _ \<Rightarrow> Some (Ret (- 1, di, filename, filestat), r\<lparr>errno := ended\<rparr>, w)))"

section \<open>Handlers that are not implemented\<close>

text \<open>Four answer with the code itself, three with -1.\<close>

definition enosys_code :: "reent \<Rightarrow> i32 \<times> reent" where
  "enosys_code r = (ERRNO_ENOSYS, r\<lparr>errno := ERRNO_ENOSYS\<rparr>)"

definition fatdrive_chmod_r :: "bytes \<Rightarrow> u32 \<Rightarrow> reent \<Rightarrow> i32 \<times> reent" where
  "fatdrive_chmod_r path md r = enosys_code r"

definition fatdrive_fchmod_r :: "'ent file_struct option \<Rightarrow> u32 \<Rightarrow> reent \<Rightarrow> i32 \<times> reent" where
  "fatdrive_fchmod_r fd md r = enosys_code r"

definition fatdrive_link_r :: "bytes \<Rightarrow> bytes \<Rightarrow> reent \<Rightarrow> i32 \<times> reent" where
  "fatdrive_link_r old new r = enosys_code r"

definition fatdrive_unlink_r :: "bytes \<Rightarrow> reent \<Rightarrow> i32 \<times> reent" where
  "fatdrive_unlink_r name_mem r = enosys_code r"

definition fatdrive_chdir_r :: "bytes \<Rightarrow> reent \<Rightarrow> i32 \<times> reent" where
  "fatdrive_chdir_r name_mem r = (- 1, r\<lparr>errno := ERRNO_ENOSYS\<rparr>)"

definition fatdrive_utimes_r :: "bytes \<Rightarrow> reent \<Rightarrow> i32 \<times> reent" where
  "fatdrive_utimes_r name_mem r = (- 1, r\<lparr>errno := ERRNO_ENOSYS\<rparr>)"

definition fatdrive_stat_vfs_r :: "bytes \<Rightarrow> reent \<Rightarrow> i32 \<times> reent" where
  "fatdrive_stat_vfs_r path_mem r = (- 1, r\<lparr>errno := ERRNO_ENOSYS\<rparr>)"

end
