(* ===== verification/NewlibThms.thy ===== *)
theory NewlibThms
  imports NewlibFiles UsbFsThms
begin

text \<open>
  The properties of the newlib device: the stages of its mount as a state machine, what a
  failed stage leaves behind, the registration, and the handlers on files and directories.
\<close>

section \<open>The stages\<close>

lemma nl_wait_cases:
  assumes "nl_wait_for_usb_drive C U t ctx w = (res, ctx', w')"
  obtains (failed) "res \<noteq> Ok ()" "ctx' = ctx"
  | (acquired) u iface dev w5 where "res = Ok ()" "nl_usb_hs_ctx ctx = Some u"
      "ctx' = ctx\<lparr>client_state := Acquired iface dev\<rparr>"
      "w' = drop_client_state C (client_state ctx) w5"
  using assms
  by (auto simp: nl_wait_for_usb_drive_def split: option.splits prod.splits sum.splits if_splits exec.splits)

text \<open>Where the entry of an opened partition comes from.\<close>

definition from_mbr :: "('w, 'u, 'info, 'evt, 'h, 'ep, 'dev, 'fs) usb_sys \<Rightarrow> partition_entry \<Rightarrow> bool" where
  "from_mbr U ent \<longleftrightarrow> (\<exists>b entries. 512 \<le> length b \<and> us_parse_mbr U b = Inr entries \<and> ent \<in> set entries)"

lemma mbr_loop_full:
  assumes "mbr_loop ops dev v = Some z"
  shows "case z of (Inr _, _, v') \<Rightarrow> 512 \<le> length (inner v') | _ \<Rightarrow> True"
  using assms
proof (induction ops dev v z rule: mbr_loop.raw_induct [rotated, consumes 1])
  case (1 mbr_loop ops dev v z)
  then show ?case by (fastforce split: if_splits prod.splits sum.splits)
qed

text \<open>What a call of \<open>get_partitions\<close> leaves, and where its entries come from.\<close>

lemma get_partitions_cases:
  assumes "get_partitions U ctx = Some (res, ctx')"
  obtains (refused) e where "res = Err e" "ctx' = ctx" "\<forall>iface dev. client_state ctx \<noteq> Acquired iface dev"
  | (panicked) "res = Panic" "ctx' = ctx"
  | (failed) iface dev dev1 e where "client_state ctx = Acquired iface dev" "res = Err e"
      "ctx' = ctx\<lparr>client_state := Acquired iface dev1\<rparr>"
  | (listed) iface dev dev1 entries where "client_state ctx = Acquired iface dev" "res = Ok entries"
      "ctx' = ctx\<lparr>client_state := Acquired iface dev1\<rparr>" "\<forall>ent \<in> set entries. from_mbr U ent"
  using assms
proof (cases "client_state ctx")
  case (Acquired iface dev)
  let ?v = "with_fake_capacity (max 512 (ucast (op_block_size (us_scsi U) dev)))"
  show ?thesis
  proof (cases ?v)
    case Panic
    with Acquired assms show ?thesis by (intro that(2)) (auto simp: get_partitions_def)
  next
    case (Ret v)
    with Acquired assms obtain r dev1 v1 where l: "mbr_loop (us_scsi U) dev v = Some (r, dev1, v1)"
      by (auto simp: get_partitions_def split: option.splits)
    show ?thesis
    proof (cases r)
      case (Inl e)
      with Acquired Ret l assms show ?thesis
        by (intro that(3) [of iface dev]) (auto simp: get_partitions_def)
    next
      case (Inr x)
      have full: "512 \<le> length (inner v1)" using mbr_loop_full [OF l] Inr by simp
      show ?thesis
      proof (cases "us_parse_mbr U (inner v1)")
        case (Inl e)
        with Acquired Ret l \<open>r = Inr x\<close> assms show ?thesis
          by (intro that(3) [of iface dev]) (auto simp: get_partitions_def)
      next
        case (Inr entries)
        with Acquired Ret l \<open>r = Inr x\<close> assms full show ?thesis
          by (intro that(4) [of iface dev]) (auto simp: get_partitions_def from_mbr_def)
      qed
    qed
  qed
qed (use assms that(1) in \<open>auto simp: get_partitions_def\<close>)

lemma mount_taken_cases:
  assumes "mount_taken U iface dev entries idx ctx w = (res, ctx', w')"
  obtains (lost) "res \<noteq> Ok ()" "ctx' = ctx"
  | (opened) fs where "res = Ok ()" "idx < length entries"
      "ctx' = ctx\<lparr>client_state := Opened iface fs (entries ! idx)\<rparr>"
  using assms by (auto simp: mount_taken_def Let_def split: if_splits exec.splits prod.splits sum.splits)

lemma nl_open_cases:
  assumes "nl_open_partition C U idx ctx w = Some (res, ctx', w')"
  obtains (refused) "res \<noteq> Ok ()" "ctx' = ctx" "w' = w"
  | (unread) iface dev dev1 where "client_state ctx = Acquired iface dev" "res \<noteq> Ok ()" "w' = w"
      "ctx' = ctx\<lparr>client_state := Acquired iface dev1\<rparr>" "\<And>c es. get_partitions U ctx \<noteq> Some (Ok es, c)"
  | (lost) iface dev es c where "client_state ctx = Acquired iface dev" "res \<noteq> Ok ()"
      "ctx' = ctx\<lparr>client_state := Uninitialized\<rparr>" "get_partitions U ctx = Some (Ok es, c)"
  | (opened) iface dev fs ent where "client_state ctx = Acquired iface dev" "res = Ok ()"
      "ctx' = ctx\<lparr>client_state := Opened iface fs ent\<rparr>" "from_mbr U ent"
proof -
  obtain r c where g: "get_partitions U ctx = Some (r, c)"
    using assms by (auto simp: nl_open_partition_def split: option.splits)
  from g show thesis
  proof (cases rule: get_partitions_cases)
    case (refused e)
    then show thesis using assms g by (intro that(1)) (auto simp: nl_open_partition_def)
  next
    case panicked
    then show thesis using assms g by (intro that(1)) (auto simp: nl_open_partition_def)
  next
    case (failed iface dev dev1 e)
    then show thesis using assms g by (intro that(2) [of iface dev dev1]) (auto simp: nl_open_partition_def)
  next
    case (listed iface dev dev1 entries)
    then have "mount_taken U iface dev1 entries idx (ctx\<lparr>client_state := Uninitialized\<rparr>) w = (res, ctx', w')"
      using assms g by (simp add: nl_open_partition_def)
    then show thesis
    proof (cases rule: mount_taken_cases)
      case lost
      then show thesis using that(3) [OF listed(1)] g listed(2) by simp
    next
      case (opened fs)
      then show thesis using listed by (intro that(4) [of iface dev fs "entries ! idx"]) auto
    qed
  qed
qed

section \<open>The context as a state machine\<close>

text \<open>
  The public methods of the context, in any order, with any arguments and outcomes; a panic
  leaves the context as the unwinding finds it.
\<close>

inductive nl_step ::
  "('w, 'fs, 'f, 'd, 'it) fat_crate \<Rightarrow> ('w, 'u, 'info, 'evt, 'h, 'ep, 'dev, 'fs) usb_sys
     \<Rightarrow> ('u, 'dev, 'fs) newlib_context \<times> 'w \<Rightarrow> ('u, 'dev, 'fs) newlib_context \<times> 'w \<Rightarrow> bool"
  for C U where
  nl_init: "init_usb_hs_ctx U ctx w = (res, ctx', w') \<Longrightarrow> nl_step C U (ctx, w) (ctx', w')"
| nl_wait: "nl_wait_for_usb_drive C U t ctx w = (res, ctx', w') \<Longrightarrow> nl_step C U (ctx, w) (ctx', w')"
| nl_list: "get_partitions U ctx = Some (res, ctx') \<Longrightarrow> nl_step C U (ctx, w) (ctx', w)"
| nl_open: "nl_open_partition C U idx ctx w = Some (res, ctx', w') \<Longrightarrow> nl_step C U (ctx, w) (ctx', w')"
| nl_world: "nl_step C U (ctx, w) (ctx, w')"

inductive_cases nl_stepE: "nl_step C U (ctx, w) (ctx', w')"

definition context_inv ::
  "('w, 'u, 'info, 'evt, 'h, 'ep, 'dev, 'fs) usb_sys \<Rightarrow> ('u, 'dev, 'fs) newlib_context \<Rightarrow> bool" where
  "context_inv U ctx \<longleftrightarrow>
     (client_state ctx \<noteq> Uninitialized \<longrightarrow> nl_usb_hs_ctx ctx \<noteq> None)
     \<and> (\<forall>iface fs ent. client_state ctx = Opened iface fs ent \<longrightarrow> from_mbr U ent)
     \<and> current_working_directory ctx = None"

lemma context_inv_new: "context_inv U newlib_context_new"
  by (simp add: context_inv_def newlib_context_new_def)

lemma init_ctx_inv:
  assumes "init_usb_hs_ctx U ctx w = (res, ctx', w')" "context_inv U ctx"
  shows "context_inv U ctx'"
  using assms by (auto simp: init_usb_hs_ctx_def context_inv_def split: if_splits prod.splits sum.splits)

lemma wait_ctx_inv:
  assumes "nl_wait_for_usb_drive C U t ctx w = (res, ctx', w')" "context_inv U ctx"
  shows "context_inv U ctx'"
  using assms(1) by (cases rule: nl_wait_cases) (use assms(2) in \<open>auto simp: context_inv_def\<close>)

lemma list_ctx_inv:
  assumes "get_partitions U ctx = Some (res, ctx')" "context_inv U ctx"
  shows "context_inv U ctx'"
  using assms(1) by (cases rule: get_partitions_cases) (use assms(2) in \<open>auto simp: context_inv_def\<close>)

lemma open_ctx_inv:
  assumes "nl_open_partition C U idx ctx w = Some (res, ctx', w')" "context_inv U ctx"
  shows "context_inv U ctx'"
  using assms(1) by (cases rule: nl_open_cases) (use assms(2) in \<open>auto simp: context_inv_def\<close>)

lemma nl_step_inv:
  assumes "nl_step C U (ctx, w) (ctx', w')" "context_inv U ctx"
  shows "context_inv U ctx'"
  using assms(1)
  by (cases rule: nl_stepE)
    (use assms(2) in \<open>auto elim: init_ctx_inv wait_ctx_inv list_ctx_inv open_ctx_inv\<close>)

lemma nl_reachable_inv:
  assumes "(nl_step C U)\<^sup>*\<^sup>* (newlib_context_new, w0) s"
  shows "context_inv U (fst s)"
  using assms
proof (induction rule: rtranclp_induct)
  case base
  show ?case by (simp add: context_inv_new)
next
  case (step s s')
  then show ?case using nl_step_inv [of C U "fst s" "snd s" "fst s'" "snd s'"] by simp
qed

text \<open>
  C15: Through any sequence of calls on a newlib context, failed and panicked ones included, a
  context that holds a drive or a file system holds the USB service as well, and an opened
  partition is an entry of a boot sector of at least 512 bytes that the MBR parser accepted.
\<close>

theorem newlib_context_invariant:
  assumes "(nl_step C U)\<^sup>*\<^sup>* (newlib_context_new, w0) (ctx, w)"
  shows "(client_state ctx \<noteq> Uninitialized \<longrightarrow> nl_usb_hs_ctx ctx \<noteq> None)
    \<and> (\<forall>iface fs ent. client_state ctx = Opened iface fs ent \<longrightarrow>
         (\<exists>b entries. 512 \<le> length b \<and> us_parse_mbr U b = Inr entries \<and> ent \<in> set entries))"
  using nl_reachable_inv [OF assms] by (simp add: context_inv_def from_mbr_def)

text \<open>A drive that mounts: every stage succeeds on it.\<close>

lemma toy_nl_init:
  "init_usb_hs_ctx toy_usb newlib_context_new w
    = (Inr (), newlib_context_new\<lparr>nl_usb_hs_ctx := Some ()\<rparr>, w)"
  by (simp add: init_usb_hs_ctx_def newlib_context_new_def)

lemma toy_nl_wait:
  "nl_wait_for_usb_drive toy_crate toy_usb t (ctx\<lparr>nl_usb_hs_ctx := Some ()\<rparr>) w
    = (Ok (), ctx\<lparr>nl_usb_hs_ctx := Some (), client_state := Acquired toy_iface toy_disk\<rparr>,
       drop_client_state toy_crate (client_state ctx) w)"
  by (simp add: nl_wait_for_usb_drive_def build_client_def vec_new_eq)

lemma toy_nl_open:
  assumes "client_state ctx = Acquired toy_iface toy_disk"
  shows "nl_open_partition toy_crate toy_usb 0 ctx w
    = Some (Ok (), ctx\<lparr>client_state := Opened toy_iface ()
        \<lparr>partition_type = Fat32, logical_block_address = 2048, sector_count = 100\<rparr>\<rparr>, w)"
  using assms
  by (simp add: nl_open_partition_def get_partitions_def with_fake_capacity_def mbr_loop_toy
      mount_taken_def offset_scsi_new_def)

theorem newlib_context_invariant_witness:
  "\<exists>ctx :: (unit, bytes, unit) newlib_context. \<exists>fs ent b entries.
     (nl_step toy_crate toy_usb)\<^sup>*\<^sup>* (newlib_context_new, True) (ctx, True)
     \<and> client_state ctx = Opened toy_iface fs ent \<and> nl_usb_hs_ctx ctx \<noteq> None
     \<and> us_parse_mbr toy_usb b = Inr entries \<and> ent \<in> set entries"
proof -
  obtain ctx1 ctx2 ctx3 :: "(unit, bytes, unit) newlib_context"
    where c: "ctx1 = newlib_context_new\<lparr>nl_usb_hs_ctx := Some ()\<rparr>"
      "ctx2 = newlib_context_new\<lparr>nl_usb_hs_ctx := Some (), client_state := Acquired toy_iface toy_disk\<rparr>"
      "ctx3 = ctx2\<lparr>client_state := Opened toy_iface ()
        \<lparr>partition_type = Fat32, logical_block_address = 2048, sector_count = 100\<rparr>\<rparr>"
    by simp
  have s1: "nl_step toy_crate toy_usb (newlib_context_new, True) (ctx1, True)"
    unfolding c by (rule nl_init [OF toy_nl_init])
  have s2: "nl_step toy_crate toy_usb (ctx1, True) (ctx2, True)"
    unfolding c by (rule nl_wait [OF trans [OF toy_nl_wait]]) (simp add: newlib_context_new_def)
  have s3: "nl_step toy_crate toy_usb (ctx2, True) (ctx3, True)"
    unfolding c(3) by (rule nl_open [OF toy_nl_open]) (simp add: c)
  have r: "(nl_step toy_crate toy_usb)\<^sup>*\<^sup>* (newlib_context_new, True) (ctx3, True)"
    using converse_rtranclp_into_rtranclp [of "nl_step toy_crate toy_usb", OF s1]
      converse_rtranclp_into_rtranclp [of "nl_step toy_crate toy_usb", OF s2]
      r_into_rtranclp [of "nl_step toy_crate toy_usb", OF s3] by blast
  have s: "client_state ctx3 = Opened toy_iface ()
      \<lparr>partition_type = Fat32, logical_block_address = 2048, sector_count = 100\<rparr>"
    by (simp add: c)
  from newlib_context_invariant [OF r] s obtain b entries where
    "us_parse_mbr toy_usb b = Inr entries" "nl_usb_hs_ctx ctx3 \<noteq> None"
    "\<lparr>partition_type = Fat32, logical_block_address = 2048, sector_count = 100\<rparr> \<in> set entries"
    by force
  with r s show ?thesis by blast
qed

section \<open>Mounting\<close>

text \<open>
  C16: \<open>nxFatdriveMount\<close> either leaves no context behind, or creates one that holds the service
  and an open partition and registers it under the device name: the code it returns is then the
  answer of \<open>AddDevice\<close>, and as soon as newlib resolves the name to the registered table,
  \<open>get_global\<close> finds that context.
\<close>

theorem newlib_mount_registers:
  assumes "nxFatdriveMount C U N fs ds hp w = Some (Ret c, hp', w')"
  shows "hp' = hp \<or>
    (\<exists>ctx u iface fh ent w1. hp' = hp @ [Some ctx] \<and> nl_usb_hs_ctx ctx = Some u
       \<and> client_state ctx = Opened iface fh ent \<and> from_mbr U ent
       \<and> na_add N ((nxfatdrive_devoptab fs ds)\<lparr>deviceData := Suc (length hp)\<rparr>) w1 = (c, w')
       \<and> (na_get N device_name w' = Some ((nxfatdrive_devoptab fs ds)\<lparr>deviceData := Suc (length hp)\<rparr>)
            \<longrightarrow> get_global N hp' w' = Some (Inr ctx)))"
proof (cases "hp' = hp")
  case False
  obtain ctx w1 where i: "init_usb_hs_ctx U newlib_context_new w = (Inr (), ctx, w1)"
    using assms False by (cases "init_usb_hs_ctx U newlib_context_new w")
      (auto simp: nxFatdriveMount_def split: sum.splits)
  obtain ctx1 w2 where a: "nl_wait_for_usb_drive C U 0x800000 ctx w1 = (Ok (), ctx1, w2)"
    using assms False i by (cases "nl_wait_for_usb_drive C U 0x800000 ctx w1")
      (auto simp: nxFatdriveMount_def split: exec.splits sum.splits)
  obtain ctx2 w3 where o: "nl_open_partition C U 0 ctx1 w2 = Some (Ok (), ctx2, w3)"
    using assms False i a by (auto simp: nxFatdriveMount_def split: option.splits exec.splits sum.splits)
  have h: "hp' = hp @ [Some ctx2]"
    "na_add N ((nxfatdrive_devoptab fs ds)\<lparr>deviceData := Suc (length hp)\<rparr>) w3 = (c, w')"
    using assms i a o by (auto simp: nxFatdriveMount_def into_raw_def split: prod.splits)
  have u: "nl_usb_hs_ctx ctx1 \<noteq> None" using a by (cases rule: nl_wait_cases) auto
  from o obtain iface fh ent where "client_state ctx2 = Opened iface fh ent" "from_mbr U ent"
    "nl_usb_hs_ctx ctx2 = nl_usb_hs_ctx ctx1"
    by (cases rule: nl_open_cases) auto
  with h u show ?thesis by (auto simp: get_global_def deref_def)
qed simp

text \<open>A newlib whose only device is the one with context 1; removing it fails in the world \<open>False\<close>.\<close>

definition toy_newlib :: "bool newlib_api" where
  "toy_newlib = \<lparr>na_add = (\<lambda>t w. (3, w)), na_remove = (\<lambda>n w. (if w then 0 else - 1, w)),
     na_get = (\<lambda>n w. Some ((nxfatdrive_devoptab 0 0)\<lparr>deviceData := 1\<rparr>))\<rparr>"

definition toy_ctx :: "(unit, bytes, unit) newlib_context" where
  "toy_ctx = \<lparr>nl_usb_hs_ctx = Some (), client_state = Opened toy_iface ()
     \<lparr>partition_type = Fat32, logical_block_address = 2048, sector_count = 100\<rparr>,
     current_working_directory = None\<rparr>"

lemma toy_newlib_simps [simp]:
  "na_get toy_newlib n w = Some ((nxfatdrive_devoptab 0 0)\<lparr>deviceData := 1\<rparr>)"
  "na_add toy_newlib t w = (3, w)" "na_remove toy_newlib n w = (if w then 0 else - 1, w)"
  by (simp_all add: toy_newlib_def)

lemma toy_nl_mount:
  "nxFatdriveMount toy_crate toy_usb toy_newlib 0 0 [] True = Some (Ret 3, [Some toy_ctx], True)"
proof -
  have "nl_wait_for_usb_drive toy_crate toy_usb 0x800000 (newlib_context_new\<lparr>nl_usb_hs_ctx := Some ()\<rparr>) True
    = (Ok (), newlib_context_new\<lparr>nl_usb_hs_ctx := Some (), client_state := Acquired toy_iface toy_disk\<rparr>, True)"
    by (rule trans [OF toy_nl_wait]) (simp add: newlib_context_new_def)
  then show ?thesis
    by (simp add: nxFatdriveMount_def toy_nl_init toy_nl_open into_raw_def)
      (simp add: newlib_context_new_def toy_ctx_def)
qed

theorem newlib_mount_registers_witness:
  "\<exists>ctx u iface fh ent. [Some toy_ctx] = [Some ctx] \<and> nl_usb_hs_ctx ctx = Some u
     \<and> client_state ctx = Opened iface fh ent
     \<and> get_global toy_newlib [Some toy_ctx] True = Some (Inr ctx)"
  using newlib_mount_registers [OF toy_nl_mount] by (auto simp: get_global_def deref_def)

text \<open>
  C33: When \<open>open_partition\<close> fails after the boot sector was read and parsed (the index is past the
  table, or the file system does not mount), the acquired drive is lost: the context falls back
  to \<open>Uninitialized\<close>, and until a drive is acquired again every further \<open>open_partition\<close> answers
  \<open>NOT_INITIALIZED\<close>. A failure before that keeps the drive.
\<close>

theorem failed_open_loses_drive:
  assumes "nl_open_partition C U idx ctx w = Some (res, ctx', w')" "res \<noteq> Ok ()"
    and "client_state ctx = Acquired iface dev"
  shows "if \<exists>es c. get_partitions U ctx = Some (Ok es, c)
    then client_state ctx' = Uninitialized
      \<and> nl_open_partition C U idx' ctx' w2 = Some (Err NX_FATDRIVE_ERR_NOT_INITIALIZED, ctx', w2)
    else \<exists>dev1. client_state ctx' = Acquired iface dev1"
proof (cases "\<exists>es c. get_partitions U ctx = Some (Ok es, c)")
  case True
  then obtain es c where g: "get_partitions U ctx = Some (Ok es, c)" by blast
  then obtain dev1 where c: "c = ctx\<lparr>client_state := Acquired iface dev1\<rparr>"
    by (cases rule: get_partitions_cases) (use assms(3) in auto)
  have "mount_taken U iface dev1 es idx (ctx\<lparr>client_state := Uninitialized\<rparr>) w = (res, ctx', w')"
    using assms(1) g c by (simp add: nl_open_partition_def)
  then have "ctx' = ctx\<lparr>client_state := Uninitialized\<rparr>"
    by (cases rule: mount_taken_cases) (use assms(2) in auto)
  with True show ?thesis by (simp add: nl_open_partition_def get_partitions_def)
next
  case False
  from assms(1) show ?thesis
    by (cases rule: nl_open_cases) (use assms(2,3) False in auto)
qed

definition toy_acquired :: "(unit, bytes, unit) newlib_context" where
  "toy_acquired = \<lparr>nl_usb_hs_ctx = Some (), client_state = Acquired toy_iface toy_disk,
     current_working_directory = None\<rparr>"

lemma toy_acquired_partitions:
  "get_partitions toy_usb toy_acquired
    = Some (Ok [\<lparr>partition_type = Fat32, logical_block_address = 2048, sector_count = 100\<rparr>], toy_acquired)"
  by (simp add: get_partitions_def with_fake_capacity_def mbr_loop_toy toy_acquired_def)

theorem failed_open_loses_drive_witness:
  "nl_open_partition toy_crate toy_usb 0 (toy_acquired\<lparr>client_state := Uninitialized\<rparr>) False
     = Some (Err NX_FATDRIVE_ERR_NOT_INITIALIZED, toy_acquired\<lparr>client_state := Uninitialized\<rparr>, False)"
proof -
  have "nl_open_partition toy_crate toy_usb 5 toy_acquired True
      = Some (Err NX_FATDRIVE_ERR_UNKNOWN, toy_acquired\<lparr>client_state := Uninitialized\<rparr>, True)"
    using toy_acquired_partitions by (simp add: nl_open_partition_def mount_taken_def)
      (simp add: toy_acquired_def mount_taken_def)
  from failed_open_loses_drive [OF this, of toy_iface toy_disk 0 False]
  show ?thesis using toy_acquired_partitions by (auto simp: toy_acquired_def)
qed

text \<open>
  \<open>wait_for_usb_drive\<close> never takes its early return: called on a context whose partition is
  open, with a drive that answers, it acquires the drive once more, drops the open file system
  and puts the context back to \<open>Acquired\<close>, so the partition is no longer open.
\<close>

theorem wait_replaces_open_drive:
  assumes "client_state ctx = Opened iface fs ent" "nl_usb_hs_ctx ctx = Some u"
    and "us_event_create U bulk_only_filter w = (Inr evt, w1)" "us_event_wait U evt t w1 = (Inr (), w2)"
    and "us_query_available U u bulk_only_filter 3 w2 = (Inr (ifaces @ [i]), w3)"
    and "us_acquire U u i w3 = (Inr session, w4)" "build_client U session w4 = (Ok dev, w5)"
  shows "nl_wait_for_usb_drive C U t ctx w
    = (Ok (), ctx\<lparr>client_state := Acquired i dev\<rparr>, fc_drop_fs C fs w5)"
  using assms by (simp add: nl_wait_for_usb_drive_def)

theorem wait_replaces_open_drive_witness:
  "nl_wait_for_usb_drive toy_crate toy_usb 7 toy_ctx True
    = (Ok (), toy_ctx\<lparr>client_state := Acquired toy_iface toy_disk\<rparr>, fc_drop_fs toy_crate () True)"
proof (rule wait_replaces_open_drive)
  show "us_query_available toy_usb () bulk_only_filter 3 True = (Inr ([] @ [toy_iface]), True)" by simp
  show "build_client toy_usb () True = (Ok toy_disk, True)" by (simp add: build_client_def vec_new_eq)
qed (simp_all add: toy_ctx_def)

section \<open>Unmounting\<close>

lemma deref_pos: "deref hp p = Some c \<Longrightarrow> 0 < p \<and> p \<le> length hp"
  by (simp add: deref_def split: if_splits)

lemma deref_free_raw:
  assumes "deref hp p = Some c"
  shows "deref (free_raw p hp) q = (if q = p then None else deref hp q)"
  using deref_pos [OF assms] by (auto simp: deref_def free_raw_def nth_list_update)

lemma get_global_table:
  assumes "na_get N device_name w = Some d" "deviceData d = q"
  shows "get_global N hp w =
    (if q = 0 then Some (Inl NX_FATDRIVE_ERR_UNKNOWN) else map_option Inr (deref hp q))"
  unfolding get_global_def assms(1) option.case assms(2) ..

lemma with_mounted_refused:
  assumes "e = (if cstr_to_str pm = None then NX_FATDRIVE_ERR_UNKNOWN else NX_FATDRIVE_ERR_NOT_INITIALIZED)"
    and "cstr_to_str pm = None \<or> na_get N device_name w = None
      \<or> (\<exists>ctx. get_global N hp w = Some (Inr ctx) \<and> (\<forall>iface fs ent. client_state ctx \<noteq> Opened iface fs ent))"
  shows "with_mounted N hp fail pm r w k = Some (Ret (fail e), r\<lparr>errno := e\<rparr>, w)"
proof (cases "cstr_to_str pm")
  case (Some path)
  show ?thesis
  proof (cases "na_get N device_name w")
    case None
    then show ?thesis using assms(1) Some by (simp add: with_mounted_def get_global_def)
  next
    case (Some d)
    with assms(2) \<open>cstr_to_str pm = Some path\<close> obtain ctx where
      "get_global N hp w = Some (Inr ctx)" "\<forall>iface fs ent. client_state ctx \<noteq> Opened iface fs ent"
      by auto
    then show ?thesis using assms(1) \<open>cstr_to_str pm = Some path\<close>
      by (cases "client_state ctx") (simp_all add: with_mounted_def)
  qed
qed (use assms(1) in \<open>simp add: with_mounted_def\<close>)

text \<open>A dangling context.\<close>

lemma with_mounted_dangling:
  "get_global N hp w = None \<Longrightarrow> cstr_to_str pm = Some path \<Longrightarrow> with_mounted N hp fail pm r w k = None"
  by (simp add: with_mounted_def)

text \<open>
  C32: \<open>nxFatdriveUnmount\<close> frees the context and its file system even when \<open>RemoveDevice\<close> fails.
  If the table then still resolves to the device, the next lookup of the context follows the
  freed one (and a second unmount frees it again), which is undefined, so every handler on a path
  that decodes is. If the table no longer resolves, each such handler is refused with
  \<open>NOT_INITIALIZED\<close> and touches nothing (and a second unmount frees a null pointer). Handlers on
  open files and directories do not look the context up, and a new mount is not refused: neither
  is claimed here.
\<close>

theorem unmount_frees_context:
  assumes "na_get N device_name w = Some d" "deref hp (deviceData d) = Some ctx"
    and "na_remove N device_name w = (rc, w1)" "client_state ctx = Opened iface fs ent"
    and "nl_usb_hs_ctx ctx = Some u" "w2 = fc_drop_fs C fs (us_drop_ctx U u w1)"
    and "cstr_to_str pm = Some path" "cstr_to_str om = Some old_path"
  shows "\<exists>hp'. nxFatdriveUnmount C U N hp w = Some (rc, hp', w2)
    \<and> get_global N hp' w2 =
        (case na_get N device_name w2 of
           None \<Rightarrow> Some (Inl NX_FATDRIVE_ERR_NOT_INITIALIZED)
         | Some d' \<Rightarrow> if deviceData d' = deviceData d then None else get_global N hp w2)
    \<and> ((na_get N device_name w2 = Some d \<or> na_get N device_name w2 = None)
         \<longrightarrow> nxFatdriveUnmount C U N hp' w2 = None)
    \<and> (na_get N device_name w2 = None \<longrightarrow>
         fatdrive_open_r E N hp' fd pm flags md r w2
           = Some (Ret (NX_FATDRIVE_ERR_NOT_INITIALIZED, fd), r\<lparr>errno := NX_FATDRIVE_ERR_NOT_INITIALIZED\<rparr>, w2)
         \<and> fatdrive_diropen_r E N hp' di pm r w2 = Some (Ret (False, di), r\<lparr>errno := NX_FATDRIVE_ERR_NOT_INITIALIZED\<rparr>, w2)
         \<and> fatdrive_stat_r E N hp' pm r w2 = Some (Ret (- 1, None), r\<lparr>errno := NX_FATDRIVE_ERR_NOT_INITIALIZED\<rparr>, w2)
         \<and> fatdrive_lstat_r E N hp' pm r w2 = Some (Ret (- 1, None), r\<lparr>errno := NX_FATDRIVE_ERR_NOT_INITIALIZED\<rparr>, w2)
         \<and> fatdrive_mkdir_r C N hp' pm md r w2
           = Some (Ret NX_FATDRIVE_ERR_NOT_INITIALIZED, r\<lparr>errno := NX_FATDRIVE_ERR_NOT_INITIALIZED\<rparr>, w2)
         \<and> fatdrive_rmdir_r C N hp' pm r w2
           = Some (Ret NX_FATDRIVE_ERR_NOT_INITIALIZED, r\<lparr>errno := NX_FATDRIVE_ERR_NOT_INITIALIZED\<rparr>, w2)
         \<and> fatdrive_rename_r C E N hp' om pm r w2
           = Some (Ret NX_FATDRIVE_ERR_NOT_INITIALIZED, r\<lparr>errno := NX_FATDRIVE_ERR_NOT_INITIALIZED\<rparr>, w2))
    \<and> (map_option deviceData (na_get N device_name w2) = Some (deviceData d) \<longrightarrow>
         fatdrive_open_r E N hp' fd pm flags md r w2 = None \<and> fatdrive_diropen_r E N hp' di pm r w2 = None
         \<and> fatdrive_stat_r E N hp' pm r w2 = None \<and> fatdrive_lstat_r E N hp' pm r w2 = None
         \<and> fatdrive_mkdir_r C N hp' pm md r w2 = None \<and> fatdrive_rmdir_r C N hp' pm r w2 = None
         \<and> fatdrive_rename_r C E N hp' om pm r w2 = None)"
proof -
  obtain p where p: "deviceData d = p" by simp
  let ?hp = "free_raw p hp"
  note freed = deref_free_raw [OF assms(2) [unfolded p]]
  have 1: "nxFatdriveUnmount C U N hp w = Some (rc, ?hp, w2)"
    unfolding nxFatdriveUnmount_def assms(1,3) option.case p assms(2) [unfolded p]
    using assms(4,5,6) by (simp add: drop_context_def)
  have 2: "get_global N ?hp w2 =
      (case na_get N device_name w2 of
         None \<Rightarrow> Some (Inl NX_FATDRIVE_ERR_NOT_INITIALIZED)
       | Some d' \<Rightarrow> if deviceData d' = p then None else get_global N hp w2)"
  proof (cases "na_get N device_name w2")
    case (Some d')
    obtain q where q: "deviceData d' = q" by simp
    show ?thesis
      unfolding get_global_table [OF Some q] Some option.case q
      using freed [of q] deref_pos [OF assms(2)] p by (cases "q = p") auto
  qed (simp add: get_global_def)
  have 3: "nxFatdriveUnmount C U N ?hp w2 = None"
    if "na_get N device_name w2 = Some d \<or> na_get N device_name w2 = None"
    using that
  proof
    assume "na_get N device_name w2 = Some d"
    then show ?thesis
      unfolding nxFatdriveUnmount_def using p freed [of p] by simp
  qed (simp add: nxFatdriveUnmount_def)
  have 4: "with_mounted N ?hp fail pm r w2 k
      = Some (Ret (fail NX_FATDRIVE_ERR_NOT_INITIALIZED), r\<lparr>errno := NX_FATDRIVE_ERR_NOT_INITIALIZED\<rparr>, w2)"
    if "na_get N device_name w2 = None" for fail :: "u32 \<Rightarrow> 'z" and k
    using that assms(7) by (intro with_mounted_refused) simp_all
  have 5: "with_mounted N ?hp fail pm r w2 k = None"
    if "map_option deviceData (na_get N device_name w2) = Some p" for fail :: "u32 \<Rightarrow> 'z" and k
    using that 2 assms(7) by (intro with_mounted_dangling) auto
  show ?thesis
    unfolding p fatdrive_open_r_def fatdrive_diropen_r_def fatdrive_lstat_r_def fatdrive_stat_r_def
      fatdrive_mkdir_r_def fatdrive_rmdir_r_def fatdrive_rename_r_def assms(8) option.case
    by (rule exI [of _ ?hp]) (intro conjI impI; (fact 1 | fact 2 | fact 3 | simp only: 4 id_apply | simp only: 5))
qed

theorem unmount_frees_context_witness:
  "\<exists>hp'. nxFatdriveUnmount toy_crate toy_usb toy_newlib [Some toy_ctx] False = Some (- 1, hp', False)
    \<and> get_global toy_newlib hp' False = None
    \<and> fatdrive_mkdir_r toy_crate toy_newlib hp' [0x61, 0] 0 \<lparr>errno = 0\<rparr> False = None"
proof -
  let ?d = "(nxfatdrive_devoptab 0 0)\<lparr>deviceData := 1\<rparr>"
  have c: "cstr_to_str [0x61, 0] = Some [0x61]" by code_simp
  have h: "deref [Some toy_ctx] (deviceData ?d) = Some toy_ctx" by (simp add: deref_def)
  have t: "na_remove toy_newlib device_name False = (- 1, False)"
    "False = fc_drop_fs toy_crate () (us_drop_ctx toy_usb () False)"
    "na_get toy_newlib device_name False = Some ?d"
    by (simp_all add: toy_crate_def)
  obtain ent where o: "client_state toy_ctx = Opened toy_iface () ent" "nl_usb_hs_ctx toy_ctx = Some ()"
    by (simp add: toy_ctx_def)
  show ?thesis
    using unmount_frees_context [OF t(3) h t(1) o t(2) c c, of _ None 0 0 "\<lparr>errno = 0\<rparr>" None]
    by (auto simp: t(3))
qed

section \<open>Handlers that panic\<close>

text \<open>
  With a partition open and a path that decodes, opening a file or a directory and asking for
  the status of a path all panic (\<open>path_to_dirent\<close> is unimplemented), and so do \<open>fstat\<close> on any
  file and \<open>dirnext\<close> on any entry when the caller wants its status (the conversion of times is
  unimplemented): on the mounted device these calls never return.
\<close>

theorem mounted_lookups_panic:
  assumes "cstr_to_str pm = Some path" "get_global N hp w = Some (Inr ctx)"
    and "client_state ctx = Opened iface fs ent"
  shows "map_option fst (fatdrive_open_r E N hp fd pm flags md r w) = Some Panic
    \<and> map_option fst (fatdrive_diropen_r E N hp di pm r w) = Some Panic
    \<and> map_option fst (fatdrive_stat_r E N hp pm r w) = Some Panic
    \<and> map_option fst (fatdrive_lstat_r E N hp pm r w) = Some Panic
    \<and> fst (fatdrive_fstat_r E (Some fl) r) = Panic
    \<and> (\<forall>it d p w'. dirStruct it = Some (Dir d)
         \<and> iter_nth C (unat (index d)) (fc_iter C (e_to_dir E (dir d))) w = (Some (Inr p), w')
         \<longrightarrow> map_option fst (fatdrive_dirnext_r C E (Some it) nm (Some st) r w) = Some Panic)"
  using assms
  by (simp add: fatdrive_open_r_def fatdrive_diropen_r_def fatdrive_stat_r_def fatdrive_lstat_r_def
      fatdrive_fstat_r_def fatdrive_dirnext_r_def with_mounted_def path_to_dirent_def stat_dirent_def
      fat_time_to_unix_def Let_def)

text \<open>Entries of a directory whose files are their names.\<close>

definition toy_entries :: "(bool, fat_dirent list, rstr, fat_dirent, unit) entry_ops" where
  "toy_entries = \<lparr>e_data = id, e_to_file = file_name, e_to_dir = (\<lambda>e. [e]),
     e_rename = (\<lambda>d p d' p' w. (Inr (), w)), e_accessed = (\<lambda>_. ()),
     e_created = (\<lambda>_. \<lparr>dt_date = (), dt_hour = 0, dt_min = 0, dt_sec = 0, dt_millis = 0\<rparr>),
     e_modified = (\<lambda>_. \<lparr>dt_date = (), dt_hour = 0, dt_min = 0, dt_sec = 0, dt_millis = 0\<rparr>)\<rparr>"

theorem mounted_lookups_panic_witness:
  "map_option fst (fatdrive_open_r toy_entries toy_newlib [Some toy_ctx] None [0x61, 0] 0 0 \<lparr>errno = 0\<rparr> True)
    = Some Panic"
proof -
  have "cstr_to_str [0x61, 0] = Some [0x61]" by code_simp
  moreover have "get_global toy_newlib [Some toy_ctx] True = Some (Inr toy_ctx)"
    by (simp add: get_global_def deref_def)
  ultimately show ?thesis
    by (rule mounted_lookups_panic [THEN conjunct1]) (simp add: toy_ctx_def)
qed

text \<open>
  Before a mount (no table under the name), or while the context has no open partition, every
  handler on a path is refused with \<open>NOT_INITIALIZED\<close> in \<open>errno\<close> and touches nothing; a path that
  is not UTF-8 is refused with the unknown code before the context is looked at.
\<close>

theorem unmounted_handlers_refuse:
  assumes "e = (if cstr_to_str pm = None then NX_FATDRIVE_ERR_UNKNOWN else NX_FATDRIVE_ERR_NOT_INITIALIZED)"
    and "cstr_to_str pm = None \<or> na_get N device_name w = None
      \<or> (\<exists>ctx. get_global N hp w = Some (Inr ctx) \<and> (\<forall>iface fs ent. client_state ctx \<noteq> Opened iface fs ent))"
  shows "fatdrive_open_r E N hp fd pm flags md r w = Some (Ret (e, fd), r\<lparr>errno := e\<rparr>, w)
    \<and> fatdrive_diropen_r E N hp di pm r w = Some (Ret (False, di), r\<lparr>errno := e\<rparr>, w)
    \<and> fatdrive_stat_r E N hp pm r w = Some (Ret (- 1, None), r\<lparr>errno := e\<rparr>, w)
    \<and> fatdrive_mkdir_r C N hp pm md r w = Some (Ret e, r\<lparr>errno := e\<rparr>, w)
    \<and> fatdrive_rmdir_r C N hp pm r w = Some (Ret e, r\<lparr>errno := e\<rparr>, w)"
  by (simp add: fatdrive_open_r_def fatdrive_diropen_r_def fatdrive_stat_r_def fatdrive_mkdir_r_def
      fatdrive_rmdir_r_def with_mounted_refused [OF assms])

theorem unmounted_handlers_refuse_witness:
  "fatdrive_mkdir_r toy_crate toy_newlib [Some (toy_ctx\<lparr>client_state := Uninitialized\<rparr>)] [0x61, 0] 0 \<lparr>errno = 0\<rparr> True
    = Some (Ret NX_FATDRIVE_ERR_NOT_INITIALIZED, \<lparr>errno = NX_FATDRIVE_ERR_NOT_INITIALIZED\<rparr>, True)"
proof -
  have c: "cstr_to_str [0x61, 0] = Some [0x61]" by code_simp
  have "get_global toy_newlib [Some (toy_ctx\<lparr>client_state := Uninitialized\<rparr>)] True
      = Some (Inr (toy_ctx\<lparr>client_state := Uninitialized\<rparr>))"
    by (simp add: get_global_def deref_def)
  then show ?thesis
    using unmounted_handlers_refuse [OF refl, of "[0x61, 0]" toy_newlib True
      "[Some (toy_ctx\<lparr>client_state := Uninitialized\<rparr>)]" toy_entries None 0 0 "\<lparr>errno = 0\<rparr>" None toy_crate] c
    by simp
qed

section \<open>Seeking\<close>

text \<open>
  The whence values are shifted by one against newlib's (\<open>SEEK_SET\<close> 0, \<open>SEEK_CUR\<close> 1,
  \<open>SEEK_END\<close> 2): a \<open>SEEK_SET\<close> is refused with -1 and leaves the offset, a \<open>SEEK_CUR\<close> moves to the
  absolute position, and a \<open>SEEK_END\<close> moves relative to the offset.
\<close>

theorem newlib_whence_shifted:
  assumes "fc_seek C (e_to_file E (fatfl fl)) (Start (offset fl)) w = (Inr base, f1, w1)"
    and "fc_seek C f1 (Start pos) w1 = (Inr pos, f2, w2)"
    and "fc_seek C f1 (Current pos) w1 = (Inr cur, f3, w3)"
  shows "fatdrive_seek_r C E (Some fl) pos 0 r w
      = (- 1, Some fl, r\<lparr>errno := NX_FATDRIVE_ERR_UNKNOWN\<rparr>, fc_drop_file C f1 w1)
    \<and> fatdrive_seek_r C E (Some fl) pos 1 r w = (pos, Some (fl\<lparr>offset := pos\<rparr>), r, fc_drop_file C f2 w2)
    \<and> fatdrive_seek_r C E (Some fl) pos 2 r w = (cur, Some (fl\<lparr>offset := cur\<rparr>), r, fc_drop_file C f3 w3)"
  using assms by (simp add: fatdrive_seek_r_def with_fd_def at_offset_def whence_target_def)

text \<open>
  What the handlers rely on of an open file of the crate, inside its length: \<open>content\<close> is its
  content in a world, \<open>pos\<close> the position of a handle on it (\<open>on\<close>). Transfers may be short.
\<close>

definition file_law ::
  "('w, 'fs, 'f, 'd, 'it) fat_crate \<Rightarrow> ('f \<Rightarrow> bool) \<Rightarrow> ('f \<Rightarrow> u64) \<Rightarrow> ('w \<Rightarrow> bytes) \<Rightarrow> bool" where
  "file_law C on pos content \<longleftrightarrow>
     (\<forall>f p w. on f \<and> unat p \<le> length (content w) \<longrightarrow>
        (\<exists>f' w'. fc_seek C f (Start p) w = (Inr p, f', w') \<and> on f' \<and> pos f' = p \<and> content w' = content w))
     \<and> (\<forall>f b w. on f \<and> b \<noteq> [] \<and> unat (pos f) + length b \<le> length (content w) \<longrightarrow>
        (\<exists>n f' w'. fc_write C f b w = (Inr n, f', w') \<and> on f' \<and> 0 < unat n \<and> unat n \<le> length b
           \<and> content w' = take (unat (pos f)) (content w) @ take (unat n) b @ drop (unat (pos f) + unat n) (content w)))
     \<and> (\<forall>f b w. on f \<and> b \<noteq> [] \<and> unat (pos f) + length b \<le> length (content w) \<longrightarrow>
        (\<exists>n f' w'. fc_read C f b w =
             (Inr n, take (unat n) (drop (unat (pos f)) (content w)) @ drop (unat n) b, f', w')
           \<and> on f' \<and> 0 < unat n \<and> unat n \<le> length b \<and> content w' = content w))
     \<and> (\<forall>f w. on f \<longrightarrow> (\<exists>f' w'. fc_flush C f w = (Inr (), f', w') \<and> on f' \<and> content w' = content w))
     \<and> (\<forall>f w. on f \<longrightarrow> content (fc_drop_file C f w) = content w)"

lemma file_lawD:
  assumes "file_law C on pos content" "on f"
  shows "unat p \<le> length (content w) \<Longrightarrow>
      \<exists>f' w'. fc_seek C f (Start p) w = (Inr p, f', w') \<and> on f' \<and> pos f' = p \<and> content w' = content w"
    and "b \<noteq> [] \<Longrightarrow> unat (pos f) + length b \<le> length (content w) \<Longrightarrow>
      \<exists>n f' w'. fc_write C f b w = (Inr n, f', w') \<and> on f' \<and> 0 < unat n \<and> unat n \<le> length b
        \<and> content w' = take (unat (pos f)) (content w) @ take (unat n) b @ drop (unat (pos f) + unat n) (content w)"
    and "b \<noteq> [] \<Longrightarrow> unat (pos f) + length b \<le> length (content w) \<Longrightarrow>
      \<exists>n f' w'. fc_read C f b w =
          (Inr n, take (unat n) (drop (unat (pos f)) (content w)) @ drop (unat n) b, f', w')
        \<and> on f' \<and> 0 < unat n \<and> unat n \<le> length b \<and> content w' = content w"
    and "\<exists>f' w'. fc_flush C f w = (Inr (), f', w') \<and> on f' \<and> content w' = content w"
    and "content (fc_drop_file C f w) = content w"
  using assms unfolding file_law_def by meson+

lemma newlib_write:
  assumes "file_law C on pos content" "on (e_to_file E (fatfl fl))"
    and "b \<noteq> []" "unat (offset fl) + length b \<le> length (content w)"
  shows "\<exists>n w1. fatdrive_write_r C E (Some fl) b r w = (n, Some (fl\<lparr>offset := offset fl + n\<rparr>), r, w1)
    \<and> 0 < unat n \<and> unat n \<le> length b
    \<and> content w1 = take (unat (offset fl)) (content w) @ take (unat n) b @ drop (unat (offset fl) + unat n) (content w)"
proof -
  note law = file_lawD [OF assms(1)]
  obtain f1 w1 where s: "fc_seek C (e_to_file E (fatfl fl)) (Start (offset fl)) w = (Inr (offset fl), f1, w1)"
    "on f1" "pos f1 = offset fl" "content w1 = content w"
    using law(1) [OF assms(2), of "offset fl" w] assms(4) by auto
  obtain n f2 w2 where wr: "fc_write C f1 b w1 = (Inr n, f2, w2)" "on f2" "0 < unat n" "unat n \<le> length b"
    "content w2 = take (unat (offset fl)) (content w) @ take (unat n) b @ drop (unat (offset fl) + unat n) (content w)"
    using law(2) [OF s(2) assms(3), of w1] assms(4) s(3,4) by auto
  obtain f3 w3 where fl: "fc_flush C f2 w2 = (Inr (), f3, w3)" "on f3" "content w3 = content w2"
    using law(4) [OF wr(2), of w2] by blast
  show ?thesis
    using s(1) wr fl(1,3) law(5) [OF fl(2), of w3]
    by (auto simp: fatdrive_write_r_def with_fd_def at_offset_def)
qed

lemma newlib_read:
  assumes "file_law C on pos content" "on (e_to_file E (fatfl fl))"
    and "b \<noteq> []" "unat (offset fl) + length b \<le> length (content w)"
  shows "\<exists>n w1. fatdrive_read_r C E (Some fl) b r w
      = ((n, take (unat n) (drop (unat (offset fl)) (content w)) @ drop (unat n) b),
         Some (fl\<lparr>offset := offset fl + n\<rparr>), r, w1)
    \<and> 0 < unat n \<and> unat n \<le> length b \<and> content w1 = content w"
proof -
  note law = file_lawD [OF assms(1)]
  obtain f1 w1 where s: "fc_seek C (e_to_file E (fatfl fl)) (Start (offset fl)) w = (Inr (offset fl), f1, w1)"
    "on f1" "pos f1 = offset fl" "content w1 = content w"
    using law(1) [OF assms(2), of "offset fl" w] assms(4) by auto
  obtain n f2 w2 where rd: "fc_read C f1 b w1
      = (Inr n, take (unat n) (drop (unat (offset fl)) (content w)) @ drop (unat n) b, f2, w2)"
    "on f2" "0 < unat n" "unat n \<le> length b" "content w2 = content w"
    using law(3) [OF s(2) assms(3), of w1] assms(4) s(3,4) by auto
  show ?thesis
    using s(1) rd law(5) [OF rd(2), of w2] by (auto simp: fatdrive_read_r_def with_fd_def at_offset_def)
qed

text \<open>
  C17: Inside the length of a file of a working file system, the write handler moves the offset by
  the number \<open>n > 0\<close> of bytes it reports, and these are the bytes of the file from the old offset
  on, the rest unchanged; a read from the old offset into a buffer of at most \<open>n\<close> bytes then
  returns the beginning of what was written, and moves the offset by what it reports.
\<close>

theorem newlib_write_then_read:
  assumes "file_law C on pos content" "on (e_to_file E (fatfl fl))"
    and "b \<noteq> []" "unat (offset fl) + length b \<le> length (content w)"
  shows "\<exists>n w1. fatdrive_write_r C E (Some fl) b r w = (n, Some (fl\<lparr>offset := offset fl + n\<rparr>), r, w1)
    \<and> 0 < unat n \<and> unat n \<le> length b
    \<and> content w1 = take (unat (offset fl)) (content w) @ take (unat n) b @ drop (unat (offset fl) + unat n) (content w)
    \<and> (\<forall>buf. buf \<noteq> [] \<and> length buf \<le> unat n \<longrightarrow>
        (\<exists>m w2. fatdrive_read_r C E (Some fl) buf r w1
            = ((m, take (unat m) b @ drop (unat m) buf), Some (fl\<lparr>offset := offset fl + m\<rparr>), r, w2)
          \<and> 0 < unat m \<and> unat m \<le> length buf \<and> content w2 = content w1))"
proof -
  obtain n w1 where wr: "fatdrive_write_r C E (Some fl) b r w = (n, Some (fl\<lparr>offset := offset fl + n\<rparr>), r, w1)"
    "0 < unat n" "unat n \<le> length b"
    "content w1 = take (unat (offset fl)) (content w) @ take (unat n) b @ drop (unat (offset fl) + unat n) (content w)"
    using newlib_write [OF assms] by blast
  have rest: "drop (unat (offset fl)) (content w1) = take (unat n) b @ drop (unat (offset fl) + unat n) (content w)"
    using wr(4) assms(4) by simp
  have "\<exists>m w2. fatdrive_read_r C E (Some fl) buf r w1
        = ((m, take (unat m) b @ drop (unat m) buf), Some (fl\<lparr>offset := offset fl + m\<rparr>), r, w2)
      \<and> 0 < unat m \<and> unat m \<le> length buf \<and> content w2 = content w1"
    if "buf \<noteq> []" "length buf \<le> unat n" for buf
  proof -
    have len: "unat (offset fl) + length buf \<le> length (content w1)"
      using wr(3,4) assms(4) that(2) by simp
    show ?thesis
      using newlib_read [OF assms(1,2) that(1) len, of r] that(2) wr(3) unfolding rest by fastforce
  qed
  with wr show ?thesis by blast
qed

text \<open>A file system of one file, the world, that moves one byte per call.\<close>

definition byte_crate :: "(bytes, unit, u64, fat_dirent list, fat_dirent list) fat_crate" where
  "byte_crate = \<lparr>
     fc_root_dir = (\<lambda>_. []), fc_open_file = (\<lambda>d p w. (Inr 0, w)), fc_open_dir = (\<lambda>d p w. (Inr [], w)),
     fc_create_file = (\<lambda>d p w. (Inr 0, w)), fc_create_dir = (\<lambda>d p w. (Inr [], w)),
     fc_remove = (\<lambda>d p w. (Inr (), w)), fc_stats = (\<lambda>fs w. (Inr (512, 10, 4), w)),
     fc_read = (\<lambda>f b w. (Inr 1, take 1 (drop (unat f) w) @ drop 1 b, f + 1, w)),
     fc_write = (\<lambda>f b w. (Inr 1, f + 1, take (unat f) w @ take 1 b @ drop (unat f + 1) w)),
     fc_seek = (\<lambda>f p w. let q = (case p of Start a \<Rightarrow> a | Current d \<Rightarrow> f + d | End d \<Rightarrow> of_nat (length w) + d)
        in (Inr q, q, w)),
     fc_flush = (\<lambda>f w. (Inr (), f, w)), fc_truncate = (\<lambda>f w. (Inr (), f, take (unat f) w)),
     fc_drop_file = (\<lambda>f w. w), fc_drop_dir = (\<lambda>d w. w), fc_drop_fs = (\<lambda>f w. w),
     fc_iter = id,
     fc_next = (\<lambda>it w. case it of [] \<Rightarrow> (None, [], w) | e # es \<Rightarrow> (Some (Inr e), es, w))\<rparr>"

definition byte_entries :: "(bytes, fat_dirent list, u64, fat_dirent, unit) entry_ops" where
  "byte_entries = \<lparr>e_data = id, e_to_file = (\<lambda>_. 0), e_to_dir = (\<lambda>e. [e]),
     e_rename = (\<lambda>d p d' p' w. (Inr (), w)), e_accessed = (\<lambda>_. ()),
     e_created = (\<lambda>_. \<lparr>dt_date = (), dt_hour = 0, dt_min = 0, dt_sec = 0, dt_millis = 0\<rparr>),
     e_modified = (\<lambda>_. \<lparr>dt_date = (), dt_hour = 0, dt_min = 0, dt_sec = 0, dt_millis = 0\<rparr>)\<rparr>"

lemma byte_file_law: "file_law byte_crate (\<lambda>_. True) id id"
  unfolding file_law_def by (auto simp: byte_crate_def Let_def neq_Nil_conv)

theorem newlib_write_then_read_witness:
  "\<exists>n w1 m w2. fatdrive_write_r byte_crate byte_entries (Some \<lparr>fatfl = toy_entry, offset = 1\<rparr>) [0x61, 0x62]
      \<lparr>errno = 0\<rparr> [1, 2, 3, 4] = (n, Some \<lparr>fatfl = toy_entry, offset = 1 + n\<rparr>, \<lparr>errno = 0\<rparr>, w1)
    \<and> fatdrive_read_r byte_crate byte_entries (Some \<lparr>fatfl = toy_entry, offset = 1\<rparr>) [0] \<lparr>errno = 0\<rparr> w1
      = ((m, take (unat m) [0x61, 0x62] @ drop (unat m) [0]), Some \<lparr>fatfl = toy_entry, offset = 1 + m\<rparr>, \<lparr>errno = 0\<rparr>, w2)
    \<and> unat m = 1"
proof -
  let ?fl = "\<lparr>fatfl = toy_entry, offset = 1\<rparr>"
  from newlib_write_then_read [where E = byte_entries and fl = ?fl and b = "[0x61, 0x62]"
      and w = "[1, 2, 3, 4]" and r = "\<lparr>errno = 0\<rparr>", OF byte_file_law]
  obtain n w1 where wr: "fatdrive_write_r byte_crate byte_entries (Some ?fl) [0x61, 0x62]
      \<lparr>errno = 0\<rparr> [1, 2, 3, 4] = (n, Some \<lparr>fatfl = toy_entry, offset = 1 + n\<rparr>, \<lparr>errno = 0\<rparr>, w1)" "0 < unat n"
    and rd: "\<forall>buf. buf \<noteq> [] \<and> length buf \<le> unat n \<longrightarrow>
        (\<exists>m. fatdrive_read_r byte_crate byte_entries (Some ?fl) buf \<lparr>errno = 0\<rparr> w1
            = ((m, take (unat m) [0x61, 0x62] @ drop (unat m) buf),
               Some \<lparr>fatfl = toy_entry, offset = 1 + m\<rparr>, \<lparr>errno = 0\<rparr>, w1)
          \<and> 0 < unat m \<and> unat m \<le> length buf)"
    by auto
  from rd [rule_format, of "[0]"] wr obtain m where
    "fatdrive_read_r byte_crate byte_entries (Some ?fl) [0] \<lparr>errno = 0\<rparr> w1
      = ((m, take (unat m) [0x61, 0x62] @ drop (unat m) [0]), Some \<lparr>fatfl = toy_entry, offset = 1 + m\<rparr>, \<lparr>errno = 0\<rparr>, w1)"
    "0 < unat m \<and> unat m \<le> 1" by auto
  with wr(1) show ?thesis by (intro exI conjI) (assumption, assumption, linarith)
qed

theorem newlib_whence_shifted_witness:
  "fst (fatdrive_seek_r byte_crate byte_entries (Some \<lparr>fatfl = toy_entry, offset = 2\<rparr>) 5 0 \<lparr>errno = 0\<rparr> []) = - 1
    \<and> fst (fatdrive_seek_r byte_crate byte_entries (Some \<lparr>fatfl = toy_entry, offset = 2\<rparr>) 5 1 \<lparr>errno = 0\<rparr> []) = 5
    \<and> fst (fatdrive_seek_r byte_crate byte_entries (Some \<lparr>fatfl = toy_entry, offset = 2\<rparr>) 5 2 \<lparr>errno = 0\<rparr> []) = 7"
proof -
  have "fc_seek byte_crate (e_to_file byte_entries (fatfl \<lparr>fatfl = toy_entry, offset = 2\<rparr>))
      (Start (offset \<lparr>fatfl = toy_entry, offset = 2\<rparr>)) [] = (Inr 2, 2, [])"
    "fc_seek byte_crate 2 (Start 5) [] = (Inr 5, 5, [])" "fc_seek byte_crate 2 (Current 5) [] = (Inr 7, 7, [])"
    by (simp_all add: byte_crate_def)
  from newlib_whence_shifted [OF this] show ?thesis by simp
qed

section \<open>Directories and status\<close>

text \<open>
  C34: On a directory handle whose listing is \<open>es\<close> (the crate yields them without an error and
  without an effect on the world), a call of \<open>dirnext\<close> at index \<open>k\<close> that asks for the name only, with
  at least 255 bytes for it, returns 0 inside the listing, sets no \<open>errno\<close>, advances the index and
  puts the name of entry \<open>k\<close>, cut at 255 bytes and without a terminating zero, into the buffer. At
  the end and past it the call is undefined (a zeroed \<open>DirEntry\<close>): no call answers that the
  directory has ended. \<open>dirreset\<close> starts over at index 0.
\<close>

theorem dirnext_undefined_at_end:
  assumes "dirStruct it = Some (Dir d)" "index d = of_nat k" "k < 2 ^ 64"
    and "yields C w (fc_iter C (e_to_dir E (dir d))) es" "255 \<le> length buf"
  shows "fatdrive_dirnext_r C E (Some it) (Some buf) None r w
      = (if k < length es
         then Some (Ret (0, Some (it\<lparr>dirStruct := Some (Dir (d\<lparr>index := of_nat (Suc k)\<rparr>))\<rparr>),
          Some (take 255 (file_name (es ! k)) @ drop (min (length (file_name (es ! k))) 255) buf), None), r, w)
         else None)
    \<and> fatdrive_dirreset_r (Some it) r
      = (0, Some (it\<lparr>dirStruct := Some (Dir (d\<lparr>index := 0\<rparr>))\<rparr>), r)"
proof -
  have k: "unat (of_nat k :: u64) = k"
    using assms(3) by (simp add: unsigned_of_nat take_bit_nat_eq_self_iff)
  have cut: "take (min n 255) xs = take 255 xs" if "length xs = n" for xs :: bytes and n
    using that by (cases "n \<le> 255") (simp_all add: min_def)
  show ?thesis
    using assms(1,2,5) iter_nth_yields [OF assms(4), of k] cut
    by (auto simp: fatdrive_dirnext_r_def fatdrive_dirreset_r_def k put_name_def Let_def
        NX_FATDRIVE_NAME_MAX_def add.commute)
qed

theorem dirnext_undefined_at_end_witness:
  "fatdrive_dirnext_r toy_crate toy_entries
      (Some \<lparr>di_device = 0, dirStruct = Some (Dir \<lparr>dir = toy_entry, index = 0\<rparr>)\<rparr>)
      (Some (replicate 255 7)) None \<lparr>errno = 0\<rparr> True
    = Some (Ret (0, Some \<lparr>di_device = 0, dirStruct = Some (Dir \<lparr>dir = toy_entry, index = 1\<rparr>)\<rparr>,
        Some ([0x62] @ replicate 254 7), None), \<lparr>errno = 0\<rparr>, True)
   \<and> fatdrive_dirnext_r toy_crate toy_entries
      (Some \<lparr>di_device = 0, dirStruct = Some (Dir \<lparr>dir = toy_entry, index = 1\<rparr>)\<rparr>)
      (Some (replicate 255 7)) None \<lparr>errno = 0\<rparr> True = None"
proof -
  have y: "yields toy_crate True (fc_iter toy_crate (e_to_dir toy_entries toy_entry)) [toy_entry]"
    using toy_yields [of True "[toy_entry]"] by (simp add: toy_entries_def)
  have name: "file_name toy_entry = [0x62]" by (simp add: toy_entry_def)
  show ?thesis
    using dirnext_undefined_at_end [where it = "\<lparr>di_device = 0, dirStruct = Some (Dir \<lparr>dir = toy_entry, index = 0\<rparr>)\<rparr>"
        and d = "\<lparr>dir = toy_entry, index = 0\<rparr>" and k = 0 and es = "[toy_entry]" and C = toy_crate and w = True
        and E = toy_entries and buf = "replicate 255 7" and r = "\<lparr>errno = 0\<rparr>"]
      dirnext_undefined_at_end [where it = "\<lparr>di_device = 0, dirStruct = Some (Dir \<lparr>dir = toy_entry, index = 1\<rparr>)\<rparr>"
        and d = "\<lparr>dir = toy_entry, index = 1\<rparr>" and k = 1 and es = "[toy_entry]" and C = toy_crate and w = True
        and E = toy_entries and buf = "replicate 255 7" and r = "\<lparr>errno = 0\<rparr>"] y
    by (simp add: name del: replicate.simps)
qed

text \<open>
  The mode of every entry grants everything to everyone: because the read constants already
  hold all three bits of their digit, the write bits that \<open>READ_ONLY\<close> clears are set all the same,
  and only the type bit tells entries apart. The block count exceeds the size in blocks, by one
  block when the size is a multiple of 512.
\<close>

theorem mode_hides_read_only:
  "st_mode (stat_fields ent) = (if attr_directory ent then 0x41FF else 0x81FF)
    \<and> st_size (stat_fields ent) = ent_len ent \<and> st_nlink (stat_fields ent) = 1
    \<and> unat (st_blocks (stat_fields ent)) = unat (ent_len ent) div 512 + 1
    \<and> unat (st_size (stat_fields ent)) < 512 * unat (st_blocks (stat_fields ent))"
proof -
  obtain n where n: "unat (ent_len ent) = n" "n < 2 ^ 64" using unat64_less [of "ent_len ent"] by simp
  have d: "unat (ent_len ent div 512) = n div 512" by (simp add: unat_div n(1))
  have "n div 512 < 2 ^ 55" using n(2) by (simp add: less_mult_imp_div_less)
  then have b: "unat (1 + ent_len ent div 512) = n div 512 + 1"
    using unat_plus_small [of "1 :: u64" "ent_len ent div 512"] d by simp
  have m: "n < 512 * (n div 512 + 1)" using dividend_less_times_div [of 512 n] by simp
  have "mode_bits ent = (if attr_directory ent then 0x41FF else 0x81FF)"
    by (simp add: mode_bits_def stat_bits)
  then show ?thesis using b m n(1) by (simp add: stat_fields_def)
qed

end
