(* ===== verification/Errno.thy ===== *)
theory Errno
  imports NewlibThms
begin

text \<open>
  \<open>mod errno\<close> of \<open>src/capi_helpers/iosupport.rs\<close>, the error numbers of newlib, and what the handlers
  put into \<open>errno\<close> instead.
\<close>

text \<open>The constants \<open>NX_FATDRIVE_ERRNO_\<close>...\<close>

definition errno_table :: "(string \<times> i32) list" where
  "errno_table =
    [(''EPERM'', 1), (''ENOENT'', 2), (''ESRCH'', 3), (''EINTR'', 4), (''EIO'', 5), (''ENXIO'', 6),
     (''E2BIG'', 7), (''ENOEXEC'', 8), (''EBADF'', 9), (''ECHILD'', 10), (''EAGAIN'', 11),
     (''ENOMEM'', 12), (''EACCES'', 13), (''EFAULT'', 14), (''ENOTBLK'', 15), (''EBUSY'', 16),
     (''EEXIST'', 17), (''EXDEV'', 18), (''ENODEV'', 19), (''ENOTDIR'', 20), (''EISDIR'', 21),
     (''EINVAL'', 22), (''ENFILE'', 23), (''EMFILE'', 24), (''ENOTTY'', 25), (''ETXTBSY'', 26),
     (''EFBIG'', 27), (''ENOSPC'', 28), (''ESPIPE'', 29), (''EROFS'', 30), (''EMLINK'', 31),
     (''EPIPE'', 32), (''EDOM'', 33), (''ERANGE'', 34), (''ENOMSG'', 35), (''EIDRM'', 36),
     (''ECHRNG'', 37), (''EL2NSYNC'', 38), (''EL3HLT'', 39), (''EL3RST'', 40), (''ELNRNG'', 41),
     (''EUNATCH'', 42), (''ENOCSI'', 43), (''EL2HLT'', 44), (''EDEADLK'', 45), (''ENOLCK'', 46),
     (''EBADE'', 50), (''EBADR'', 51), (''EXFULL'', 52), (''ENOANO'', 53), (''EBADRQC'', 54),
     (''EBADSLT'', 55), (''EDEADLOCK'', 56), (''EBFONT'', 57), (''ENOSTR'', 60), (''ENODATA'', 61),
     (''ETIME'', 62), (''ENOSR'', 63), (''ENONET'', 64), (''ENOPKG'', 65), (''EREMOTE'', 66),
     (''ENOLINK'', 67), (''EADV'', 68), (''ESRMNT'', 69), (''ECOMM'', 70), (''EPROTO'', 71),
     (''EMULTIHOP'', 74), (''ELBIN'', 75), (''EDOTDOT'', 76), (''EBADMSG'', 77), (''EFTYPE'', 79),
     (''ENOTUNIQ'', 80), (''EBADFD'', 81), (''EREMCHG'', 82), (''ELIBACC'', 83), (''ELIBBAD'', 84),
     (''ELIBSCN'', 85), (''ELIBMAX'', 86), (''ELIBEXEC'', 87), (''ENOSYS'', 88), (''ENMFILE'', 89),
     (''ENOTEMPTY'', 90), (''ENAMETOOLONG'', 91), (''ELOOP'', 92), (''EOPNOTSUPP'', 95),
     (''EPFNOSUPPORT'', 96), (''ECONNRESET'', 104), (''ENOBUFS'', 105), (''EAFNOSUPPORT'', 106),
     (''EPROTOTYPE'', 107), (''ENOTSOCK'', 108), (''ENOPROTOOPT'', 109), (''ESHUTDOWN'', 110),
     (''ECONNREFUSED'', 111), (''EADDRINUSE'', 112), (''ECONNABORTED'', 113), (''ENETUNREACH'', 114),
     (''ENETDOWN'', 115), (''ETIMEDOUT'', 116), (''EHOSTDOWN'', 117), (''EHOSTUNREACH'', 118),
     (''EINPROGRESS'', 119), (''EALREADY'', 120), (''EDESTADDRREQ'', 121), (''EMSGSIZE'', 122),
     (''EPROTONOSUPPORT'', 123), (''ESOCKTNOSUPPORT'', 124), (''EADDRNOTAVAIL'', 125),
     (''ENETRESET'', 126), (''EISCONN'', 127), (''ENOTCONN'', 128), (''ETOOMANYREFS'', 129),
     (''EPROCLIM'', 130), (''EUSERS'', 131), (''EDQUOT'', 132), (''ESTALE'', 133), (''ENOTSUP'', 134),
     (''ENOMEDIUM'', 135), (''ENOSHARE'', 136), (''ECASECLASH'', 137), (''EILSEQ'', 138),
     (''EOVERFLOW'', 139), (''ECANCELED'', 140), (''ENOTRECOVERABLE'', 141), (''EOWNERDEAD'', 142),
     (''ESTRPIPE'', 143)]"

definition newlib_errno :: "i32 \<Rightarrow> bool" where
  "newlib_errno c \<longleftrightarrow> c \<in> snd ` set errno_table"

text \<open>
  A handler left the \<open>errno\<close>, or put a number there that newlib does not know, a code of \<open>err.rs\<close>
  (which ends in the module byte).
\<close>

definition foreign_errno :: "reent \<Rightarrow> reent \<Rightarrow> bool" where
  "foreign_errno r r' \<longleftrightarrow> r' = r \<or> (errno r' AND 0xFF = NX_FATDRIVE_ERR_MODULE \<and> \<not> newlib_errno (errno r'))"

lemma errno_bytes: "list_all (\<lambda>(_, c). c AND 0xFF \<noteq> 0xFA) errno_table"
  by code_simp

lemma code_is_foreign:
  assumes "c AND 0xFF = NX_FATDRIVE_ERR_MODULE"
  shows "foreign_errno r (r\<lparr>errno := c\<rparr>)"
  using assms errno_bytes by (auto simp: foreign_errno_def newlib_errno_def list_all_iff err_consts)

lemma foreign_refl [simp]: "foreign_errno r r"
  by (simp add: foreign_errno_def)

lemma foreign_codes [simp]:
  "foreign_errno r (r\<lparr>errno := io_error_map e\<rparr>)" "foreign_errno r (r\<lparr>errno := NX_FATDRIVE_ERR_UNKNOWN\<rparr>)"
  "foreign_errno r (r\<lparr>errno := NX_FATDRIVE_ERR_NOT_INITIALIZED\<rparr>)"
  "foreign_errno r (r\<lparr>errno := NX_FATDRIVE_ERR_FILE_NOT_FOUND\<rparr>)"
  by (rule code_is_foreign; simp add: io_mapper.module_byte err_consts)+

lemma with_mounted_foreign:
  assumes "\<And>fs path x r' w'. k fs path = Some (x, r', w') \<Longrightarrow> foreign_errno r r'"
    and "with_mounted N hp fail path_mem r w k = Some (x, r', w')"
  shows "foreign_errno r r'"
  using assms(2,1)
  by (auto simp: with_mounted_def get_global_def split: option.splits sum.splits client_state.splits if_splits)

lemma with_fd_foreign:
  assumes "\<And>fl. foreign_errno r (fst (snd (snd (k fl))))"
  shows "foreign_errno r (fst (snd (snd (with_fd bad fd r w k))))"
  using assms by (auto simp: with_fd_def split: option.split prod.splits) (metis fst_conv snd_conv)

lemma at_offset_foreign:
  assumes "\<And>f1 w1. foreign_errno r (fst (snd (snd (k f1 w1))))"
  shows "foreign_errno r (fst (snd (snd (at_offset C E bad fl r w k))))"
  using assms by (auto simp: at_offset_def split: sum.split prod.split)

text \<open>
  C38: The errors of the handlers never reach newlib: whatever the file system answers, a write, a
  read, a seek, a rename and a removal of a directory leave \<open>errno\<close> as it was or set it to a code
  of \<open>err.rs\<close>, and none of these codes is an error number of newlib, although the file lists all of
  them (\<open>mod errno\<close>).
\<close>

theorem errno_is_never_newlibs:
  "foreign_errno r (fst (snd (snd (fatdrive_write_r C E fd buff r w))))
    \<and> foreign_errno r (fst (snd (snd (fatdrive_read_r C E fd buff r w))))
    \<and> foreign_errno r (fst (snd (snd (fatdrive_seek_r C E fd pos dr r w))))
    \<and> (case fatdrive_rename_r C E N hp old new r w of None \<Rightarrow> True | Some (_, r', _) \<Rightarrow> foreign_errno r r')
    \<and> (case fatdrive_rmdir_r C N hp path r w of None \<Rightarrow> True | Some (_, r', _) \<Rightarrow> foreign_errno r r')"
proof (intro conjI)
  show "foreign_errno r (fst (snd (snd (fatdrive_write_r C E fd buff r w))))"
    unfolding fatdrive_write_r_def
    by (intro with_fd_foreign at_offset_foreign) (simp split: sum.split prod.split)
  show "foreign_errno r (fst (snd (snd (fatdrive_read_r C E fd buff r w))))"
    unfolding fatdrive_read_r_def
    by (intro with_fd_foreign at_offset_foreign) (simp split: sum.split prod.split)
  show "foreign_errno r (fst (snd (snd (fatdrive_seek_r C E fd pos dr r w))))"
    unfolding fatdrive_seek_r_def
    by (intro with_fd_foreign at_offset_foreign) (simp split: sum.split prod.split option.split)
  show "case fatdrive_rename_r C E N hp old new r w of None \<Rightarrow> True | Some (_, r', _) \<Rightarrow> foreign_errno r r'"
    by (auto simp: fatdrive_rename_r_def Let_def elim!: with_mounted_foreign [rotated]
        split: option.split option.split_asm sum.split_asm prod.split_asm prod.split)
  show "case fatdrive_rmdir_r C N hp path r w of None \<Rightarrow> True | Some (_, r', _) \<Rightarrow> foreign_errno r r'"
    by (auto simp: fatdrive_rmdir_r_def elim!: with_mounted_foreign [rotated]
        split: option.split sum.split_asm prod.split_asm prod.split)
qed

end
