(* ===== verification/DemoProgram.thy ===== *)
theory DemoProgram
  imports NewlibFiles
begin

text \<open>
  \<open>src/main.rs\<close>: the demo program, which mounts the first partition of a drive by hand, looks
  for or creates a folder and writes two files. Its messages are left out; every early return is a value
  of \<open>demo_exit\<close>, with the delay that keeps the last message on the screen. The files,
  directories, the file system and the USB context are dropped in the order of Rust's scopes.
\<close>

text \<open>A string literal of the source, as bytes.\<close>

definition ascii :: "string \<Rightarrow> rstr" where
  "ascii s = List.map of_char s"

section \<open>Redirecting an output\<close>

text \<open>
  \<open>OpenOptions::open\<close> with the custom flags (to write, and to create where there is none),
  \<open>write_fmt\<close>, \<open>flush\<close> and \<open>dup2\<close> of the C library on the descriptor of the file.
  Standard output is descriptor 1, standard error 2.
\<close>

record ('w, 'file) os_calls =
  os_open :: "i32 \<Rightarrow> rstr \<Rightarrow> 'w \<Rightarrow> (io_error + 'file) \<times> 'w"
  os_write_fmt :: "'file \<Rightarrow> rstr \<Rightarrow> 'w \<Rightarrow> (io_error + unit) \<times> 'w"
  os_flush :: "'file \<Rightarrow> 'w \<Rightarrow> (io_error + unit) \<times> 'w"
  os_dup2 :: "'file \<Rightarrow> i32 \<Rightarrow> 'w \<Rightarrow> i32 \<times> 'w"

definition redirect_to ::
  "('w, 'file) os_calls \<Rightarrow> rstr \<Rightarrow> rstr \<Rightarrow> i32 \<Rightarrow> rstr \<Rightarrow> 'w \<Rightarrow> (io_error + 'file) \<times> 'w" where
  "redirect_to S before after fileno filename w =
     (case os_open S 0x80 filename w of
        (Inl e, w1) \<Rightarrow> (Inl e, w1)
      | (Inr outfile, w1) \<Rightarrow>
        (case os_write_fmt S outfile (before @ filename @ after) w1 of
           (Inl e, w2) \<Rightarrow> (Inl e, w2)
         | (Inr _, w2) \<Rightarrow>
           (case os_dup2 S outfile fileno w2 of
              (new_fd, w3) \<Rightarrow>
                (if new_fd \<noteq> fileno then Inl (io_error_from Other) else Inr outfile, w3))))"

definition redirect_stdout ::
  "('w, 'file) os_calls \<Rightarrow> rstr \<Rightarrow> 'w \<Rightarrow> (io_error + 'file) \<times> 'w" where
  "redirect_stdout S filename w =
     redirect_to S (ascii ''Redirecting standard output to '') (ascii ''.'') 1 filename w"

definition redirect_stderr ::
  "('w, 'file) os_calls \<Rightarrow> rstr \<Rightarrow> 'w \<Rightarrow> (io_error + 'file) \<times> 'w" where
  "redirect_stderr S filename w =
     redirect_to S (ascii ''Redirecting standard error to '') (ascii ''.'' @ [0x0A]) 2 filename w"

section \<open>Writing\<close>

text \<open>
  \<open>Write::write_all\<close> of the standard library: short writes go on, a write of 0 bytes is an error, an interrupted one is
  repeated. \<open>None\<close> is the loop that does not end.
\<close>

partial_function (option) write_all ::
  "('w, 'fs, 'f, 'd, 'it) fat_crate \<Rightarrow> 'f \<Rightarrow> bytes \<Rightarrow> 'w \<Rightarrow> ((io_error + unit) \<times> 'f \<times> 'w) option" where
  "write_all C f b w =
     (if b = [] then Some (Inr (), f, w)
      else case fc_write C f b w of
          (Inr n, f1, w1) \<Rightarrow>
            if n = 0 then Some (Inl (io_error_from WriteZero), f1, w1)
            else write_all C f1 (drop (unat n) b) w1
        | (Inl e, f1, w1) \<Rightarrow>
            if io_kind e = Interrupted then write_all C f1 b w1 else Some (Inl e, f1, w1))"

text \<open>\<open>Write::write_fmt\<close> of the standard library writes the pieces of the format one by one.\<close>

fun write_fmt ::
  "('w, 'fs, 'f, 'd, 'it) fat_crate \<Rightarrow> 'f \<Rightarrow> bytes list \<Rightarrow> 'w \<Rightarrow> ((io_error + unit) \<times> 'f \<times> 'w) option" where
  "write_fmt C f [] w = Some (Inr (), f, w)"
| "write_fmt C f (b # bs) w =
     (case write_all C f b w of
        None \<Rightarrow> None
      | Some (Inl e, f1, w1) \<Rightarrow> Some (Inl e, f1, w1)
      | Some (Inr _, f1, w1) \<Rightarrow> write_fmt C f1 bs w1)"

section \<open>Looking for the folder\<close>

text \<open>\<open>iter().filter_map(..).collect()\<close>: the entries that could be read.\<close>

partial_function (option) collect_entries ::
  "('w, 'fs, 'f, 'd, 'it) fat_crate \<Rightarrow> 'it \<Rightarrow> fat_dirent list \<Rightarrow> 'w \<Rightarrow> (fat_dirent list \<times> 'w) option" where
  "collect_entries C it acc w =
     (case fc_next C it w of
        (None, _, w1) \<Rightarrow> Some (rev acc, w1)
      | (Some (Inr ent), it1, w1) \<Rightarrow> collect_entries C it1 (ent # acc) w1
      | (Some (Inl _), it1, w1) \<Rightarrow> collect_entries C it1 acc w1)"

definition test_folder :: rstr where
  "test_folder = ascii ''test_folder''"

text \<open>\<open>find_map\<close>: the first directory of that name, if any.\<close>

definition find_folder :: "fat_dirent list \<Rightarrow> fat_dirent option" where
  "find_folder es = find (\<lambda>e. attr_directory e \<and> file_name e = test_folder) es"

text \<open>\<open>.replace(" ", "s").replace(":", "o").replace("{", "q").replace("}", "p")\<close>.\<close>

definition safe_name :: "rstr \<Rightarrow> rstr" where
  "safe_name = List.map (\<lambda>c. if c = 0x20 then 0x73 else if c = 0x3A then 0x6F
     else if c = 0x7B then 0x71 else if c = 0x7D then 0x70 else c)"

section \<open>Leaving\<close>

text \<open>
  The clock in nanoseconds, \<open>console.update\<close>, and \<open>scan_input\<close> with the keys that are down
  after it; \<open>fr_plus\<close> is the constant \<open>KEY_PLUS\<close>.
\<close>

record 'w front_end =
  fr_now :: "'w \<Rightarrow> nat \<times> 'w"
  fr_update :: "'w \<Rightarrow> 'w"
  fr_scan :: "'w \<Rightarrow> u64 \<times> 'w"
  fr_plus :: u64

text \<open>\<open>while delay_start.elapsed() < Duration::from_secs(5) { console.update(); }\<close>.\<close>

partial_function (option) delay_loop :: "'w front_end \<Rightarrow> nat \<Rightarrow> 'w \<Rightarrow> 'w option" where
  "delay_loop T start w =
     (case fr_now T w of (now, w1) \<Rightarrow>
        if now - start < 5000000000 then delay_loop T start (fr_update T w1) else Some w1)"

definition delay :: "'w front_end \<Rightarrow> 'w \<Rightarrow> 'w option" where
  "delay T w = (case fr_now T w of (start, w1) \<Rightarrow> delay_loop T start w1)"

partial_function (option) wait_for_plus :: "'w front_end \<Rightarrow> 'w \<Rightarrow> 'w option" where
  "wait_for_plus T w =
     (case fr_scan T w of (keys, w1) \<Rightarrow> if keys AND fr_plus T \<noteq> 0 then Some w1 else wait_for_plus T w1)"

section \<open>The program\<close>

datatype demo_exit =
    StderrFailed io_error | UsbFailed libnx_error | EventFailed libnx_error | WaitFailed libnx_error
  | QueryFailed libnx_error | NoInterface | EndpointsFailed libnx_error | AcquireFailed libnx_error
  | ClientFailed libnx_error | ScsiFailed scsi_error | MbrReadFailed scsi_error | MbrParseFailed mbr_error
  | MountFailed io_error | FolderFailed io_error | TestFileFailed io_error | TestWriteFailed io_error
  | NextDirFailed io_error | OutFileFailed io_error | OutWriteFailed io_error | Finished

text \<open>What a scope drops at its end, whatever the inner result.\<close>

definition drop_after :: "('w \<Rightarrow> 'w) \<Rightarrow> ('r \<times> 'w) option \<Rightarrow> ('r \<times> 'w) option" where
  "drop_after dr res = map_option (\<lambda>(r, w). (r, dr w)) res"

text \<open>Every early return comes after the delay, the last one after the key.\<close>

definition leave :: "'w front_end \<Rightarrow> demo_exit \<Rightarrow> 'w \<Rightarrow> (demo_exit \<times> 'w) option" where
  "leave T e w = map_option (Pair e) (if e = Finished then wait_for_plus T w else delay T w)"

definition leave_early :: "'w front_end \<Rightarrow> demo_exit \<Rightarrow> 'w \<Rightarrow> (demo_exit exec \<times> 'w) option" where
  "leave_early T e w = map_option (apfst Ret) (leave T e w)"

text \<open>The folder next to the first: a directory with one file, written once.\<close>

definition demo_next_dir ::
  "'w front_end \<Rightarrow> ('w, 'fs, 'f, 'd, 'it) fat_crate \<Rightarrow> rstr \<Rightarrow> 'd \<Rightarrow> 'w \<Rightarrow> (demo_exit \<times> 'w) option" where
  "demo_next_dir T C next_dir_name root_dir w =
     (case fc_create_dir C root_dir next_dir_name w of
        (Inl e, w1) \<Rightarrow> leave T (NextDirFailed e) w1
      | (Inr next_dir, w1) \<Rightarrow>
          drop_after (fc_drop_dir C next_dir)
           (case fc_create_file C next_dir (ascii ''for_seuth.txt'') w1 of
              (Inl e, w2) \<Rightarrow> leave T (OutFileFailed e) w2
            | (Inr outfile, w2) \<Rightarrow>
              (case fc_write C outfile (ascii ''To be or not to be and all that jazz!.'') w2 of
                 (Inl e, f1, w3) \<Rightarrow> drop_after (fc_drop_file C f1) (leave T (OutWriteFailed e) w3)
               | (Inr _, f1, w3) \<Rightarrow> drop_after (fc_drop_file C f1) (leave T Finished w3))))"

text \<open>
  Inside the folder: the test file, then the next directory. \<open>now\<close> is the debug text of the
  current time, in the pieces the formatter writes.
\<close>

definition demo_in_folder ::
  "'w front_end \<Rightarrow> ('w, 'fs, 'f, 'd, 'it) fat_crate \<Rightarrow> bytes list \<Rightarrow> 'd \<Rightarrow> 'd \<Rightarrow> 'w \<Rightarrow> (demo_exit \<times> 'w) option" where
  "demo_in_folder T C now root_dir subdir w =
     drop_after (fc_drop_dir C subdir)
      (case fc_create_file C subdir (safe_name (concat now @ ascii ''.txt'')) w of
         (Inl e, w1) \<Rightarrow> leave T (TestFileFailed e) w1
       | (Inr fl, w1) \<Rightarrow>
         (case write_fmt C fl (ascii ''Hello world at time '' # now) w1 of
            None \<Rightarrow> None
          | Some (Inl e, f1, w2) \<Rightarrow> drop_after (fc_drop_file C f1) (leave T (TestWriteFailed e) w2)
          | Some (Inr _, f1, w2) \<Rightarrow>
              drop_after (fc_drop_file C f1)
                (demo_next_dir T C (safe_name (concat now @ ascii ''_next_dir'')) root_dir w2)))"

definition demo_files ::
  "'w front_end \<Rightarrow> ('w, 'fs, 'f, 'd, 'it) fat_crate \<Rightarrow> (fat_dirent \<Rightarrow> 'd) \<Rightarrow> bytes list \<Rightarrow> 'fs \<Rightarrow> 'w \<Rightarrow> (demo_exit \<times> 'w) option" where
  "demo_files T C to_dir now fs w =
     (let root_dir = fc_root_dir C fs in
      drop_after (fc_drop_dir C root_dir)
       (case collect_entries C (fc_iter C root_dir) [] w of
          None \<Rightarrow> None
        | Some (all_dirs, w1) \<Rightarrow>
          (case find_folder all_dirs of
             Some fl \<Rightarrow> demo_in_folder T C now root_dir (to_dir fl) w1
           | None \<Rightarrow>
             (case fc_create_dir C root_dir test_folder w1 of
                (Inl e, w2) \<Rightarrow> leave T (FolderFailed e) w2
              | (Inr subdir, w2) \<Rightarrow> demo_in_folder T C now root_dir subdir w2))))"

text \<open>From the block device to the mounted file system; the first partition is taken unasked.\<close>

definition demo_mount ::
  "'w front_end \<Rightarrow> ('w, 'fs, 'f, 'd, 'it) fat_crate \<Rightarrow> ('w, 'u, 'info, 'evt, 'h, 'ep, 'dev, 'fs) usb_sys
     \<Rightarrow> ('fs \<Rightarrow> 'w \<Rightarrow> (demo_exit \<times> 'w) option) \<Rightarrow> 'dev \<Rightarrow> 'w \<Rightarrow> (demo_exit exec \<times> 'w) option" where
  "demo_mount T C U k dev w =
     (case with_fake_capacity (max 512 (ucast (op_block_size (us_scsi U) dev))) of
        Panic \<Rightarrow> Some (Panic, w)
      | Ret mbr_buff \<Rightarrow>
        (case mbr_loop (us_scsi U) dev mbr_buff of
           None \<Rightarrow> None
         | Some (Inl e, _, _) \<Rightarrow> leave_early T (MbrReadFailed e) w
         | Some (Inr _, dev1, v) \<Rightarrow>
           (case us_parse_mbr U (inner v) of
              Inl e \<Rightarrow> leave_early T (MbrParseFailed e) w
            | Inr [] \<Rightarrow> Some (Panic, w)
            | Inr (first_ent # _) \<Rightarrow>
                (let raw_offset = ucast (logical_block_address first_ent * op_block_size (us_scsi U) dev1) in
                 case offset_scsi_new (us_scsi U) dev1 raw_offset of
                   Panic \<Rightarrow> Some (Panic, w)
                 | Ret part \<Rightarrow>
                   (case us_new_fs U part w of
                      (Inl e, w1) \<Rightarrow> leave_early T (MountFailed e) w1
                    | (Inr fs, w1) \<Rightarrow>
                        map_option (apfst Ret) (drop_after (fc_drop_fs C fs) (k fs w1)))))))"

text \<open>The endpoints are looked up on the interface before it is acquired.\<close>

definition demo_device ::
  "'w front_end \<Rightarrow> ('w, 'u, 'info, 'evt, 'h, 'ep, 'dev, 'fs) usb_sys \<Rightarrow> ('dev \<Rightarrow> 'w \<Rightarrow> (demo_exit exec \<times> 'w) option)
     \<Rightarrow> 'u \<Rightarrow> 'w \<Rightarrow> (demo_exit exec \<times> 'w) option" where
  "demo_device T U k ctx w =
     (case us_event_create U bulk_only_filter w of
        (Inl e, w1) \<Rightarrow> leave_early T (EventFailed e) w1
      | (Inr evt, w1) \<Rightarrow>
        (case us_event_wait U evt (- 1) w1 of
           (Inl e, w2) \<Rightarrow> leave_early T (WaitFailed e) w2
         | (Inr _, w2) \<Rightarrow>
           (case us_query_available U ctx bulk_only_filter 3 w2 of
              (Inl e, w3) \<Rightarrow> leave_early T (QueryFailed e) w3
            | (Inr ifaces, w3) \<Rightarrow>
              (if ifaces = [] then leave_early T NoInterface w3
               else case retrieve_iface_endpoints (from_msg (us_api U)) (last ifaces) of
                 Inl e \<Rightarrow> leave_early T (EndpointsFailed e) w3
               | Inr (read_ep, write_ep) \<Rightarrow>
                 (case us_acquire U ctx (last ifaces) w3 of
                    (Inl e, w4) \<Rightarrow> leave_early T (AcquireFailed e) w4
                  | (Inr session, w4) \<Rightarrow>
                    (case usb_client_new (us_api U) session read_ep write_ep of
                       Inl e \<Rightarrow> leave_early T (ClientFailed e) w4
                     | Inr client \<Rightarrow>
                       (case vec_new of
                          Panic \<Rightarrow> Some (Panic, w4)
                        | Ret v \<Rightarrow>
                          (case us_new_scsi U client v v v w4 of
                             (Inl e, w5) \<Rightarrow> leave_early T (ScsiFailed e) w5
                           | (Inr dev, w5) \<Rightarrow> k dev w5))))))))"

definition demo_runner ::
  "'w front_end \<Rightarrow> ('w, 'file) os_calls \<Rightarrow> ('w, 'fs, 'f, 'd, 'it) fat_crate \<Rightarrow> ('w, 'u, 'info, 'evt, 'h, 'ep, 'dev, 'fs) usb_sys
     \<Rightarrow> (fat_dirent \<Rightarrow> 'd) \<Rightarrow> bytes list \<Rightarrow> 'w \<Rightarrow> (demo_exit exec \<times> 'w) option" where
  "demo_runner T S C U to_dir now w =
     (case redirect_stderr S (ascii ''nx_fatdrive_sterr.txt'') w of
        (Inl e, w1) \<Rightarrow> leave_early T (StderrFailed e) w1
      | (Inr _, w1) \<Rightarrow>
        (case us_initialize U w1 of
           (Inl e, w2) \<Rightarrow> leave_early T (UsbFailed e) w2
         | (Inr ctx, w2) \<Rightarrow>
             drop_after (us_drop_ctx U ctx) (demo_device T U (demo_mount T C U (demo_files T C to_dir now)) ctx w2)))"

text \<open>
  \<open>main\<close> catches a panic of the runner and reports it; \<open>payload\<close> is its debug text. What fails in
  the report is ignored.
\<close>

definition panic_report :: "('w, 'file) os_calls \<Rightarrow> rstr \<Rightarrow> 'w \<Rightarrow> 'w" where
  "panic_report S payload w =
     (case os_open S 0 (ascii ''panic_out.txt'') w of
        (Inl _, w1) \<Rightarrow> w1
      | (Inr panic_out, w1) \<Rightarrow>
        (case os_write_fmt S panic_out (ascii ''Got panic from cause:'' @ [0x0A] @ payload) w1 of
           (_, w2) \<Rightarrow> snd (os_flush S panic_out w2)))"

definition demo_main ::
  "'w front_end \<Rightarrow> ('w, 'file) os_calls \<Rightarrow> ('w, 'fs, 'f, 'd, 'it) fat_crate
     \<Rightarrow> ('w, 'u, 'info, 'evt, 'h, 'ep, 'dev, 'fs) usb_sys \<Rightarrow> (fat_dirent \<Rightarrow> 'd) \<Rightarrow> bytes list \<Rightarrow> rstr
     \<Rightarrow> 'w \<Rightarrow> 'w option" where
  "demo_main T S C U to_dir now payload w =
     (case demo_runner T S C U to_dir now w of
        None \<Rightarrow> None
      | Some (Ret _, w1) \<Rightarrow> Some w1
      | Some (Panic, w1) \<Rightarrow> Some (panic_report S payload w1))"

end
