(* ===== verification/DemoThms.thy ===== *)
theory DemoThms
  imports DemoProgram NewlibThms
begin

text \<open>
  The demo program: what it leaves on a healthy drive, and how long its messages stay.
\<close>

section \<open>Leaving\<close>

text \<open>Reading the clock changes nothing, an update takes some time, at most \<open>s\<close> nanoseconds.\<close>

definition clock_law :: "'w front_end \<Rightarrow> ('w \<Rightarrow> nat) \<Rightarrow> nat \<Rightarrow> bool" where
  "clock_law T time s \<longleftrightarrow> (\<forall>w. fr_now T w = (time w, w) \<and> time w < time (fr_update T w) \<and> time (fr_update T w) \<le> time w + s)"

lemma delay_loop_ends:
  assumes "clock_law T time s" "time w < start + 5000000000 + s"
  shows "\<exists>w'. delay_loop T start w = Some w' \<and> start + 5000000000 \<le> time w' \<and> time w' < start + 5000000000 + s"
  using assms(2)
proof (induction "start + 5000000000 - time w" arbitrary: w rule: less_induct)
  case less
  note c = assms(1) [unfolded clock_law_def, rule_format, of w]
  show ?case
  proof (cases "time w < start + 5000000000")
    case True
    with c have "start + 5000000000 - time (fr_update T w) < start + 5000000000 - time w"
      "time (fr_update T w) < start + 5000000000 + s" by linarith+
    from less(1) [OF this] show ?thesis using c True by (subst delay_loop.simps) (simp add: less_diff_conv2)
  next
    case False
    then show ?thesis using c less(2) by (intro exI [of _ w]) (subst delay_loop.simps, auto)
  qed
qed

text \<open>
  An early return keeps its message on the screen for five seconds and at most one update more.
\<close>

theorem message_is_shown:
  assumes "clock_law T time s" "0 < s" "e \<noteq> Finished"
  shows "\<exists>w'. leave T e w = Some (e, w') \<and> time w + 5000000000 \<le> time w' \<and> time w' < time w + 5000000000 + s"
  using delay_loop_ends [OF assms(1), of w "time w"] assms
  by (auto simp: leave_def delay_def clock_law_def)

text \<open>The world after \<open>n\<close> scans of the controller.\<close>

fun scanned :: "'w front_end \<Rightarrow> nat \<Rightarrow> 'w \<Rightarrow> 'w" where
  "scanned T 0 w = w"
| "scanned T (Suc n) w = scanned T n (snd (fr_scan T w))"

definition plus_seen :: "'w front_end \<Rightarrow> nat \<Rightarrow> 'w \<Rightarrow> bool" where
  "plus_seen T n w \<longleftrightarrow> fst (fr_scan T (scanned T n w)) AND fr_plus T \<noteq> 0"

lemma wait_returns: "plus_seen T n w \<Longrightarrow> \<exists>w'. wait_for_plus T w = Some w'"
proof (induction n arbitrary: w)
  case 0
  then show ?case by (subst wait_for_plus.simps) (auto simp: plus_seen_def split: prod.split)
next
  case (Suc n)
  then show ?case by (subst wait_for_plus.simps) (auto simp: plus_seen_def split: prod.split)
qed

text \<open>The finished program waits for the key, and for nothing else.\<close>

theorem finished_waits_for_plus:
  "(\<exists>r. leave T Finished w = Some r) \<longleftrightarrow> (\<exists>n. plus_seen T n w)"
proof
  have "wait_for_plus T w = Some w' \<Longrightarrow> \<exists>n. plus_seen T n w" for w w'
  proof (induction T w w' rule: wait_for_plus.raw_induct [rotated, consumes 1])
    case (1 f T w w')
    show ?case
    proof (cases "fst (fr_scan T w) AND fr_plus T = 0")
      case True
      then have "f T (snd (fr_scan T w)) = Some w'" using 1(2) by (simp split: prod.splits)
      from 1(1) [OF this] obtain n where "plus_seen T n (snd (fr_scan T w))" ..
      then show ?thesis by (intro exI [of _ "Suc n"]) (simp add: plus_seen_def)
    next
      case False
      then show ?thesis by (intro exI [of _ 0]) (simp add: plus_seen_def)
    qed
  qed
  then show "\<exists>n. plus_seen T n w" if "\<exists>r. leave T Finished w = Some r"
    using that by (auto simp: leave_def)
  show "\<exists>r. leave T Finished w = Some r" if "\<exists>n. plus_seen T n w"
    using that wait_returns [of T _ w] by (auto simp: leave_def)
qed

text \<open>A clock that stands still and a key that is always down.\<close>

definition toy_front :: "bool front_end" where
  "toy_front = \<lparr>fr_now = (\<lambda>w. (0, w)), fr_update = id, fr_scan = (\<lambda>w. (0x400, w)), fr_plus = 0x400\<rparr>"


section \<open>A healthy drive\<close>


definition put_bytes :: "bytes \<Rightarrow> nat \<Rightarrow> bytes \<Rightarrow> bytes" where
  "put_bytes c i b = take i c @ b @ drop (i + length b) c"





lemma put_bytes_Nil [simp]: "put_bytes c i [] = c"
  by (simp add: put_bytes_def)



















end
