(* ===== verification/LockOrder.thy ===== *)
theory LockOrder
  imports Main
begin

text \<open>
  The locking of \<open>src/capi_helpers/usbfs.rs\<close>: which of the three mutexes each C function locks
  and when it lets go, threads that run sequences of these functions as a step relation, and the
  locking discipline that keeps them from blocking each other (the locale \<open>gated_scripts\<close>).
  What the functions do under the locks is in \<open>UsbFs\<close> and \<open>UsbFsFiles\<close>.
\<close>

section \<open>Scripts\<close>

text \<open>\<open>id_store_ptr\<close>, \<open>usb_hs_ctx_ptr\<close> and \<open>fs_ptr\<close>.\<close>

datatype lock = ID | USB | FS

text \<open>\<open>Crate\<close> is a stretch of calls into the crate \<open>fatfs\<close>, drops of its objects included.\<close>

datatype action = Lock lock | Unlock lock | Crate

datatype api_fn =
    IsInitialized | Initialize | Exit | IsReady | DeviceUpdate | DeviceGetMountStatus
  | OpenFile | OpenDir | CloseFile | CloseDir | ReadFile | WriteFile | SeekFile | SyncFile
  | TruncateFile | ReadDir | StatFile | StatPath | StatFilesystem
  | DeleteFile | DeleteDir | CreateFile | CreateDir

text \<open>
  A guard lives until the end of its block, and the guards of a block are dropped in reverse
  order. A function has one script per way it can return.
\<close>

definition is_initialized_script :: "action list" where
  "is_initialized_script = [Lock ID, Lock USB, Lock FS, Unlock FS, Unlock USB, Unlock ID]"

text \<open>
  Mounted already or no drive; the partition does not open; the crate finds no file system on
  it; everything, up to the guard of the table while the other two are held.
\<close>

definition initialize_scripts :: "action list list" where
  "initialize_scripts =
     [is_initialized_script,
      is_initialized_script @ [Lock USB, Unlock USB],
      is_initialized_script @ [Lock USB, Crate, Unlock USB],
      is_initialized_script @ [Lock USB, Crate, Lock FS, Lock ID, Unlock ID, Unlock FS, Unlock USB]]"

text \<open>
  Without its log file nothing happens; the open files and directories are dropped before the
  file system is locked, and the file system after that, each if there is one.
\<close>

definition exit_scripts :: "action list list" where
  "exit_scripts =
     [[],
      [Lock ID, Lock FS, Lock USB, Unlock USB, Unlock FS, Unlock ID],
      [Lock ID, Crate, Lock FS, Lock USB, Unlock USB, Unlock FS, Unlock ID],
      [Lock ID, Lock FS, Crate, Lock USB, Unlock USB, Unlock FS, Unlock ID],
      [Lock ID, Crate, Lock FS, Crate, Lock USB, Unlock USB, Unlock FS, Unlock ID]]"

definition is_ready_scripts :: "action list list" where
  "is_ready_scripts = [is_initialized_script, is_initialized_script @ [Lock USB, Unlock USB]]"

text \<open>
  Functions that work on the table alone: the id is unknown or the handle of the crate is used.
  Those that go on to the file system: the table has the answer, there is no file system, or the
  crate is called. A removal also closes an open handle before that. One that takes a path
  returns before the first lock when the path is not UTF-8.
\<close>

definition table_script :: "action list" where
  "table_script = [Lock ID, Unlock ID]"

definition handle_scripts :: "action list list" where
  "handle_scripts = [table_script, [Lock ID, Crate, Unlock ID]]"

definition table_fs_scripts :: "action list list" where
  "table_fs_scripts =
     [table_script,
      [Lock ID, Lock FS, Unlock FS, Unlock ID],
      [Lock ID, Lock FS, Crate, Unlock FS, Unlock ID]]"

definition delete_scripts :: "action list list" where
  "delete_scripts = table_fs_scripts @
     [[Lock ID, Crate, Unlock ID],
      [Lock ID, Crate, Lock FS, Unlock FS, Unlock ID],
      [Lock ID, Crate, Lock FS, Crate, Unlock FS, Unlock ID]]"

text \<open>
  A listing for the status of a path starts from an open directory or from the file system; the
  guard of the file system is gone when the entries are looked through.
\<close>

definition stat_scripts :: "action list list" where
  "stat_scripts = handle_scripts @
     [[Lock ID, Lock FS, Unlock FS, Unlock ID],
      [Lock ID, Lock FS, Crate, Unlock FS, Unlock ID],
      [Lock ID, Lock FS, Crate, Unlock FS, Crate, Unlock ID]]"

definition stat_fs_scripts :: "action list list" where
  "stat_fs_scripts = [[Lock FS, Unlock FS], [Lock FS, Crate, Unlock FS]]"

fun lock_scripts :: "api_fn \<Rightarrow> action list list" where
  "lock_scripts IsInitialized = [is_initialized_script]"
| "lock_scripts Initialize = initialize_scripts"
| "lock_scripts Exit = exit_scripts"
| "lock_scripts IsReady = is_ready_scripts"
| "lock_scripts DeviceUpdate = is_ready_scripts"
| "lock_scripts DeviceGetMountStatus = is_ready_scripts"
| "lock_scripts StatFilesystem = stat_fs_scripts"
| "lock_scripts CloseFile = handle_scripts"
| "lock_scripts CloseDir = handle_scripts"
| "lock_scripts ReadFile = handle_scripts"
| "lock_scripts WriteFile = handle_scripts"
| "lock_scripts SeekFile = handle_scripts"
| "lock_scripts SyncFile = handle_scripts"
| "lock_scripts TruncateFile = handle_scripts"
| "lock_scripts ReadDir = handle_scripts"
| "lock_scripts OpenFile = [] # table_fs_scripts"
| "lock_scripts OpenDir = [] # table_fs_scripts"
| "lock_scripts StatFile = stat_scripts"
| "lock_scripts StatPath = [] # stat_scripts"
| "lock_scripts DeleteFile = [] # delete_scripts"
| "lock_scripts DeleteDir = [] # delete_scripts"
| "lock_scripts CreateFile = [] # table_fs_scripts"
| "lock_scripts CreateDir = [] # table_fs_scripts"

lemmas script_defs = is_initialized_script_def initialize_scripts_def exit_scripts_def
  is_ready_scripts_def table_script_def handle_scripts_def table_fs_scripts_def delete_scripts_def
  stat_scripts_def stat_fs_scripts_def

text \<open>What a thread does: any sequence of calls of the functions \<open>A\<close>.\<close>

inductive_set programs :: "api_fn set \<Rightarrow> action list set" for A where
  prog_done: "[] \<in> programs A"
| prog_call: "f \<in> A \<Longrightarrow> s \<in> set (lock_scripts f) \<Longrightarrow> p \<in> programs A \<Longrightarrow> s @ p \<in> programs A"

section \<open>Threads\<close>

record lock_sys =
  owner :: "lock \<Rightarrow> nat option"
  todo :: "action list list"

definition start :: "action list list \<Rightarrow> lock_sys" where
  "start ps = \<lparr>owner = (\<lambda>_. None), todo = ps\<rparr>"

definition finished :: "lock_sys \<Rightarrow> bool" where
  "finished s \<longleftrightarrow> (\<forall>p \<in> set (todo s). p = [])"

text \<open>A mutex is not reentrant: it can be taken only while nobody has it.\<close>

inductive lock_step :: "lock_sys \<Rightarrow> lock_sys \<Rightarrow> bool" where
  step_lock: "i < length (todo s) \<Longrightarrow> todo s ! i = Lock l # p \<Longrightarrow> owner s l = None
    \<Longrightarrow> lock_step s (s\<lparr>owner := (owner s)(l := Some i), todo := (todo s)[i := p]\<rparr>)"
| step_unlock: "i < length (todo s) \<Longrightarrow> todo s ! i = Unlock l # p
    \<Longrightarrow> lock_step s (s\<lparr>owner := (owner s)(l := None), todo := (todo s)[i := p]\<rparr>)"
| step_crate: "i < length (todo s) \<Longrightarrow> todo s ! i = Crate # p
    \<Longrightarrow> lock_step s (s\<lparr>todo := (todo s)[i := p]\<rparr>)"

inductive_cases lock_stepE: "lock_step s s'"

definition stuck :: "lock_sys \<Rightarrow> bool" where
  "stuck s \<longleftrightarrow> \<not> finished s \<and> (\<forall>s'. \<not> lock_step s s')"

text \<open>The work left, which every step makes smaller.\<close>

instantiation lock_sys_ext :: (type) size
begin

definition size_lock_sys_ext :: "'a lock_sys_scheme \<Rightarrow> nat" where
  "size_lock_sys_ext s = sum_list (map length (todo s))"

instance ..

end

lemma sum_list_update_less:
  fixes xs :: "'a list list"
  assumes "i < length xs" "length p < length (xs ! i)"
  shows "sum_list (map length (xs[i := p])) < sum_list (map length xs)"
  using assms
proof (induction xs arbitrary: i)
  case (Cons x xs)
  then show ?case by (cases i) auto
qed simp

lemma lock_step_size: "lock_step s s' \<Longrightarrow> size s' < size s"
  by (auto elim!: lock_stepE simp: size_lock_sys_ext_def intro!: sum_list_update_less)

section \<open>The discipline\<close>

text \<open>
  A script is disciplined for a gate lock: it takes a second lock only while it holds the gate,
  gives back only what it holds, and ends without a lock.
\<close>

fun disciplined :: "lock \<Rightarrow> lock set \<Rightarrow> action list \<Rightarrow> bool" where
  "disciplined g H [] \<longleftrightarrow> H = {}"
| "disciplined g H (Lock l # p) \<longleftrightarrow> l \<notin> H \<and> (H = {} \<or> g \<in> H) \<and> disciplined g (insert l H) p"
| "disciplined g H (Unlock l # p) \<longleftrightarrow> l \<in> H \<and> disciplined g (H - {l}) p"
| "disciplined g H (Crate # p) \<longleftrightarrow> disciplined g H p"

lemma disciplined_append:
  "disciplined g H p \<Longrightarrow> disciplined g {} q \<Longrightarrow> disciplined g H (p @ q)"
  by (induction g H p rule: disciplined.induct) auto

definition held :: "lock_sys \<Rightarrow> nat \<Rightarrow> lock set" where
  "held s i = {l. owner s l = Some i}"

text \<open>Every thread holds what a rule for scripts allows it before the rest of its own script.\<close>

definition threads_keep :: "(lock set \<Rightarrow> action list \<Rightarrow> bool) \<Rightarrow> lock_sys \<Rightarrow> bool" where
  "threads_keep Q s \<longleftrightarrow>
     (\<forall>l i. owner s l = Some i \<longrightarrow> i < length (todo s))
     \<and> (\<forall>i < length (todo s). Q (held s i) (todo s ! i))"

text \<open>A rule that is kept by what one thread does alone is kept by all threads together.\<close>

locale script_rule =
  fixes Q :: "lock set \<Rightarrow> action list \<Rightarrow> bool"
  assumes takes: "Q H (Lock l # p) \<Longrightarrow> Q (insert l H) p"
    and gives: "Q H (Unlock l # p) \<Longrightarrow> l \<in> H \<and> Q (H - {l}) p"
    and works: "Q H (Crate # p) \<Longrightarrow> Q H p"
begin

lemma step:
  assumes "lock_step s s'" "threads_keep Q s"
  shows "threads_keep Q s'"
proof -
  have owned: "owner s l = Some i \<Longrightarrow> i < length (todo s)"
    and rule: "i < length (todo s) \<Longrightarrow> Q (held s i) (todo s ! i)" for l i
    using assms(2) by (auto simp: threads_keep_def)
  from assms(1) show ?thesis
  proof (rule lock_stepE)
    fix i l p
    assume st: "s' = s\<lparr>owner := (owner s)(l \<mapsto> i), todo := (todo s)[i := p]\<rparr>"
      "i < length (todo s)" "todo s ! i = Lock l # p" "owner s l = None"
    have "Q (insert l (held s i)) p" using rule [OF st(2)] st(3) takes by simp
    moreover have "held s' j = (if j = i then insert l (held s i) else held s j)" for j
      using st(1,4) by (auto simp: held_def)
    ultimately show ?thesis
      using st owned rule by (auto simp: threads_keep_def nth_list_update)
  next
    fix i l p
    assume st: "s' = s\<lparr>owner := (owner s)(l := None), todo := (todo s)[i := p]\<rparr>"
      "i < length (todo s)" "todo s ! i = Unlock l # p"
    have l: "owner s l = Some i" "Q (held s i - {l}) p"
      using rule [OF st(2)] st(3) gives [of "held s i" l p] by (simp_all add: held_def)
    have "held s' j = (if j = i then held s i - {l} else held s j)" for j
      using st(1) l(1) by (auto simp: held_def)
    then show ?thesis
      using st owned rule l(2) by (auto simp: threads_keep_def nth_list_update split: if_splits)
  next
    fix i p
    assume st: "s' = s\<lparr>todo := (todo s)[i := p]\<rparr>" "i < length (todo s)" "todo s ! i = Crate # p"
    have "Q (held s i) p" using rule [OF st(2)] st(3) works by simp
    moreover have "held s' j = held s j" for j using st(1) by (simp add: held_def)
    ultimately show ?thesis using st owned rule by (auto simp: threads_keep_def nth_list_update)
  qed
qed

lemma reached:
  assumes "lock_step\<^sup>*\<^sup>* (start ps) s" "\<And>p. p \<in> set ps \<Longrightarrow> Q {} p"
  shows "threads_keep Q s"
  using assms(1)
proof (induction rule: rtranclp_induct)
  case base
  then show ?case using assms(2) by (auto simp: threads_keep_def start_def held_def)
qed (rule step)

end

interpretation discipline: script_rule "disciplined g" for g
  by unfold_locales simp_all

definition sys_inv :: "lock \<Rightarrow> lock_sys \<Rightarrow> bool" where
  "sys_inv g s \<longleftrightarrow> threads_keep (disciplined g) s"

lemma sys_inv_step: "lock_step s s' \<Longrightarrow> sys_inv g s \<Longrightarrow> sys_inv g s'"
  unfolding sys_inv_def by (rule discipline.step)

text \<open>Whoever holds a lock but not the gate can go on: it asks for no other lock.\<close>

lemma no_gate_moves:
  assumes "sys_inv g s" "owner s l = Some u" "owner s g \<noteq> Some u"
  shows "\<exists>s'. lock_step s s'"
proof -
  have u: "u < length (todo s)" "disciplined g (held s u) (todo s ! u)"
    using assms(1,2) by (auto simp: sys_inv_def threads_keep_def)
  have "l \<in> held s u" "g \<notin> held s u" using assms(2,3) by (auto simp: held_def)
  have "(\<exists>m p. todo s ! u = Unlock m # p) \<or> (\<exists>p. todo s ! u = Crate # p)"
  proof (cases "todo s ! u")
    case Nil
    with u(2) \<open>l \<in> held s u\<close> show ?thesis by simp
  next
    case (Cons a p)
    with u(2) \<open>l \<in> held s u\<close> \<open>g \<notin> held s u\<close> show ?thesis by (cases a) auto
  qed
  then show ?thesis using step_unlock [OF u(1)] step_crate [OF u(1)] by blast
qed

lemma gated_progress:
  assumes "sys_inv g s" "\<not> finished s"
  shows "\<exists>s'. lock_step s s'"
proof -
  have next_step: "\<exists>s'. lock_step s s'"
    if "i < length (todo s)" "todo s ! i = a # p"
      and "\<And>l u. a = Lock l \<Longrightarrow> owner s l = Some u \<Longrightarrow> owner s g \<noteq> Some u" for i a p
  proof (cases a)
    case (Lock l)
    show ?thesis
    proof (cases "owner s l")
      case None
      then show ?thesis using step_lock [OF that(1)] that(2) Lock by blast
    next
      case (Some u)
      then show ?thesis using no_gate_moves [OF assms(1)] that(3) Lock by blast
    qed
  next
    case (Unlock l)
    then show ?thesis using step_unlock [OF that(1)] that(2) by blast
  next
    case Crate
    then show ?thesis using step_crate [OF that(1)] that(2) by blast
  qed
  show ?thesis
  proof (cases "owner s g")
    case (Some t)
    then have t: "t < length (todo s)" "disciplined g (held s t) (todo s ! t)" "g \<in> held s t"
      using assms(1) by (auto simp: sys_inv_def threads_keep_def held_def)
    then obtain a p where a: "todo s ! t = a # p" by (cases "todo s ! t") auto
    show ?thesis
    proof (rule next_step [OF t(1) a])
      fix l u assume "a = Lock l" "owner s l = Some u"
      then show "owner s g \<noteq> Some u" using t(2) a Some by (auto simp: held_def)
    qed
  next
    case None
    from assms(2) obtain i where "i < length (todo s)" "todo s ! i \<noteq> []"
      by (auto simp: finished_def in_set_conv_nth)
    then show ?thesis using next_step None by (cases "todo s ! i") auto
  qed
qed

text \<open>A set of programs that keep the discipline, and what threads running them are promised.\<close>

locale gated_scripts =
  fixes gate :: lock
    and progs :: "action list set"
  assumes gated: "p \<in> progs \<Longrightarrow> disciplined gate {} p"
begin

lemma keeps_inv:
  assumes "lock_step\<^sup>*\<^sup>* (start ps) s" "set ps \<subseteq> progs"
  shows "sys_inv gate s"
  unfolding sys_inv_def using discipline.reached [OF assms(1)] gated assms(2) by blast

lemma never_stuck:
  assumes "lock_step\<^sup>*\<^sup>* (start ps) s" "set ps \<subseteq> progs"
  shows "\<not> stuck s"
  using gated_progress [OF keeps_inv [OF assms]] by (auto simp: stuck_def)

lemma completes:
  assumes "sys_inv gate s"
  shows "\<exists>s'. lock_step\<^sup>*\<^sup>* s s' \<and> finished s' \<and> (\<forall>l. owner s' l = None)"
  using assms
proof (induction "size s" arbitrary: s rule: less_induct)
  case less
  show ?case
  proof (cases "finished s")
    case True
    have "owner s l = None" for l
    proof (cases "owner s l")
      case (Some i)
      then have i: "i < length (todo s)" "l \<in> held s i" using less.prems by (auto simp: sys_inv_def threads_keep_def held_def)
      then have "disciplined gate (held s i) (todo s ! i)" "todo s ! i = []"
        using less.prems True by (auto simp: sys_inv_def threads_keep_def finished_def)
      then show ?thesis using i(2) by simp
    qed
    with True show ?thesis by blast
  next
    case False
    then obtain s1 where s1: "lock_step s s1" using gated_progress less.prems by blast
    from less.hyps [OF lock_step_size [OF s1] sys_inv_step [OF s1 less.prems]] s1
    show ?thesis by (meson converse_rtranclp_into_rtranclp)
  qed
qed

end

lemma scripts_disciplined:
  assumes "f \<noteq> Initialize" "s \<in> set (lock_scripts f)"
  shows "disciplined ID {} s"
  using assms by (cases f) (auto simp: script_defs)

lemma programs_disciplined: "p \<in> programs (- {Initialize}) \<Longrightarrow> disciplined ID {} p"
  by (induction rule: programs.induct) (auto intro: disciplined_append scripts_disciplined)

interpretation served: gated_scripts ID "programs (- {Initialize})"
  by unfold_locales (rule programs_disciplined)

section \<open>The discipline holds without \<open>usbFsInitialize\<close>, and not with it\<close>

text \<open>Running a schedule: the thread to move at each step.\<close>

definition move :: "nat \<Rightarrow> lock_sys \<Rightarrow> lock_sys option" where
  "move i s =
     (if i < length (todo s)
      then case todo s ! i of
          [] \<Rightarrow> None
        | Lock l # p \<Rightarrow> if owner s l = None
            then Some (s\<lparr>owner := (owner s)(l := Some i), todo := (todo s)[i := p]\<rparr>) else None
        | Unlock l # p \<Rightarrow> Some (s\<lparr>owner := (owner s)(l := None), todo := (todo s)[i := p]\<rparr>)
        | Crate # p \<Rightarrow> Some (s\<lparr>todo := (todo s)[i := p]\<rparr>)
      else None)"

fun run_schedule :: "nat list \<Rightarrow> lock_sys \<Rightarrow> lock_sys option" where
  "run_schedule [] s = Some s"
| "run_schedule (i # is) s = (case move i s of None \<Rightarrow> None | Some s1 \<Rightarrow> run_schedule is s1)"

lemma move_sound: "move i s = Some s' \<Longrightarrow> lock_step s s'"
  by (auto simp: move_def split: list.splits action.splits if_splits
      intro: lock_step.step_lock lock_step.step_unlock lock_step.step_crate)

lemma move_complete: "lock_step s s' \<Longrightarrow> \<exists>i < length (todo s). move i s = Some s'"
proof (elim lock_stepE)
  fix i l p
  assume "s' = s\<lparr>owner := (owner s)(l \<mapsto> i), todo := (todo s)[i := p]\<rparr>"
    "i < length (todo s)" "todo s ! i = Lock l # p" "owner s l = None"
  then have "move i s = Some s'" by (simp add: move_def)
  with \<open>i < length (todo s)\<close> show ?thesis by blast
next
  fix i l p
  assume "s' = s\<lparr>owner := (owner s)(l := None), todo := (todo s)[i := p]\<rparr>"
    "i < length (todo s)" "todo s ! i = Unlock l # p"
  then have "move i s = Some s'" by (simp add: move_def)
  with \<open>i < length (todo s)\<close> show ?thesis by blast
next
  fix i p
  assume "s' = s\<lparr>todo := (todo s)[i := p]\<rparr>" "i < length (todo s)" "todo s ! i = Crate # p"
  then have "move i s = Some s'" by (simp add: move_def)
  with \<open>i < length (todo s)\<close> show ?thesis by blast
qed

lemma run_schedule_reaches: "run_schedule is s = Some s' \<Longrightarrow> lock_step\<^sup>*\<^sup>* s s'"
proof (induction "is" s rule: run_schedule.induct)
  case (2 i "is" s)
  then obtain s1 where "move i s = Some s1" "run_schedule is s1 = Some s'"
    by (auto split: option.splits)
  with 2(1) show ?case by (meson move_sound converse_rtranclp_into_rtranclp)
qed simp

lemma stuck_iff_moves:
  "stuck s \<longleftrightarrow> \<not> finished s \<and> list_all (\<lambda>i. move i s = None) [0 ..< length (todo s)]"
  unfolding stuck_def list_all_iff using move_sound [of _ s] move_complete [of s] by fastforce

text \<open>
  C13: \<open>usbFsInitialize\<close> takes the mutexes in the opposite order to every other function, so it
  can block forever: a second thread that calls any of the status functions (or mounts as well)
  while the first one is opening the partition leads to a state in which the first holds the USB
  and file-system mutexes and waits for the table, the second holds the table and waits for
  the USB mutex, and no thread can move.
\<close>

theorem initialize_can_deadlock:
  assumes "f \<in> {IsInitialized, IsReady, DeviceUpdate, DeviceGetMountStatus, Initialize}"
  shows "\<exists>p q s. p \<in> set (lock_scripts Initialize) \<and> q \<in> set (lock_scripts f)
    \<and> lock_step\<^sup>*\<^sup>* (start [p, q]) s \<and> stuck s
    \<and> owner s USB = Some 0 \<and> owner s FS = Some 0 \<and> owner s ID = Some 1
    \<and> todo s = [[Lock ID, Unlock ID, Unlock FS, Unlock USB], Lock USB # drop 2 q]"
proof -
  let ?p = "is_initialized_script @ [Lock USB, Crate, Lock FS, Lock ID, Unlock ID, Unlock FS, Unlock USB]"
  let ?q = is_initialized_script
  let ?s = "the (run_schedule [0, 0, 0, 0, 0, 0, 0, 0, 1, 0] (start [?p, ?q]))"
  have s: "run_schedule [0, 0, 0, 0, 0, 0, 0, 0, 1, 0] (start [?p, ?q]) = Some ?s"
    "owner ?s USB = Some 0" "owner ?s FS = Some 0" "owner ?s ID = Some 1"
    "todo ?s = [[Lock ID, Unlock ID, Unlock FS, Unlock USB], Lock USB # drop 2 ?q]"
    by (simp_all add: start_def is_initialized_script_def move_def)
  have "stuck ?s"
    unfolding stuck_iff_moves using s(2-5) by (simp add: finished_def move_def)
  moreover have "?p \<in> set (lock_scripts Initialize)" "?q \<in> set (lock_scripts f)"
    using assms by (auto simp: initialize_scripts_def is_ready_scripts_def)
  ultimately show ?thesis using run_schedule_reaches [OF s(1)] s(2-5) by blast
qed

theorem initialize_can_deadlock_witness:
  "\<exists>p q s. q \<in> set (lock_scripts DeviceUpdate) \<and> lock_step\<^sup>*\<^sup>* (start [p, q]) s \<and> stuck s"
  using initialize_can_deadlock [of DeviceUpdate] by blast

text \<open>
  C12: Apart from \<open>usbFsInitialize\<close> the functions cannot block each other: any number of threads,
  each running any sequence of the other calls, stopped at any point of any interleaving, can
  go on until all calls have returned, and then no mutex is held.
\<close>

theorem other_calls_complete:
  assumes "lock_step\<^sup>*\<^sup>* (start ps) s" "set ps \<subseteq> programs (- {Initialize})"
  shows "\<not> stuck s \<and> (\<exists>s'. lock_step\<^sup>*\<^sup>* s s' \<and> finished s' \<and> (\<forall>l. owner s' l = None))"
  using served.never_stuck [OF assms] served.completes [OF served.keeps_inv [OF assms]] by blast

theorem other_calls_complete_witness:
  "\<exists>s'. lock_step\<^sup>*\<^sup>* \<lparr>owner = (\<lambda>_. None)(ID := Some 0),
      todo = [[Lock FS, Unlock FS, Unlock ID], [Lock ID, Lock FS, Lock USB, Unlock USB, Unlock FS, Unlock ID]]\<rparr> s'
    \<and> finished s'"
proof -
  let ?ps = "[[Lock ID, Lock FS, Unlock FS, Unlock ID], [Lock ID, Lock FS, Lock USB, Unlock USB, Unlock FS, Unlock ID]]"
  have "run_schedule [0] (start ?ps) = Some \<lparr>owner = (\<lambda>_. None)(ID := Some 0),
      todo = [[Lock FS, Unlock FS, Unlock ID], [Lock ID, Lock FS, Lock USB, Unlock USB, Unlock FS, Unlock ID]]\<rparr>"
    by (simp add: start_def move_def)
  from run_schedule_reaches [OF this] show ?thesis
  proof (rule other_calls_complete [THEN conjunct2, THEN ex_forward])
    have "p \<in> programs (- {Initialize})" if "p \<in> set (lock_scripts f)" "f \<noteq> Initialize" for p f
      using prog_call [OF _ that(1) prog_done, of "- {Initialize}"] that(2) by simp
    from this [of _ OpenFile] this [of _ Exit] show "set ?ps \<subseteq> programs (- {Initialize})"
      by (auto simp: script_defs)
  qed simp
qed

end
