(* ===== verification/LockRace.thy ===== *)
theory LockRace
  imports LockOrder
begin

text \<open>
  What the mutexes of \<open>src/capi_helpers/usbfs.rs\<close> protect: the objects of the crate \<open>fatfs\<close> are
  reached through the id table (open files and directories) or through the pointer to the file
  system, and all of them work on the same drive, which is not made for two threads at once.
\<close>

text \<open>A thread inside the crate: it is in a stretch of calls into it.\<close>

definition in_crate :: "lock_sys \<Rightarrow> nat \<Rightarrow> bool" where
  "in_crate s i \<longleftrightarrow> i < length (todo s) \<and> (\<exists>p. todo s ! i = Crate # p)"

section \<open>The crate under one mutex\<close>

text \<open>A script that calls the crate only while it holds the lock \<open>m\<close>.\<close>

fun crate_under :: "lock \<Rightarrow> lock set \<Rightarrow> action list \<Rightarrow> bool" where
  "crate_under m H [] \<longleftrightarrow> H = {}"
| "crate_under m H (Lock l # p) \<longleftrightarrow> crate_under m (insert l H) p"
| "crate_under m H (Unlock l # p) \<longleftrightarrow> l \<in> H \<and> crate_under m (H - {l}) p"
| "crate_under m H (Crate # p) \<longleftrightarrow> m \<in> H \<and> crate_under m H p"

interpretation under: script_rule "crate_under m" for m
  by unfold_locales simp_all

lemma crate_under_append:
  "crate_under m H p \<Longrightarrow> crate_under m {} q \<Longrightarrow> crate_under m H (p @ q)"
  by (induction m H p rule: crate_under.induct) auto

lemma programs_crate_under:
  assumes "\<And>f s. f \<in> A \<Longrightarrow> s \<in> set (lock_scripts f) \<Longrightarrow> crate_under m {} s" "p \<in> programs A"
  shows "crate_under m {} p"
  using assms(2) by (induction rule: programs.induct) (auto intro: crate_under_append assms(1))

text \<open>Programs that keep the rule are inside the crate one at a time.\<close>

lemma crate_excludes:
  assumes "\<And>f s. f \<in> A \<Longrightarrow> s \<in> set (lock_scripts f) \<Longrightarrow> crate_under m {} s"
    and "set ps \<subseteq> programs A" "lock_step\<^sup>*\<^sup>* (start ps) s" "in_crate s i" "in_crate s j"
  shows "i = j"
proof -
  have "threads_keep (crate_under m) s"
  proof (rule under.reached [OF assms(3)])
    fix p assume "p \<in> set ps"
    with assms(2) have "p \<in> programs A" by blast
    then show "crate_under m {} p" using programs_crate_under assms(1) by blast
  qed
  then have owner: "owner s m = Some k" if "in_crate s k" for k
    using that by (auto simp: threads_keep_def in_crate_def held_def)
  from owner [OF assms(4)] owner [OF assms(5)] show ?thesis by simp
qed

section \<open>Property\<close>

text \<open>
  The functions that call the crate holding the table alone: they use or drop an open handle, or
  look through the entries of a directory.
\<close>

definition under_table :: "api_fn set" where
  "under_table =
     {Exit, CloseFile, CloseDir, ReadFile, WriteFile, SeekFile, SyncFile, TruncateFile, ReadDir,
      StatFile, StatPath, DeleteFile, DeleteDir}"

lemma under_ID:
  assumes "f \<noteq> Initialize" "f \<noteq> StatFilesystem" "s \<in> set (lock_scripts f)"
  shows "crate_under ID {} s"
  using assms by (cases f) (auto simp: script_defs)

lemma under_FS:
  assumes "f \<noteq> Initialize" "f \<notin> under_table" "s \<in> set (lock_scripts f)"
  shows "crate_under FS {} s"
  using assms by (cases f) (auto simp: script_defs under_table_def)

lemma under_table_script:
  "f \<in> under_table \<Longrightarrow> \<exists>p. Lock ID # Crate # p \<in> set (lock_scripts f)"
  unfolding under_table_def by (auto simp: script_defs)

text \<open>
  C11: Two threads can be inside the crate at the same time exactly when one of them asks for the
  status of the file system: among any functions but \<open>usbFsInitialize\<close>, in any number of threads,
  each calling them in any order, two calls are inside at once in some interleaving exactly when
  \<open>usbFsStatFilesystem\<close> is among the functions together with one that uses an open handle or
  looks through a directory. The former counts the clusters under the mutex of the file system
  alone, the latter work under the mutex of the table alone; all other pairs keep apart.
\<close>

theorem drive_shared_iff_statfs:
  assumes "Initialize \<notin> A"
  shows "(\<exists>ps s i j. set ps \<subseteq> programs A \<and> lock_step\<^sup>*\<^sup>* (start ps) s
      \<and> in_crate s i \<and> in_crate s j \<and> i \<noteq> j)
    \<longleftrightarrow> StatFilesystem \<in> A \<and> A \<inter> under_table \<noteq> {}"
proof
  assume "\<exists>ps s i j. set ps \<subseteq> programs A \<and> lock_step\<^sup>*\<^sup>* (start ps) s
    \<and> in_crate s i \<and> in_crate s j \<and> i \<noteq> j"
  then obtain ps s i j where s: "set ps \<subseteq> programs A" "lock_step\<^sup>*\<^sup>* (start ps) s"
    "in_crate s i" "in_crate s j" "i \<noteq> j" by blast
  have witness: "\<exists>f \<in> A. \<exists>p \<in> set (lock_scripts f). \<not> crate_under m {} p" for m
  proof (rule ccontr)
    assume "\<not> ?thesis"
    then have "crate_under m {} p" if "f \<in> A" "p \<in> set (lock_scripts f)" for f p
      using that by simp
    from crate_excludes [OF this s(1-4)] s(5) show False by simp
  qed
  obtain f p where f: "f \<in> A" "p \<in> set (lock_scripts f)" "\<not> crate_under ID {} p"
    using witness [of ID] by (elim bexE)
  obtain g q where g: "g \<in> A" "q \<in> set (lock_scripts g)" "\<not> crate_under FS {} q"
    using witness [of FS] by (elim bexE)
  have ne: "f \<noteq> Initialize" "g \<noteq> Initialize" using f(1) g(1) assms by auto
  have "f = StatFilesystem" using f(3) under_ID [OF ne(1) _ f(2)] by (rule contrapos_np)
  moreover have "g \<in> under_table" using g(3) under_FS [OF ne(2) _ g(2)] by (rule contrapos_np)
  ultimately show "StatFilesystem \<in> A \<and> A \<inter> under_table \<noteq> {}" using f(1) g(1) by auto
next
  assume A: "StatFilesystem \<in> A \<and> A \<inter> under_table \<noteq> {}"
  then obtain f p where f: "f \<in> A" "Lock ID # Crate # p \<in> set (lock_scripts f)"
    using under_table_script by blast
  let ?ps = "[[Lock FS, Crate, Unlock FS], Lock ID # Crate # p]"
  let ?s = "\<lparr>owner = (\<lambda>_. None)(FS := Some 0, ID := Some 1), todo = [[Crate, Unlock FS], Crate # p]\<rparr>"
  have "run_schedule [0, 1] (start ?ps) = Some ?s" by (simp add: start_def move_def)
  moreover have "set ?ps \<subseteq> programs A"
    using prog_call [OF _ _ prog_done, of StatFilesystem A "[Lock FS, Crate, Unlock FS]"]
      prog_call [OF f prog_done] A by (simp add: stat_fs_scripts_def)
  moreover have "in_crate ?s 0" "in_crate ?s 1" by (simp_all add: in_crate_def)
  ultimately show "\<exists>ps s i j. set ps \<subseteq> programs A \<and> lock_step\<^sup>*\<^sup>* (start ps) s
      \<and> in_crate s i \<and> in_crate s j \<and> i \<noteq> j"
    using run_schedule_reaches by (metis zero_neq_one)
qed

theorem drive_shared_iff_statfs_witness:
  "(\<exists>ps s i j. set ps \<subseteq> programs {ReadFile, StatFilesystem} \<and> lock_step\<^sup>*\<^sup>* (start ps) s
      \<and> in_crate s i \<and> in_crate s j \<and> i \<noteq> j)
    \<and> \<not> (\<exists>ps s i j. set ps \<subseteq> programs {StatFilesystem, OpenFile, IsInitialized}
      \<and> lock_step\<^sup>*\<^sup>* (start ps) s \<and> in_crate s i \<and> in_crate s j \<and> i \<noteq> j)
    \<and> \<not> (\<exists>ps s i j. set ps \<subseteq> programs (- {Initialize, StatFilesystem}) \<and> lock_step\<^sup>*\<^sup>* (start ps) s
      \<and> in_crate s i \<and> in_crate s j \<and> i \<noteq> j)"
  using drive_shared_iff_statfs [of "{ReadFile, StatFilesystem}"]
    drive_shared_iff_statfs [of "{StatFilesystem, OpenFile, IsInitialized}"]
    drive_shared_iff_statfs [of "- {Initialize, StatFilesystem}"] by (simp add: under_table_def)

end
