(* ===== verification/Spec2Isabelle.thy ===== *)
theory Spec2Isabelle
  imports BufScsiThms SectorSpec FileSpec UsbThms FsLayerThms Errno DemoThms LockRace
begin

text \<open>
  nx-fatdrive: FAT file systems on USB drives for the Nintendo Switch.

  \<^bold>\<open>The program.\<close> A USB drive speaks SCSI over bulk transfers. \<open>src/usb_comm.rs\<close> selects the two
  endpoints of an interface and moves whole buffers (\<open>src/vecwrapper.rs\<close>) through page-aligned
  allocations (\<open>src/aligned_slice.rs\<close>). The crate \<open>scsi\<close> turns them into block reads and writes,
  and \<open>src/buf_scsi.rs\<close> makes those a seekable byte stream over one partition, with one block of
  write-back cache. On that stream stand two file systems behind a generic layer
  (\<open>src/filesystem/\<close>): the crate \<open>fatfs\<close>, and the C library FatFs, which calls back into a table
  of drives. Two interfaces use the crate: the C functions \<open>usbFs*\<close> (\<open>src/capi_helpers/usbfs.rs\<close>)
  over three global pointers behind mutexes and a table of ids
  (\<open>src/capi_helpers/idstore.rs\<close>), and a newlib device \<open>usbfs:\<close>
  (\<open>src/capi_helpers/iosupport.rs\<close>) whose handlers find their context behind a pointer. Both
  report errors as 32-bit codes (\<open>src/capi_helpers/err.rs\<close>). \<open>src/main.rs\<close> is a demo.

  \<^bold>\<open>The theories.\<close>
  \<^item> \<open>Prelude\<close>: machine types, the outcomes of a call (\<open>exec\<close>: a value or a panic; sums for
    \<open>Result\<close>), hash maps behind the locale \<open>hash_map\<close>, UTF-8, shared lemmas.
  \<^item> \<open>ErrCodes\<close> (\<open>err.rs\<close>): the constants and the mappers, as instances of the locale
    \<open>err_mapper\<close>; the families of codes are disjoint, MBR codes collide.
  \<^item> \<open>VecBuffer\<close> (\<open>vecwrapper.rs\<close>): \<open>VecNewtype\<close> as an instance of the locale \<open>scsi_buffer\<close>.
  \<^item> \<open>AlignedSlice\<close> (\<open>aligned_slice.rs\<close>), \<open>UsbComm\<close> (\<open>usb_comm.rs\<close>): allocation, endpoints, the two
    transfers; \<open>UsbThms\<close> says what arrives and what is sent.
  \<^item> \<open>ByteStream\<close>: the locale \<open>byte_stream\<close>, a cursor over an array of bytes, and what sequences of
    operations do on it. \<open>BufScsi\<close> (\<open>buf_scsi.rs\<close>) is the block cache; \<open>BufScsiRefine\<close> holds its
    invariant and interprets the locale on it; \<open>RamDisk\<close> is a small device that has the laws;
    \<open>BufScsiThms\<close> has the refinement of the array by the cache (\<open>cache_refines_array\<close>), the durability of a flush,
    read-your-writes, and the failures.
  \<^item> \<open>FsTypes\<close>, \<open>FsLayer\<close>, \<open>FsLayerThms\<close> (\<open>filesystem/mod.rs\<close>, \<open>filesystem/fatfs_rs.rs\<close>): the data
    types, the traits as records of operations, the enums that dispatch on the implementation.
  \<^item> \<open>FatfsRaw\<close>, \<open>FatfsRawFs\<close>, \<open>FatfsRawThms\<close> (\<open>filesystem/fatfs_raw.rs\<close>): the table of drives behind
    FatFs, its control requests, files and directories over the library. \<open>SectorSpec\<close> is the
    contract with the C library, independent arrays of sectors, refined by any sequence of requests.
  \<^item> \<open>IdStore\<close> (\<open>idstore.rs\<close>): the table of ids; \<open>IdStoreInv\<close> has its invariant and the locale
    \<open>handle_table\<close>, which both halves of the table satisfy; \<open>IdStoreThms\<close> the life of an id,
    directory cursors, lookups of paths. \<open>IdStoreSpec\<close> is an abstract table with a step relation,
    which every sequence of calls refines, and the fact that an id never changes its meaning.
  \<^item> \<open>UsbFs\<close>, \<open>UsbFsFiles\<close> (\<open>usbfs.rs\<close>): mounting, unmounting and status, then files and
    directories; \<open>UsbFsInv\<close> makes the calls steps of a state machine, panics that poison a mutex
    included, with the invariant of every reachable state; \<open>UsbFsThms\<close> the properties.
    \<open>UsbFsStable\<close> has what holds along every run: poison is permanent, stored paths are strings.
    \<open>FileSpec\<close> is an abstract file system, named byte arrays and open files with positions, which the
    calls on files refine over a crate that keeps \<open>fat_laws\<close>.
  \<^item> \<open>LockOrder\<close> (\<open>usbfs.rs\<close>): which mutexes a function takes, when it lets go and where in between it
    calls the crate \<open>fatfs\<close>; any number of threads in any order finish as long as none initializes
    (locale \<open>gated_scripts\<close>), and two can block each other when one does. \<open>LockRace\<close> says which
    functions can be inside the crate at the same time.
  \<^item> \<open>IoSupport\<close>, \<open>NewlibFiles\<close>, \<open>NewlibThms\<close> (\<open>iosupport.rs\<close>, \<open>iosupport_bindings.rs\<close>): the context
    with its three mount stages, the device table, the heap of contexts, every handler;
    \<open>Errno\<close>: the error numbers of newlib, which the handlers do not use.
  \<^item> \<open>DemoProgram\<close>, \<open>DemoThms\<close> (\<open>main.rs\<close>): the demo, from \<open>main\<close> to the key that ends it,
    and what it leaves on a healthy drive.
  \<^item> This theory: the three copies of the mount code agree.

  \<^bold>\<open>Parameters.\<close> What is not in the repository is a record of functions: \<open>scsi_ops\<close> (the crate
  \<open>scsi\<close>), \<open>fat_crate\<close> and its extensions (the crate \<open>fatfs\<close>), \<open>fatfs_sys\<close> and its constants (the C
  library), \<open>usb_api\<close> and \<open>usb_sys\<close> (libnx and the parser of \<open>mbr_nostd\<close>), \<open>newlib_api\<close> (the registry
  of devices), the allocator. Objects whose state is hidden in a library act on a world that every
  call threads. A property that needs a library to work says so by a named law: \<open>disk_laws\<close> (a
  block device over an array of bytes), \<open>listing\<close> and \<open>yields\<close> (an enumeration that ends),
  \<open>drive_law\<close> (a drive with room, for the demo), \<open>fat_laws\<close> (files are arrays of bytes, a
  handle has a position), and its witness instantiates the law.

  \<^bold>\<open>Loops.\<close> A loop the code does not bound is a \<open>partial_function (option)\<close>, where no result means
  that it runs forever: \<open>mbr_loop\<close>, \<open>load_loop\<close>, \<open>find_entry\<close>, \<open>write_all\<close>, \<open>collect_entries\<close>,
  \<open>delay_loop\<close>, \<open>wait_for_plus\<close>. There is no fuel. The other loops are total, with a measure where the recursion is not structural
  (\<open>read_loop\<close>, \<open>write_loop\<close>, \<open>fill_loop\<close>, \<open>drain_loop\<close>, \<open>add_fs_loop\<close>).

  \<^bold>\<open>The build.\<close> Arithmetic wraps, as in a release build; \<open>usize\<close> has 64 bits. A panic is a value of
  \<open>exec\<close>; in the C interface it poisons the mutexes the call holds. What is undefined in Rust (a
  pointer to a freed context, a slice past its memory, a zeroed \<open>DirEntry\<close>) has no result either:
  it is \<open>None\<close>.

  \<^bold>\<open>Not modelled.\<close> The drops of USB sessions and endpoints (they act inside libnx); the drop
  of a root directory that is a temporary of a call, other than in \<open>stat_path\<close> (it has no entry to
  write back), the flush of a device that a failed \<open>from_device\<close> drops (no table holds it) and the
  freed memory of a removed newlib device (its context, which the handlers follow, is freed); the text of
  the log that \<open>usbFsExit\<close> writes; what the demo prints; \<open>build.rs\<close>, \<open>lib.rs\<close> and
  \<open>capi_helpers/mod.rs\<close>, which hold no logic.
\<close>

section \<open>The three mounts\<close>

text \<open>
  C28: The three copies of the mount code (\<open>open_partition\<close> of the C interface, \<open>open_partition\<close> of
  the newlib context, the demo program) read the same partition off the same drive: whatever
  the device does, where the first opens a partition the other two build their file system on
  the very same one; where it reports an error the newlib copy reports the code it carries;
  where it loops forever so do they.
\<close>

theorem mounts_agree:
  assumes "client_state ctx = Acquired iface dev"
  shows "case open_partition U dev 0 of
      None \<Rightarrow> nl_open_partition C U 0 ctx w = None \<and> demo_mount T C U k dev w = None
    | Some Panic \<Rightarrow> (\<forall>r. nl_open_partition C U 0 ctx w \<noteq> Some (Ok (), r))
        \<and> demo_mount T C U k dev w = Some (Panic, w)
    | Some (Err e) \<Rightarrow> \<exists>c ctx'. e = us_from_raw U c \<and> nl_open_partition C U 0 ctx w = Some (Err c, ctx', w)
    | Some (Ok part) \<Rightarrow>
        (case us_new_fs U part w of
           (Inl e, w1) \<Rightarrow>
             nl_open_partition C U 0 ctx w = Some (Err (io_error_map e), ctx\<lparr>client_state := Uninitialized\<rparr>, w1)
             \<and> demo_mount T C U k dev w = leave_early T (MountFailed e) w1
         | (Inr fs, w1) \<Rightarrow>
             (\<exists>ent. nl_open_partition C U 0 ctx w = Some (Ok (), ctx\<lparr>client_state := Opened iface fs ent\<rparr>, w1))
             \<and> demo_mount T C U k dev w
               = map_option (apfst Ret) (drop_after (fc_drop_fs C fs) (k fs w1)))"
proof (cases "with_fake_capacity (max 512 (ucast (op_block_size (us_scsi U) dev)))")
  case Panic
  with assms show ?thesis
    by (simp add: open_partition_def nl_open_partition_def get_partitions_def demo_mount_def)
next
  case (Ret b)
  note v = this
  show ?thesis
  proof (cases "mbr_loop (us_scsi U) dev b")
    case None
    with v assms show ?thesis
      by (simp add: open_partition_def nl_open_partition_def get_partitions_def demo_mount_def)
  next
    case (Some z)
    obtain r dev1 b1 where z: "z = (r, dev1, b1)" by (cases z)
    show ?thesis
    proof (cases r)
      case (Inl e)
      with v Some z assms show ?thesis
        by (auto simp: open_partition_def nl_open_partition_def get_partitions_def demo_mount_def)
    next
      case (Inr x)
      show ?thesis
        using v Some z Inr assms
        by (cases "us_parse_mbr U (inner b1)")
          (auto simp: open_partition_def nl_open_partition_def get_partitions_def demo_mount_def
            mount_taken_def Let_def split: list.splits exec.splits sum.splits prod.splits)
    qed
  qed
qed

theorem mounts_agree_witness:
  "\<exists>part ctx'. open_partition toy_usb toy_disk 0 = Some (Ok part)
     \<and> nl_open_partition toy_crate toy_usb 0 toy_acquired True = Some (Ok (), ctx', True)
     \<and> demo_mount toy_front toy_crate toy_usb (\<lambda>fs w. Some (Finished, w)) toy_disk True = Some (Ret Finished, True)"
proof -
  have a: "client_state toy_acquired = Acquired toy_iface toy_disk" by (simp add: toy_acquired_def)
  obtain part where p: "open_partition toy_usb toy_disk 0 = Some (Ok part)"
    using toy_partition by blast
  show ?thesis
    using mounts_agree [OF a, where U = toy_usb and T = toy_front and C = toy_crate and w = True and k = "\<lambda>fs w. Some (Finished, w)"] p
    by (auto simp: toy_usb_def toy_crate_def drop_after_def)
qed

end
